(* ===== verification/Prelude.thy ===== *)
theory Prelude
  imports Main "HOL-Library.Word" "HOL-Library.AList"
begin

text \<open>
  What every component of the NexusPipe model shares: the Go run-time notions the sources
  use (64-bit signed integers, \<^verbatim>\<open>time.Duration\<close> and \<^verbatim>\<open>time.Time\<close>, maps with their zero values
  and their unspecified iteration order, results with an error or a panic), the interface
  that maps offer to their clients as a locale, and generic lemmas on lists.
\<close>

named_theorems gomap \<open>rewrite rules for the map operations\<close>

section \<open>Integers, durations and instants\<close>

text \<open>
  Go's \<^verbatim>\<open>int\<close>, \<^verbatim>\<open>int64\<close> and \<^verbatim>\<open>time.Duration\<close> are 64-bit two's complement. They are
  integers here, and an operation whose result may leave the range applies \<open>i64\<close>, the
  wrap-around. Lengths and loop counters, which are bounded by the memory, are not wrapped.
  Durations count nanoseconds. An instant counts the nanoseconds since Go's zero
  \<^verbatim>\<open>time.Time\<close>, so that \<open>0\<close> is the value whose \<^verbatim>\<open>IsZero\<close> holds.
\<close>

type_synonym dur = int
type_synonym gotime = int
type_synonym uuid = "128 word"

definition i64 :: "int \<Rightarrow> int" where
  "i64 x = (x + 2 ^ 63) mod 2 ^ 64 - 2 ^ 63"

definition i64_range :: "int \<Rightarrow> bool" where
  "i64_range x \<longleftrightarrow> - (2 ^ 63) \<le> x \<and> x < 2 ^ 63"

definition Nanosecond :: dur where "Nanosecond = 1"
definition Millisecond :: dur where "Millisecond = 1000000"
definition Second :: dur where "Second = 1000000000"
definition Minute :: dur where "Minute = 60 * Second"
definition Hour :: dur where "Hour = 60 * Minute"

lemmas time_units = Nanosecond_def Millisecond_def Second_def Minute_def Hour_def

text \<open>\<^verbatim>\<open>t.Sub(u)\<close> saturates at the least and the greatest duration.\<close>

definition time_Sub :: "gotime \<Rightarrow> gotime \<Rightarrow> dur" where
  "time_Sub t u = max (- (2 ^ 63)) (min (2 ^ 63 - 1) (t - u))"

definition time_IsZero :: "gotime \<Rightarrow> bool" where
  "time_IsZero t \<longleftrightarrow> t = 0"

section \<open>Results\<close>

text \<open>
  A function that returns \<^verbatim>\<open>(T, error)\<close> returns \<open>'e + 'a\<close>. A function that may also panic (a
  nil pointer, an index out of range) returns an \<open>outcome\<close>.
\<close>

datatype ('e, 'a) outcome = Return 'a | Error 'e | Panic

section \<open>Maps\<close>

text \<open>
  A Go map is an association list without duplicate keys. \<open>gm_get\<close> is the two-result lookup,
  \<open>gm_getd\<close> the one-result lookup with the zero value of the element type. The order in
  which \<^verbatim>\<open>range\<close> visits a map is not specified by the language: a function that depends on
  it takes the order as an argument, a list of keys for which \<open>gm_iter\<close> holds.
\<close>

type_synonym ('k, 'v) gmap = "('k \<times> 'v) list"

definition gm_empty :: "('k, 'v) gmap" where
  "gm_empty = []"

definition gm_get :: "('k, 'v) gmap \<Rightarrow> 'k \<Rightarrow> 'v option" where
  "gm_get m k = map_of m k"

definition gm_getd :: "'v \<Rightarrow> ('k, 'v) gmap \<Rightarrow> 'k \<Rightarrow> 'v" where
  "gm_getd z m k = (case gm_get m k of None \<Rightarrow> z | Some v \<Rightarrow> v)"

definition gm_has :: "('k, 'v) gmap \<Rightarrow> 'k \<Rightarrow> bool" where
  "gm_has m k \<longleftrightarrow> gm_get m k \<noteq> None"

definition gm_set :: "'k \<Rightarrow> 'v \<Rightarrow> ('k, 'v) gmap \<Rightarrow> ('k, 'v) gmap" where
  "gm_set k v m = AList.update k v m"

definition gm_del :: "'k \<Rightarrow> ('k, 'v) gmap \<Rightarrow> ('k, 'v) gmap" where
  "gm_del k m = AList.delete k m"

definition gm_len :: "('k, 'v) gmap \<Rightarrow> nat" where
  "gm_len m = length m"

definition gm_keys :: "('k, 'v) gmap \<Rightarrow> 'k list" where
  "gm_keys m = map fst m"

definition gm_inv :: "('k, 'v) gmap \<Rightarrow> bool" where
  "gm_inv m \<longleftrightarrow> distinct (map fst m)"

definition gm_iter :: "'k list \<Rightarrow> ('k, 'v) gmap \<Rightarrow> bool" where
  "gm_iter ord m \<longleftrightarrow> distinct ord \<and> set ord = set (gm_keys m)"

text \<open>
  A function with several \<^verbatim>\<open>range\<close> loops over maps takes all the orders from one argument \<open>rng\<close>,
  which answers, for the number of the loop and the keys of the map, the order of that visit.
\<close>

type_synonym 'k ranger = "nat \<Rightarrow> 'k list \<Rightarrow> 'k list"

definition ranger_ok :: "'k ranger \<Rightarrow> bool" where
  "ranger_ok rng \<longleftrightarrow> (\<forall>i ks. distinct ks \<longrightarrow> distinct (rng i ks) \<and> set (rng i ks) = set ks)"

definition range_over :: "'k ranger \<Rightarrow> nat \<Rightarrow> ('k, 'v) gmap \<Rightarrow> 'k list" where
  "range_over rng i m = rng i (gm_keys m)"

definition range_items :: "'k ranger \<Rightarrow> nat \<Rightarrow> ('k, 'v) gmap \<Rightarrow> ('k \<times> 'v) list" where
  "range_items rng i m = List.map_filter (\<lambda>k. map_option (Pair k) (gm_get m k)) (range_over rng i m)"

subsection \<open>The interface of a map\<close>

text \<open>
  The laws the components rely on: what a lookup returns after an assignment or a deletion,
  how the length changes, and that the invariant is kept. The consequences for loops that
  fill a map are proved once, from the laws.
\<close>

locale go_map =
  fixes empty :: "'m"
    and get :: "'m \<Rightarrow> 'k \<Rightarrow> 'v option"
    and put :: "'k \<Rightarrow> 'v \<Rightarrow> 'm \<Rightarrow> 'm"
    and del :: "'k \<Rightarrow> 'm \<Rightarrow> 'm"
    and len :: "'m \<Rightarrow> nat"
    and inv :: "'m \<Rightarrow> bool"
  assumes get_empty: "get empty k = None"
    and get_put: "get (put k v m) k' = (if k' = k then Some v else get m k')"
    and get_del: "inv m \<Longrightarrow> get (del k m) k' = (if k' = k then None else get m k')"
    and len_empty: "len empty = 0"
    and len_put: "len (put k v m) = (if get m k = None then Suc (len m) else len m)"
    and len_del: "inv m \<Longrightarrow> len (del k m) = (if get m k = None then len m else len m - 1)"
    and inv_empty: "inv empty"
    and inv_put: "inv m \<Longrightarrow> inv (put k v m)"
    and inv_del: "inv m \<Longrightarrow> inv (del k m)"
begin

lemma get_put_same: "get (put k v m) k = Some v"
  by (simp add: get_put)

lemma inv_fill: "inv m \<Longrightarrow> inv (fold (\<lambda>x. put (f x) (g x)) xs m)"
  by (induction xs arbitrary: m) (auto intro: inv_put)

lemma get_fill_notin:
  "k \<notin> f ` set xs \<Longrightarrow> get (fold (\<lambda>x. put (f x) (g x)) xs m) k = get m k"
  by (induction xs arbitrary: m) (auto simp: get_put)

lemma get_fill_in:
  "k \<in> f ` set xs \<Longrightarrow> \<exists>x\<in>set xs. f x = k \<and> get (fold (\<lambda>x. put (f x) (g x)) xs m) k = Some (g x)"
proof (induction xs arbitrary: m)
  case Nil
  then show ?case by simp
next
  case (Cons y xs)
  show ?case
  proof (cases "k \<in> f ` set xs")
    case True
    then show ?thesis using Cons.IH [of "put (f y) (g y) m"] by auto
  next
    case False
    with Cons.prems have "f y = k" by auto
    with False show ?thesis by (auto simp: get_fill_notin get_put)
  qed
qed

lemma get_fill_const:
  "get (fold (\<lambda>x. put (f x) v) xs m) k = (if k \<in> f ` set xs then Some v else get m k)"
  by (induction xs arbitrary: m) (auto simp: get_put)

end

lemma gm_update_length:
  "length (AList.update k v m) = (if map_of m k = None then Suc (length m) else length m)"
  by (induction m) auto

lemma gm_delete_length:
  "distinct (map fst m) \<Longrightarrow>
    length (AList.delete k m) = (if map_of m k = None then length m else length m - 1)"
proof (induction m)
  case Nil
  then show ?case by simp
next
  case (Cons p m)
  show ?case
  proof (cases "fst p = k")
    case True
    with Cons.prems have "AList.delete k m = m" "map_of m k = None"
      by (auto simp: delete_idem map_of_eq_None_iff)
    with True show ?thesis by (cases p) (simp add: AList.delete_eq)
  next
    case False
    with Cons show ?thesis
      by (cases p) (cases m, auto simp: AList.delete_eq)
  qed
qed

interpretation gm: go_map gm_empty gm_get gm_set gm_del gm_len gm_inv
  by unfold_locales
    (auto simp: gm_empty_def gm_get_def gm_set_def gm_del_def gm_len_def gm_inv_def
      update_conv' delete_conv' gm_update_length gm_delete_length distinct_update distinct_delete)

lemmas gm_laws [gomap] = gm.get_empty gm.get_put gm.get_del gm.len_empty gm.len_put gm.len_del
  gm.inv_empty gm.inv_put gm.inv_del

lemma range_over_iter: "ranger_ok rng \<Longrightarrow> gm_inv m \<Longrightarrow> gm_iter (range_over rng i m) m"
  by (simp add: ranger_ok_def gm_inv_def gm_iter_def range_over_def gm_keys_def)

lemma ranger_ok_id [simp]: "ranger_ok (\<lambda>i ks. ks)"
  by (simp add: ranger_ok_def)

lemma gm_has_keys: "gm_has m k \<longleftrightarrow> k \<in> set (gm_keys m)"
  by (induction m) (auto simp: gm_has_def gm_get_def gm_keys_def)

lemma gm_keys_set [simp]: "set (gm_keys (gm_set k v m)) = insert k (set (gm_keys m))"
  by (simp add: gm_keys_def gm_set_def dom_update)

lemma gm_keys_del [simp]: "set (gm_keys (gm_del k m)) = set (gm_keys m) - {k}"
  by (auto simp: gm_keys_def gm_del_def AList.delete_eq)

lemma gm_keys_empty [simp]: "gm_keys gm_empty = []"
  by (simp add: gm_keys_def gm_empty_def)

lemma set_gm_set: "set (gm_set k v m) \<subseteq> insert (k, v) (set m)"
  by (induction m) (auto simp: gm_set_def)

lemma set_gm_del: "set (gm_del k m) \<subseteq> set m"
  by (auto simp: gm_del_def AList.delete_eq)

lemma gm_getd_set [simp]: "gm_getd z (gm_set k v m) k' = (if k' = k then v else gm_getd z m k')"
  by (simp add: gm_getd_def gm.get_put)

lemma gm_getd_empty [simp]: "gm_getd z gm_empty k = z"
  by (simp add: gm_getd_def gm_laws)

lemma gm_get_mem: "gm_inv m \<Longrightarrow> (k, v) \<in> set m \<longleftrightarrow> gm_get m k = Some v"
  by (auto simp: gm_inv_def gm_get_def dest: map_of_SomeD)

lemma gm_get_keys: "gm_get m k = None \<longleftrightarrow> k \<notin> set (gm_keys m)"
  using gm_has_keys [of m k] by (auto simp: gm_has_def)

lemma set_range_items:
  assumes "ranger_ok rng" and "gm_inv m"
  shows "set (range_items rng i m) = {(k, v). gm_get m k = Some v}"
proof -
  have "set (range_over rng i m) = set (gm_keys m)"
    using range_over_iter [OF assms, of i] by (simp add: gm_iter_def)
  moreover have "k \<in> set (gm_keys m)" if "gm_get m k = Some v" for k v
    using that gm_get_keys [of m k] by auto
  ultimately show ?thesis
    by (force simp: range_items_def map_filter_def image_iff)
qed

lemma gm_get_fill_items:
  assumes "ranger_ok rng" and "gm_inv m"
  shows "gm_get (fold (\<lambda>(k, v). gm_set k v) (range_items rng i m) m0) x =
    (case gm_get m x of Some v \<Rightarrow> Some v | None \<Rightarrow> gm_get m0 x)"
proof (cases "gm_get m x")
  case None
  then have "x \<notin> fst ` set (range_items rng i m)" by (auto simp: set_range_items [OF assms])
  then show ?thesis using None gm.get_fill_notin [of x fst _ snd] by (simp add: case_prod_unfold)
next
  case (Some v)
  then have "(x, v) \<in> set (range_items rng i m)" by (simp add: set_range_items [OF assms])
  then have "x \<in> fst ` set (range_items rng i m)" by force
  from gm.get_fill_in [OF this, of snd m0] Some show ?thesis
    by (auto simp: set_range_items [OF assms] case_prod_unfold)
qed

section \<open>Lists\<close>

lemma nth_update: "x < length xs \<Longrightarrow> xs[v := y] ! x = (if x = v then y else xs ! x)"
  by auto

end
