(* ===== verification/Dag_Sort.thy ===== *)
theory Dag_Sort
  imports Dag_Graph
begin

text \<open>
  Correctness of \<open>TopologicalSort\<close> and of the graph operations. \<open>graph_wf\<close> is the invariant of a
  graph that is built through the exported operations; \<open>kahn_order\<close> is the order in which the
  loop takes identifiers off its queue, and \<open>kahn_inv\<close> the loop invariant.
\<close>

section \<open>Definitions for the statements\<close>

definition node_ids :: "Graph \<Rightarrow> uuid set" where
  "node_ids g = set (gm_keys (Graph_nodes g))"

definition edge_rel :: "Graph \<Rightarrow> (uuid \<times> uuid) set" where
  "edge_rel g = (\<lambda>e. (Edge_From e, Edge_To e)) ` set (Graph_edges g)"

text \<open>
  \<open>graph_closed\<close> is what the sort needs (every node is stored under its own identifier, both ends
  of every edge are nodes); \<open>graph_wf\<close> adds that no edge is stored twice.
\<close>

definition graph_closed :: "Graph \<Rightarrow> bool" where
  "graph_closed g \<longleftrightarrow>
     gm_inv (Graph_nodes g) \<and>
     list_all (\<lambda>(k, n). Node_ID n = k) (Graph_nodes g) \<and>
     list_all (\<lambda>e. gm_has (Graph_nodes g) (Edge_From e) \<and> gm_has (Graph_nodes g) (Edge_To e))
       (Graph_edges g)"

definition graph_wf :: "Graph \<Rightarrow> bool" where
  "graph_wf g \<longleftrightarrow> graph_closed g \<and> distinct (Graph_edges g)"

text \<open>Every dependency of an element of the list stands before it.\<close>

definition deps_before :: "Edge list \<Rightarrow> uuid list \<Rightarrow> bool" where
  "deps_before es D \<longleftrightarrow>
     (\<forall>i < length D. \<forall>e \<in> set es. Edge_To e = D ! i \<longrightarrow> Edge_From e \<in> set (take i D))"

definition in_graph :: "Graph \<Rightarrow> Node \<Rightarrow> bool" where
  "in_graph g n \<longleftrightarrow> gm_get (Graph_nodes g) (Node_ID n) = Some n"

text \<open>The nodes that a cycle reaches.\<close>

definition cycle_reached :: "Graph \<Rightarrow> uuid set" where
  "cycle_reached g = {v. \<exists>u. (u, u) \<in> (edge_rel g)\<^sup>+ \<and> (u, v) \<in> (edge_rel g)\<^sup>*}"

text \<open>The graphs that the exported operations build.\<close>

inductive graph_built :: "Graph \<Rightarrow> bool" where
  new: "graph_built NewGraph"
| add: "graph_built g \<Longrightarrow> graph_built (snd (AddNode g nid name))"
| add_id: "graph_built g \<Longrightarrow> AddNodeWithID g nid name = Inr (n, g') \<Longrightarrow> graph_built g'"
| edge: "graph_built g \<Longrightarrow> AddEdge g from to = Inr g' \<Longrightarrow> graph_built g'"
| rem: "graph_built g \<Longrightarrow> graph_built (snd (RemoveNode g nid))"
| rem_edge: "graph_built g \<Longrightarrow> graph_built (snd (RemoveEdge g from to))"
| clear: "graph_built g \<Longrightarrow> graph_built (Clear g)"

text \<open>A graph with four nodes, two paths from the first to the last.\<close>

definition diamond :: Graph where
  "diamond = \<lparr>Graph_nodes = [(1, mkNode 1 ''a''), (2, mkNode 2 ''b''), (3, mkNode 3 ''c''), (4, mkNode 4 ''d'')],
     Graph_edges = [\<lparr>Edge_From = 1, Edge_To = 2\<rparr>, \<lparr>Edge_From = 1, Edge_To = 3\<rparr>,
       \<lparr>Edge_From = 2, Edge_To = 4\<rparr>, \<lparr>Edge_From = 3, Edge_To = 4\<rparr>]\<rparr>"

section \<open>The operations keep the graph well formed\<close>

lemma graph_wf_NewGraph: "graph_wf NewGraph"
  by (simp add: graph_wf_def graph_closed_def NewGraph_def gm_inv_def gm_empty_def)

lemma graph_wf_add_node:
  "graph_wf g \<Longrightarrow> graph_wf (g\<lparr>Graph_nodes := gm_set nid (mkNode nid name) (Graph_nodes g)\<rparr>)"
  using set_gm_set [of nid "mkNode nid name" "Graph_nodes g"]
  by (auto simp: graph_wf_def graph_closed_def list_all_iff gm.inv_put gm_has_keys mkNode_def)

lemma graph_wf_AddNode: "graph_wf g \<Longrightarrow> graph_wf (snd (AddNode g nid name))"
  by (simp add: AddNode_def Let_def graph_wf_add_node)

lemma graph_wf_AddNodeWithID:
  "graph_wf g \<Longrightarrow> AddNodeWithID g nid name = Inr (n, g') \<Longrightarrow> graph_wf g'"
  by (auto simp: AddNodeWithID_def Let_def graph_wf_add_node split: if_splits)

lemma graph_wf_AddEdge: "graph_wf g \<Longrightarrow> AddEdge g from to = Inr g' \<Longrightarrow> graph_wf g'"
  by (auto simp: AddEdge_def graph_wf_def graph_closed_def list_all_iff list_ex_iff split: if_splits
      dest: bspec [where x = "\<lparr>Edge_From = from, Edge_To = to\<rparr>"])

lemma graph_wf_RemoveNode: "graph_wf g \<Longrightarrow> graph_wf (snd (RemoveNode g nid))"
  using set_gm_del [of nid "Graph_nodes g"]
  by (auto simp: RemoveNode_def graph_wf_def graph_closed_def list_all_iff gm.inv_del gm_has_keys)

lemma remove_first_edge_split:
  "remove_first_edge from to es = Some es' \<Longrightarrow>
    \<exists>xs e ys. es = xs @ e # ys \<and> es' = xs @ ys \<and> Edge_From e = from \<and> Edge_To e = to"
proof (induction es arbitrary: es')
  case Nil
  then show ?case by simp
next
  case (Cons e es)
  show ?case
  proof (cases "Edge_From e = from \<and> Edge_To e = to")
    case True
    with Cons.prems show ?thesis by (intro exI [of _ "[]"] exI [of _ e] exI [of _ es]) auto
  next
    case False
    with Cons.prems obtain es1 where es1: "remove_first_edge from to es = Some es1"
      and "es' = e # es1" by (auto split: if_splits)
    with Cons.IH [OF es1] show ?thesis by (metis append_Cons)
  qed
qed

lemma graph_wf_RemoveEdge: "graph_wf g \<Longrightarrow> graph_wf (snd (RemoveEdge g from to))"
  by (auto simp: RemoveEdge_def graph_wf_def graph_closed_def list_all_iff split: option.splits
      dest!: remove_first_edge_split)

lemma graph_wf_Clear: "graph_wf (Clear g)"
  using graph_wf_NewGraph by (simp add: Clear_def NewGraph_def)

lemma graph_built_wf: "graph_built g \<Longrightarrow> graph_wf g"
  by (induction rule: graph_built.induct)
    (auto intro: graph_wf_NewGraph graph_wf_AddNode graph_wf_AddNodeWithID graph_wf_AddEdge
      graph_wf_RemoveNode graph_wf_RemoveEdge graph_wf_Clear)

lemma graph_wf_closed [simp]: "graph_wf g \<Longrightarrow> graph_closed g"
  by (simp add: graph_wf_def)

lemma graph_closed_edge:
  "graph_closed g \<Longrightarrow> e \<in> set (Graph_edges g) \<Longrightarrow> Edge_From e \<in> node_ids g \<and> Edge_To e \<in> node_ids g"
  by (auto simp: graph_closed_def list_all_iff gm_has_keys node_ids_def)

lemma graph_closed_node:
  assumes "graph_closed g" and "nid \<in> node_ids g"
  obtains n where "gm_get (Graph_nodes g) nid = Some n" and "Node_ID n = nid"
proof -
  from assms(2) obtain n where n: "gm_get (Graph_nodes g) nid = Some n"
    by (auto simp: node_ids_def gm_has_def simp flip: gm_has_keys)
  then have "(nid, n) \<in> set (Graph_nodes g)" by (simp add: gm_get_def map_of_SomeD)
  with assms(1) have "Node_ID n = nid" by (auto simp: graph_closed_def list_all_iff)
  with n show thesis by (rule that)
qed

lemma card_node_ids: "graph_closed g \<Longrightarrow> card (node_ids g) = gm_len (Graph_nodes g)"
  by (simp add: graph_closed_def node_ids_def gm_inv_def gm_keys_def gm_len_def distinct_card
      flip: set_map)

lemma finite_node_ids [simp]: "finite (node_ids g)"
  by (simp add: node_ids_def)

section \<open>In-degrees\<close>

definition edge_count :: "(Edge \<Rightarrow> bool) \<Rightarrow> Edge list \<Rightarrow> nat" where
  "edge_count P es = length (filter P es)"

lemma edge_count_simps [simp]:
  "edge_count P [] = 0"
  "edge_count P (e # es) = (if P e then Suc (edge_count P es) else edge_count P es)"
  by (simp_all add: edge_count_def)

lemma edge_count_0: "edge_count P es = 0 \<longleftrightarrow> (\<forall>e \<in> set es. \<not> P e)"
  by (auto simp: edge_count_def filter_empty_conv)

lemma edge_count_take:
  "c \<notin> S \<Longrightarrow> edge_count (\<lambda>e. Edge_To e = v \<and> Edge_From e \<notin> S) es =
    edge_count (\<lambda>e. Edge_From e = c \<and> Edge_To e = v) es +
    edge_count (\<lambda>e. Edge_To e = v \<and> Edge_From e \<noteq> c \<and> Edge_From e \<notin> S) es"
  by (induction es) auto

lemma zero_degrees_get: "gm_getd 0 (zero_degrees ns deg) v = (if v \<in> Node_ID ` snd ` set ns then 0 else gm_getd 0 deg v)"
  by (induction ns deg rule: zero_degrees.induct) auto

lemma zero_degrees_keys: "set (gm_keys (zero_degrees ns deg)) = set (gm_keys deg) \<union> Node_ID ` snd ` set ns"
  by (induction ns deg rule: zero_degrees.induct) auto

lemma count_edges_get: "gm_getd 0 (count_edges es deg) v = gm_getd 0 deg v + int (edge_count (\<lambda>e. Edge_To e = v) es)"
  by (induction es deg rule: count_edges.induct) auto

lemma count_edges_keys: "set (gm_keys (count_edges es deg)) = set (gm_keys deg) \<union> Edge_To ` set es"
  by (induction es deg rule: count_edges.induct) auto

lemma in_degrees_get: "gm_getd 0 (in_degrees g) v = int (edge_count (\<lambda>e. Edge_To e = v) (Graph_edges g))"
  by (simp add: in_degrees_def count_edges_get zero_degrees_get)

lemma in_degrees_keys:
  assumes "graph_closed g"
  shows "set (gm_keys (in_degrees g)) = node_ids g"
proof -
  have "Node_ID ` snd ` set (Graph_nodes g) = node_ids g"
    using assms by (force simp: graph_closed_def list_all_iff node_ids_def gm_keys_def image_iff)
  then show ?thesis
    using graph_closed_edge [OF assms] by (auto simp: in_degrees_def count_edges_keys zero_degrees_keys)
qed

section \<open>The loop of the sort\<close>

lemma relax_edges_spec:
  assumes "\<And>v. int (edge_count (\<lambda>e. Edge_From e = cur \<and> Edge_To e = v) es) \<le> gm_getd 0 deg v"
    and "relax_edges cur es deg q = (deg', q')"
  shows "\<exists>new. q' = q @ new \<and> distinct new \<and>
     (\<forall>v. gm_getd 0 deg' v = gm_getd 0 deg v - int (edge_count (\<lambda>e. Edge_From e = cur \<and> Edge_To e = v) es)) \<and>
     (\<forall>v. v \<in> set new \<longleftrightarrow>
        0 < edge_count (\<lambda>e. Edge_From e = cur \<and> Edge_To e = v) es \<and> gm_getd 0 deg' v = 0)"
  using assms
proof (induction es arbitrary: deg q)
  case Nil
  then show ?case by simp
next
  case (Cons e es)
  let ?n = "\<lambda>v es. edge_count (\<lambda>e. Edge_From e = cur \<and> Edge_To e = v) es"
  show ?case
  proof (cases "Edge_From e = cur")
    case False
    with Cons.prems have "\<And>v. int (?n v es) \<le> gm_getd 0 deg v" "relax_edges cur es deg q = (deg', q')"
      by simp_all
    from Cons.IH [OF this] False show ?thesis by simp
  next
    case True
    let ?t = "Edge_To e"
    let ?deg1 = "gm_set ?t (gm_getd 0 deg ?t - 1) deg"
    let ?q1 = "if gm_getd 0 deg ?t = 1 then q @ [?t] else q"
    have le: "int (?n v es) \<le> gm_getd 0 ?deg1 v" for v
      using Cons.prems(1) [of v] True by (auto split: if_splits)
    have run: "relax_edges cur es ?deg1 ?q1 = (deg', q')"
      using Cons.prems(2) True by (simp add: Let_def)
    obtain new where new: "q' = ?q1 @ new" "distinct new"
      and deg': "\<And>v. gm_getd 0 deg' v = gm_getd 0 ?deg1 v - int (?n v es)"
      and mem: "\<And>v. v \<in> set new \<longleftrightarrow> 0 < ?n v es \<and> gm_getd 0 deg' v = 0"
      using Cons.IH [OF le run] by blast
    define new' where "new' = (if gm_getd 0 deg ?t = 1 then ?t # new else new)"
    have t1: "gm_getd 0 deg ?t = 1 \<Longrightarrow> ?n ?t es = 0"
      using le [of ?t] by simp
    have "q' = q @ new'" using new(1) by (simp add: new'_def)
    moreover have "distinct new'"
      using new(2) t1 mem [of ?t] by (auto simp: new'_def)
    moreover have "gm_getd 0 deg' v = gm_getd 0 deg v - int (?n v (e # es))" for v
      using deg' [of v] True by auto
    moreover have "v \<in> set new' \<longleftrightarrow> 0 < ?n v (e # es) \<and> gm_getd 0 deg' v = 0" for v
      using mem [of v] deg' [of v] t1 True by (auto simp: new'_def)
    ultimately show ?thesis by blast
  qed
qed

text \<open>The order in which the loop takes the identifiers off the queue.\<close>

function kahn_order :: "Edge list \<Rightarrow> (uuid, int) gmap \<Rightarrow> uuid list \<Rightarrow> uuid list" where
  "kahn_order es deg [] = []"
| "kahn_order es deg (cur # q) =
     (case relax_edges cur es deg q of (deg', q') \<Rightarrow> cur # kahn_order es deg' q')"
  by pat_completeness auto
termination
  by (relation "measure (\<lambda>(es, deg, q). length q + card (open_targets es deg))")
    (auto split: prod.splits dest: relax_edges_decreases)

lemma topo_loop_order:
  "topo_loop g deg q srt = srt @ map (gm_get (Graph_nodes g)) (kahn_order (Graph_edges g) deg q)"
  by (induction g deg q srt rule: topo_loop.induct) (auto split: prod.splits)

text \<open>
  The loop invariant, with \<open>D\<close> the identifiers taken so far: every entry counts the incoming
  edges whose source is not yet taken, and an identifier is taken or queued exactly when its
  entry is zero.
\<close>

definition kahn_inv :: "Graph \<Rightarrow> uuid list \<Rightarrow> (uuid, int) gmap \<Rightarrow> uuid list \<Rightarrow> bool" where
  "kahn_inv g D deg q \<longleftrightarrow>
     distinct (D @ q) \<and> set (D @ q) \<subseteq> node_ids g \<and>
     (\<forall>v. gm_getd 0 deg v =
        int (edge_count (\<lambda>e. Edge_To e = v \<and> Edge_From e \<notin> set D) (Graph_edges g))) \<and>
     (\<forall>v \<in> node_ids g. v \<in> set (D @ q) \<longleftrightarrow> gm_getd 0 deg v = 0) \<and>
     deps_before (Graph_edges g) D"

lemma deps_before_snoc:
  assumes "deps_before es D" and "\<And>e. e \<in> set es \<Longrightarrow> Edge_To e = c \<Longrightarrow> Edge_From e \<in> set D"
  shows "deps_before es (D @ [c])"
  using assms by (auto simp: deps_before_def nth_append less_Suc_eq)

lemma kahn_inv_init:
  assumes "graph_closed g" and "gm_iter ord (in_degrees g)"
  shows "kahn_inv g [] (in_degrees g) (zero_queue (in_degrees g) ord)"
  using assms in_degrees_keys [OF assms(1)]
  by (auto simp: kahn_inv_def zero_queue_def gm_iter_def in_degrees_get deps_before_def)

lemma kahn_inv_step:
  assumes wf: "graph_closed g" and inv: "kahn_inv g D deg (c # q)"
    and run: "relax_edges c (Graph_edges g) deg q = (deg', q')"
  shows "kahn_inv g (D @ [c]) deg' q'"
proof -
  let ?es = "Graph_edges g"
  let ?n = "\<lambda>v. edge_count (\<lambda>e. Edge_From e = c \<and> Edge_To e = v) ?es"
  let ?open = "\<lambda>v D. edge_count (\<lambda>e. Edge_To e = v \<and> Edge_From e \<notin> set D) ?es"
  note inv' = inv [unfolded kahn_inv_def]
  from inv' have dist: "distinct (D @ c # q)" by (elim conjE)
  from inv' have sub: "set (D @ c # q) \<subseteq> node_ids g" by (elim conjE)
  from inv' have deg: "gm_getd 0 deg v = int (?open v D)" for v by (elim conjE) (rule spec)
  from inv' have mem: "v \<in> node_ids g \<Longrightarrow> v \<in> set (D @ c # q) \<longleftrightarrow> gm_getd 0 deg v = 0" for v
    by (elim conjE) (rule bspec)
  from inv' have before: "deps_before ?es D" by (elim conjE)
  have split: "?open v D = ?n v + ?open v (D @ [c])" for v
    using dist by (simp add: edge_count_take [of c "set D"])
  have "int (?n v) \<le> gm_getd 0 deg v" for v
    using split [of v] deg [of v] by simp
  from relax_edges_spec [OF this run] obtain new where new: "q' = q @ new" "distinct new"
    and deg': "\<And>v. gm_getd 0 deg' v = gm_getd 0 deg v - int (?n v)"
    and mem': "\<And>v. v \<in> set new \<longleftrightarrow> 0 < ?n v \<and> gm_getd 0 deg' v = 0"
    by blast
  have deg'': "gm_getd 0 deg' v = int (?open v (D @ [c]))" for v
    using deg' [of v] deg [of v] split [of v] by simp
  have new_ids: "set new \<subseteq> node_ids g"
  proof
    fix v assume "v \<in> set new"
    then have "?n v \<noteq> 0" using mem' by blast
    then show "v \<in> node_ids g" using graph_closed_edge [OF wf] by (auto simp: edge_count_0)
  qed
  have fresh: "v \<notin> set (D @ c # q)" if "v \<in> set new" for v
    using that mem' [of v] mem [of v] deg [of v] split [of v] new_ids by auto
  have "deps_before ?es (D @ [c])"
  proof (rule deps_before_snoc [OF before])
    fix e assume e: "e \<in> set ?es" "Edge_To e = c"
    have "gm_getd 0 deg c = 0" using mem [of c] sub by simp
    then have "?open c D = 0" using deg [of c] by simp
    then show "Edge_From e \<in> set D" using e by (auto simp: edge_count_0)
  qed
  moreover have "distinct ((D @ [c]) @ q')" using dist new(2) fresh by (auto simp: new(1))
  moreover have "set ((D @ [c]) @ q') \<subseteq> node_ids g" using sub new_ids by (auto simp: new(1))
  moreover have "v \<in> set ((D @ [c]) @ q') \<longleftrightarrow> gm_getd 0 deg' v = 0" if v: "v \<in> node_ids g" for v
    using mem [OF v] mem' [of v] deg [of v] deg'' [of v] split [of v] by (auto simp: new(1))
  ultimately show ?thesis using deg'' unfolding kahn_inv_def by (intro conjI allI ballI)
qed

lemma kahn_inv_run:
  assumes "graph_closed g" and "kahn_inv g D deg q"
  shows "\<exists>deg'. kahn_inv g (D @ kahn_order (Graph_edges g) deg q) deg' []"
  using assms(2)
proof (induction "Graph_edges g" deg q arbitrary: D rule: kahn_order.induct)
  case (1 deg)
  then show ?case by auto
next
  case (2 deg cur q)
  obtain deg' q' where run: "relax_edges cur (Graph_edges g) deg q = (deg', q')" by fastforce
  have "kahn_inv g (D @ [cur]) deg' q'" using assms(1) 2(2) run by (rule kahn_inv_step)
  from 2(1) [OF run [symmetric] this] run show ?case by simp
qed

definition sort_ids :: "Graph \<Rightarrow> uuid list \<Rightarrow> uuid list" where
  "sort_ids g ord = kahn_order (Graph_edges g) (in_degrees g) (zero_queue (in_degrees g) ord)"

lemma TopologicalSort_ids:
  "TopologicalSort g ord = (map (gm_get (Graph_nodes g)) (sort_ids g ord),
     length (sort_ids g ord) \<noteq> gm_len (Graph_nodes g))"
  by (simp add: TopologicalSort_def Let_def topo_loop_order sort_ids_def)

lemma sort_ids_props:
  assumes "graph_closed g" and "gm_iter ord (in_degrees g)"
  shows sort_ids_distinct: "distinct (sort_ids g ord)"
    and sort_ids_nodes: "set (sort_ids g ord) \<subseteq> node_ids g"
    and sort_ids_before: "deps_before (Graph_edges g) (sort_ids g ord)"
    and sort_ids_closed: "\<And>v. v \<in> node_ids g - set (sort_ids g ord) \<Longrightarrow>
      \<exists>u. (u, v) \<in> edge_rel g \<and> u \<in> node_ids g - set (sort_ids g ord)"
proof -
  obtain deg' where inv: "kahn_inv g (sort_ids g ord) deg' []"
    using kahn_inv_run [OF assms(1) kahn_inv_init [OF assms]] by (auto simp: sort_ids_def)
  then show "distinct (sort_ids g ord)" and "set (sort_ids g ord) \<subseteq> node_ids g"
    and "deps_before (Graph_edges g) (sort_ids g ord)"
    by (simp_all add: kahn_inv_def)
  fix v assume v: "v \<in> node_ids g - set (sort_ids g ord)"
  with inv have "edge_count (\<lambda>e. Edge_To e = v \<and> Edge_From e \<notin> set (sort_ids g ord)) (Graph_edges g) \<noteq> 0"
    by (auto simp: kahn_inv_def)
  then obtain e where "e \<in> set (Graph_edges g)" "Edge_To e = v" "Edge_From e \<notin> set (sort_ids g ord)"
    by (auto simp: edge_count_0)
  then show "\<exists>u. (u, v) \<in> edge_rel g \<and> u \<in> node_ids g - set (sort_ids g ord)"
    using graph_closed_edge [OF assms(1)] by (force simp: edge_rel_def image_iff)
qed

section \<open>Cycles\<close>

lemma deps_before_acyclic:
  assumes "deps_before es D" and "distinct D" and "Edge_To ` set es \<subseteq> set D"
  shows "acyclic ((\<lambda>e. (Edge_From e, Edge_To e)) ` set es)"
proof -
  let ?pos = "\<lambda>v. length (takeWhile (\<lambda>x. x \<noteq> v) D)"
  have pos_nth: "?pos (D ! i) = i" if "i < length D" for i
    using that assms(2) by (induction D arbitrary: i) (auto simp: nth_Cons split: nat.splits)
  have "(\<lambda>e. (Edge_From e, Edge_To e)) ` set es \<subseteq> measure ?pos"
  proof clarify
    fix e assume e: "e \<in> set es"
    with assms(3) obtain i where i: "i < length D" "D ! i = Edge_To e"
      by (metis image_subset_iff in_set_conv_nth)
    with assms(1) e have "Edge_From e \<in> set (take i D)" by (auto simp: deps_before_def)
    then obtain j where "j < i" "D ! j = Edge_From e"
      using i(1) by (auto simp: in_set_conv_nth)
    with i show "(Edge_From e, Edge_To e) \<in> measure ?pos"
      using pos_nth [of i] pos_nth [of j] by simp
  qed
  then show ?thesis by (rule acyclic_subset [OF wf_acyclic [OF wf_measure]])
qed

lemma edge_rel_finite [simp]: "finite (edge_rel g)"
  by (simp add: edge_rel_def)

lemma sort_ids_all_iff:
  assumes wf: "graph_closed g" and ord: "gm_iter ord (in_degrees g)"
  shows "set (sort_ids g ord) = node_ids g \<longleftrightarrow> acyclic (edge_rel g)"
proof
  assume all: "set (sort_ids g ord) = node_ids g"
  then have "Edge_To ` set (Graph_edges g) \<subseteq> set (sort_ids g ord)"
    using graph_closed_edge [OF wf] by auto
  then show "acyclic (edge_rel g)"
    unfolding edge_rel_def
    by (rule deps_before_acyclic [OF sort_ids_before [OF assms] sort_ids_distinct [OF assms]])
next
  assume "acyclic (edge_rel g)"
  then have "wf (edge_rel g)" by (simp add: finite_acyclic_wf)
  show "set (sort_ids g ord) = node_ids g"
  proof (rule ccontr)
    assume "set (sort_ids g ord) \<noteq> node_ids g"
    then obtain v where "v \<in> node_ids g - set (sort_ids g ord)"
      using sort_ids_nodes [OF assms] by blast
    from wfE_min [OF \<open>wf (edge_rel g)\<close> this] obtain z where
      "z \<in> node_ids g - set (sort_ids g ord)"
      and "\<And>y. (y, z) \<in> edge_rel g \<Longrightarrow> y \<notin> node_ids g - set (sort_ids g ord)" by blast
    with sort_ids_closed [OF assms] show False by blast
  qed
qed

lemma sort_ids_length_iff:
  assumes "graph_closed g" and "gm_iter ord (in_degrees g)"
  shows "length (sort_ids g ord) = gm_len (Graph_nodes g) \<longleftrightarrow> acyclic (edge_rel g)"
proof -
  have "length (sort_ids g ord) = card (set (sort_ids g ord))"
    by (simp add: distinct_card [OF sort_ids_distinct [OF assms]])
  then show ?thesis
    using sort_ids_all_iff [OF assms] card_node_ids [OF assms(1)]
      card_subset_eq [OF finite_node_ids sort_ids_nodes [OF assms]] by metis
qed

lemma TopologicalSort_cycle:
  assumes "graph_closed g" and "gm_iter ord (in_degrees g)"
  shows "snd (TopologicalSort g ord) \<longleftrightarrow> \<not> acyclic (edge_rel g)"
  using sort_ids_length_iff [OF assms] by (simp add: TopologicalSort_ids)

lemma edge_rel_iff: "(u, v) \<in> edge_rel g \<longleftrightarrow> (\<exists>e \<in> set (Graph_edges g). Edge_From e = u \<and> Edge_To e = v)"
  by (auto simp: edge_rel_def image_iff)

section \<open>The nodes that the sort leaves out\<close>

lemma deps_before_back:
  assumes "deps_before (Graph_edges g) D" and "(u, v) \<in> (edge_rel g)\<^sup>*" and "v \<in> set D"
  shows "u \<in> set D"
  using assms(2,3)
proof (induction rule: converse_rtrancl_induct)
  case base
  then show ?case by simp
next
  case (step y z)
  then obtain e where e: "e \<in> set (Graph_edges g)" "Edge_From e = y" "Edge_To e = z"
    by (auto simp: edge_rel_iff)
  from step have "z \<in> set D" by blast
  then obtain i where "i < length D" "D ! i = z" by (auto simp: in_set_conv_nth)
  with e assms(1) have "y \<in> set (take i D)" by (auto simp: deps_before_def)
  then show ?case by (rule in_set_takeD)
qed

lemma deps_before_cycle:
  assumes "deps_before (Graph_edges g) D" and "distinct D" and "(u, u) \<in> (edge_rel g)\<^sup>+"
  shows "u \<notin> set D"
proof
  assume u: "u \<in> set D"
  let ?es = "filter (\<lambda>e. Edge_To e \<in> set D) (Graph_edges g)"
  have acyc: "acyclic ((\<lambda>e. (Edge_From e, Edge_To e)) ` set ?es)"
    by (rule deps_before_acyclic [of _ D]) (use assms(1,2) in \<open>auto simp: deps_before_def\<close>)
  have "(x, y) \<in> ((\<lambda>e. (Edge_From e, Edge_To e)) ` set ?es)\<^sup>+"
    if "(x, y) \<in> (edge_rel g)\<^sup>+" "y \<in> set D" for x y
    using that
  proof (induction rule: trancl_induct)
    case (base y)
    then show ?case by (force simp: edge_rel_def)
  next
    case (step y z)
    have "y \<in> set D" using deps_before_back [OF assms(1) r_into_rtrancl [OF step(2)]] step.prems .
    with step have "(x, y) \<in> ((\<lambda>e. (Edge_From e, Edge_To e)) ` set ?es)\<^sup>+" by blast
    moreover have "(y, z) \<in> (\<lambda>e. (Edge_From e, Edge_To e)) ` set ?es"
      using step(2) step.prems by (force simp: edge_rel_def)
    ultimately show ?case by (rule trancl_into_trancl)
  qed
  from this [OF assms(3) u] acyc show False by (simp add: acyclic_def)
qed

lemma sort_ids_missing:
  assumes "graph_closed g" and "gm_iter ord (in_degrees g)"
  shows "node_ids g - set (sort_ids g ord) = cycle_reached g"
proof (intro set_eqI iffI)
  fix v assume v: "v \<in> cycle_reached g"
  then obtain u where u: "(u, u) \<in> (edge_rel g)\<^sup>+" "(u, v) \<in> (edge_rel g)\<^sup>*"
    by (auto simp: cycle_reached_def)
  have "v \<notin> set (sort_ids g ord)"
    using deps_before_cycle [OF sort_ids_before [OF assms] sort_ids_distinct [OF assms] u(1)]
      deps_before_back [OF sort_ids_before [OF assms] u(2)] by blast
  moreover have "(u, v) \<in> (edge_rel g)\<^sup>+" using u by (rule trancl_rtrancl_trancl)
  then obtain w where "(w, v) \<in> edge_rel g" by (blast elim: tranclE)
  then have "v \<in> node_ids g" using graph_closed_edge [OF assms(1)] by (auto simp: edge_rel_iff)
  ultimately show "v \<in> node_ids g - set (sort_ids g ord)" by blast
next
  fix v assume v: "v \<in> node_ids g - set (sort_ids g ord)"
  let ?A = "{w \<in> node_ids g - set (sort_ids g ord). (w, v) \<in> (edge_rel g)\<^sup>*}"
  show "v \<in> cycle_reached g"
  proof (rule ccontr)
    assume no: "v \<notin> cycle_reached g"
    have "acyclic (edge_rel g \<inter> ?A \<times> ?A)"
    proof (rule acyclicI, rule allI, rule notI)
      fix u assume "(u, u) \<in> (edge_rel g \<inter> ?A \<times> ?A)\<^sup>+"
      moreover from this have "u \<in> ?A" by (auto elim: tranclE)
      ultimately have "(u, u) \<in> (edge_rel g)\<^sup>+" "(u, v) \<in> (edge_rel g)\<^sup>*"
        by (auto intro: trancl_mono)
      with no show False by (auto simp: cycle_reached_def)
    qed
    then have "wf (edge_rel g \<inter> ?A \<times> ?A)" by (intro finite_acyclic_wf) simp_all
    then obtain z where z: "z \<in> ?A" and min: "\<And>y. (y, z) \<in> edge_rel g \<inter> ?A \<times> ?A \<Longrightarrow> y \<notin> ?A"
      using v by (elim wfE_min [where Q = ?A]) auto
    from z obtain y where y: "(y, z) \<in> edge_rel g" "y \<in> node_ids g - set (sort_ids g ord)"
      using sort_ids_closed [OF assms] by blast
    with z have "y \<in> ?A" by (auto intro: converse_rtrancl_into_rtrancl)
    with y z min show False by blast
  qed
qed

lemma sorted_nodes:
  assumes "graph_closed g" and "set ids \<subseteq> node_ids g"
  obtains ns where "map (gm_get (Graph_nodes g)) ids = map Some ns" and "map Node_ID ns = ids"
    and "\<And>n. n \<in> set ns \<Longrightarrow> in_graph g n"
proof -
  let ?ns = "map (\<lambda>v. the (gm_get (Graph_nodes g) v)) ids"
  have get: "gm_get (Graph_nodes g) v = Some (the (gm_get (Graph_nodes g) v)) \<and>
      Node_ID (the (gm_get (Graph_nodes g) v)) = v" if "v \<in> set ids" for v
    using graph_closed_node [OF assms(1), of v] that assms(2) by (metis option.sel subsetD)
  have "map (gm_get (Graph_nodes g)) ids = map Some ?ns" using get by simp
  moreover have "map Node_ID ?ns = ids" using get by (simp add: map_idI)
  moreover have "in_graph g n" if "n \<in> set ?ns" for n
    using that get by (auto simp: in_graph_def)
  ultimately show thesis by (rule that)
qed

section \<open>Properties\<close>

lemma zero_degrees_inv: "gm_inv deg \<Longrightarrow> gm_inv (zero_degrees ns deg)"
  by (induction ns deg rule: zero_degrees.induct) (auto simp: gm.inv_put)

lemma count_edges_inv: "gm_inv deg \<Longrightarrow> gm_inv (count_edges es deg)"
  by (induction es deg rule: count_edges.induct) (auto simp: gm.inv_put)

lemma in_degrees_inv: "gm_inv (in_degrees g)"
  by (simp add: in_degrees_def count_edges_inv zero_degrees_inv gm.inv_empty)

lemma diamond_wf: "graph_wf diamond"
  by code_simp

lemma diamond_iter: "gm_iter [1, 2, 3, 4] (in_degrees diamond)"
  by (simp add: gm_iter_def in_degrees_keys [OF graph_wf_closed [OF diamond_wf]])
    (auto simp: node_ids_def diamond_def gm_keys_def)

lemma diamond_sort:
  "TopologicalSort diamond [1, 2, 3, 4] =
    ([Some (mkNode 1 ''a''), Some (mkNode 2 ''b''), Some (mkNode 3 ''c''), Some (mkNode 4 ''d'')], False)"
  by code_simp

text \<open>
  (C1) \<open>TopologicalSort\<close> is a correct topological sort for every graph and every iteration order
  of the maps: it reports a cycle exactly when the edges contain one; the nodes it returns
  are nodes of the graph, without repetition, each after all the nodes it depends on; and
  they are exactly the nodes that no cycle reaches.
\<close>

theorem TopologicalSort_correct:
  assumes "graph_closed g" and "gm_iter ord (in_degrees g)"
    and "TopologicalSort g ord = (srt, hasCycle)"
  shows "(hasCycle \<longleftrightarrow> \<not> acyclic (edge_rel g)) \<and>
    (\<exists>ns. srt = map Some ns \<and> distinct (map Node_ID ns) \<and> (\<forall>n \<in> set ns. in_graph g n) \<and>
      deps_before (Graph_edges g) (map Node_ID ns) \<and>
      Node_ID ` set ns = node_ids g - cycle_reached g)"
proof
  show "hasCycle \<longleftrightarrow> \<not> acyclic (edge_rel g)"
    using TopologicalSort_cycle [OF assms(1,2)] assms(3) by simp
  obtain ns where ns: "map (gm_get (Graph_nodes g)) (sort_ids g ord) = map Some ns"
      "map Node_ID ns = sort_ids g ord" "\<And>n. n \<in> set ns \<Longrightarrow> in_graph g n"
    using sorted_nodes [OF assms(1) sort_ids_nodes [OF assms(1,2)]] by blast
  have "Node_ID ` set ns = node_ids g - cycle_reached g"
    using sort_ids_missing [OF assms(1,2)] sort_ids_nodes [OF assms(1,2)] ns(2) by (metis double_diff set_map subset_refl)
  then show "\<exists>ns. srt = map Some ns \<and> distinct (map Node_ID ns) \<and> (\<forall>n \<in> set ns. in_graph g n) \<and>
      deps_before (Graph_edges g) (map Node_ID ns) \<and> Node_ID ` set ns = node_ids g - cycle_reached g"
    using ns sort_ids_distinct [OF assms(1,2)] sort_ids_before [OF assms(1,2)] assms(3)
    by (intro exI [of _ ns]) (auto simp: TopologicalSort_ids)
qed

theorem TopologicalSort_correct_witness:
  "graph_closed diamond \<and> gm_iter [1, 2, 3, 4] (in_degrees diamond) \<and> acyclic (edge_rel diamond)"
  using TopologicalSort_correct [OF graph_wf_closed [OF diamond_wf] diamond_iter diamond_sort, THEN conjunct1]
    diamond_wf diamond_iter by simp

text \<open>
  (C11) Every graph that is built with the exported operations is well formed: the keys of the
  node map are distinct, every node is stored under its own identifier, both ends of every
  edge are nodes of the graph, and no edge is stored twice.
\<close>

theorem graph_built_well_formed: "graph_built g \<Longrightarrow> graph_wf g"
  by (rule graph_built_wf)

theorem graph_built_well_formed_witness:
  "graph_wf (snd (RemoveNode (snd (AddNode (snd (AddNode NewGraph 1 ''a'')) 2 ''b'')) 1))"
  using graph_built_well_formed [OF graph_built.rem [OF graph_built.add [OF graph_built.add [OF graph_built.new]]]] .

end
