(* ===== verification/Dag_Levels.thy ===== *)
theory Dag_Levels
  imports Dag_Sort
begin

text \<open>
  Correctness of \<open>Levels\<close>: the level of a node is the length of the longest path that ends in
  it, every node of the graph is placed exactly once, and the computation fails exactly on
  a cyclic graph and never panics.
\<close>

section \<open>Definitions for the statements\<close>

definition path_to :: "Graph \<Rightarrow> uuid \<Rightarrow> uuid list \<Rightarrow> bool" where
  "path_to g v p \<longleftrightarrow>
     p \<noteq> [] \<and> last p = v \<and> set p \<subseteq> node_ids g \<and> successively (\<lambda>a b. (a, b) \<in> edge_rel g) p"

definition is_level :: "Graph \<Rightarrow> uuid \<Rightarrow> nat \<Rightarrow> bool" where
  "is_level g v k \<longleftrightarrow>
     (\<exists>p. path_to g v p \<and> length p = Suc k) \<and> (\<forall>p. path_to g v p \<longrightarrow> length p \<le> Suc k)"

text \<open>
  The invariant of the level loop: an edge whose source is taken leads to a higher level, and
  a positive level is one more than the level of a taken parent.
\<close>

definition level_inv :: "Graph \<Rightarrow> uuid list \<Rightarrow> (uuid, nat) gmap \<Rightarrow> bool" where
  "level_inv g D lm \<longleftrightarrow>
     gm_inv lm \<and>
     (\<forall>u v. (u, v) \<in> edge_rel g \<longrightarrow> u \<in> set D \<longrightarrow> gm_getd 0 lm u < gm_getd 0 lm v) \<and>
     (\<forall>v. 0 < gm_getd 0 lm v \<longrightarrow>
        (\<exists>u \<in> set D. (u, v) \<in> edge_rel g \<and> gm_getd 0 lm v = Suc (gm_getd 0 lm u)))"

section \<open>One round of the level loop\<close>

lemma level_inv_mono:
  "level_inv g D lm \<Longrightarrow> (u, v) \<in> edge_rel g \<Longrightarrow> u \<in> set D \<Longrightarrow> gm_getd 0 lm u < gm_getd 0 lm v"
  by (simp add: level_inv_def)

lemma level_inv_parent:
  assumes "level_inv g D lm" and "0 < gm_getd 0 lm v"
  obtains u where "u \<in> set D" and "(u, v) \<in> edge_rel g" and "gm_getd 0 lm v = Suc (gm_getd 0 lm u)"
  using assms unfolding level_inv_def by blast

lemma relax_levels_inv:
  "gm_inv lm \<Longrightarrow> relax_levels cur es deg q lm = (deg', q', lm') \<Longrightarrow> gm_inv lm'"
proof (induction cur es deg q lm rule: relax_levels.induct)
  case (1 cur deg q lm)
  then show ?case by simp
next
  case (2 cur e es deg q lm)
  show ?case
  proof (cases "Edge_From e = cur")
    case False
    then show ?thesis using 2 by simp
  next
    case True
    show ?thesis using 2(1) [OF True refl refl refl] 2(3,4) True
      by (auto simp: Let_def gm.inv_put split: option.splits if_splits)
  qed
qed

lemma relax_levels_get:
  assumes "\<And>e. e \<in> set es \<Longrightarrow> Edge_From e = cur \<Longrightarrow> Edge_To e \<noteq> cur"
    and "relax_levels cur es deg q lm = (deg', q', lm')"
  shows "gm_getd 0 lm' v =
    (if \<exists>e \<in> set es. Edge_From e = cur \<and> Edge_To e = v
     then max (Suc (gm_getd 0 lm cur)) (gm_getd 0 lm v) else gm_getd 0 lm v)"
  using assms
proof (induction es arbitrary: deg q lm)
  case Nil
  then show ?case by simp
next
  case (Cons e es)
  show ?case
  proof (cases "Edge_From e = cur")
    case False
    then show ?thesis using Cons by auto
  next
    case True
    let ?t = "Edge_To e"
    define lm1 where "lm1 = (case gm_get lm ?t of
        None \<Rightarrow> gm_set ?t (Suc (gm_getd 0 lm cur)) lm
      | Some old \<Rightarrow> if Suc (gm_getd 0 lm cur) > old then gm_set ?t (Suc (gm_getd 0 lm cur)) lm else lm)"
    have get1: "gm_getd 0 lm1 w = (if w = ?t then max (Suc (gm_getd 0 lm cur)) (gm_getd 0 lm ?t)
        else gm_getd 0 lm w)" for w
      by (cases "gm_get lm ?t") (auto simp: lm1_def gm_getd_def [of 0 lm ?t] split: if_splits)
    have "?t \<noteq> cur" using Cons.prems(1) True by auto
    obtain deg1 q1 where "relax_levels cur es deg1 q1 lm1 = (deg', q', lm')"
      using Cons.prems(2) True by (auto simp: lm1_def Let_def)
    from Cons.IH [OF _ this] Cons.prems(1)
    have "gm_getd 0 lm' v = (if \<exists>e \<in> set es. Edge_From e = cur \<and> Edge_To e = v
        then max (Suc (gm_getd 0 lm1 cur)) (gm_getd 0 lm1 v) else gm_getd 0 lm1 v)" by auto
    then show ?thesis using \<open>?t \<noteq> cur\<close> True by (auto simp: get1)
  qed
qed

lemma kahn_inv_taken:
  assumes "kahn_inv g D deg (c # q)" and "v \<in> set (D @ [c])"
  shows "(c, v) \<notin> edge_rel g"
proof
  assume "(c, v) \<in> edge_rel g"
  then obtain e where e: "e \<in> set (Graph_edges g)" "Edge_From e = c" "Edge_To e = v"
    by (auto simp: edge_rel_iff)
  have "v \<in> node_ids g" using assms by (auto simp: kahn_inv_def)
  with assms have "gm_getd 0 deg v = 0" unfolding kahn_inv_def by auto
  with assms(1) have "edge_count (\<lambda>e. Edge_To e = v \<and> Edge_From e \<notin> set D) (Graph_edges g) = 0"
    unfolding kahn_inv_def by simp
  with e have "c \<in> set D" by (auto simp: edge_count_0)
  with assms(1) show False by (auto simp: kahn_inv_def)
qed

lemma level_inv_step:
  assumes inv: "kahn_inv g D deg (c # q)" and lev: "level_inv g D lm"
    and run: "relax_levels c (Graph_edges g) deg q lm = (deg', q', lm')"
  shows "level_inv g (D @ [c]) lm'"
proof -
  note taken = kahn_inv_taken [OF inv]
  have get: "gm_getd 0 lm' v = (if (c, v) \<in> edge_rel g
      then max (Suc (gm_getd 0 lm c)) (gm_getd 0 lm v) else gm_getd 0 lm v)" for v
  proof -
    have "e \<in> set (Graph_edges g) \<Longrightarrow> Edge_From e = c \<Longrightarrow> Edge_To e \<noteq> c" for e
      using taken [of c] by (auto simp: edge_rel_iff)
    from relax_levels_get [OF this run] show ?thesis by (simp add: edge_rel_iff)
  qed
  have same: "gm_getd 0 lm' u = gm_getd 0 lm u" if "u \<in> set (D @ [c])" for u
    using taken [OF that] by (simp add: get)
  have "gm_getd 0 lm' u < gm_getd 0 lm' v" if "(u, v) \<in> edge_rel g" "u \<in> set (D @ [c])" for u v
  proof (cases "u = c")
    case True
    then show ?thesis using that same [OF that(2)] get [of v] by simp
  next
    case False
    with lev that have "gm_getd 0 lm u < gm_getd 0 lm v" by (auto intro: level_inv_mono)
    also have "\<dots> \<le> gm_getd 0 lm' v" by (simp add: get)
    finally show ?thesis by (simp add: same [OF that(2)])
  qed
  moreover have "\<exists>u \<in> set (D @ [c]). (u, v) \<in> edge_rel g \<and> gm_getd 0 lm' v = Suc (gm_getd 0 lm' u)"
    if pos: "0 < gm_getd 0 lm' v" for v
  proof (cases "gm_getd 0 lm' v = gm_getd 0 lm v")
    case True
    with pos have "0 < gm_getd 0 lm v" by simp
    with lev obtain u where u: "u \<in> set D" "(u, v) \<in> edge_rel g"
        "gm_getd 0 lm v = Suc (gm_getd 0 lm u)" by (rule level_inv_parent)
    then show ?thesis using True same [of u] by auto
  next
    case False
    then have "(c, v) \<in> edge_rel g" "gm_getd 0 lm' v = Suc (gm_getd 0 lm c)"
      by (auto simp: get split: if_splits)
    then show ?thesis using same [of c] by auto
  qed
  moreover have "gm_inv lm'" using lev run by (auto simp: level_inv_def intro: relax_levels_inv)
  ultimately show ?thesis unfolding level_inv_def by blast
qed

lemma level_inv_run:
  assumes "graph_closed g" and "kahn_inv g D deg q" and "level_inv g D lm"
  shows "level_inv g (D @ kahn_order (Graph_edges g) deg q) (levels_loop g deg q lm)"
  using assms(2,3)
proof (induction "Graph_edges g" deg q arbitrary: D lm rule: kahn_order.induct)
  case (1 deg)
  then show ?case by simp
next
  case (2 deg cur q)
  obtain deg' q' lm' where run: "relax_levels cur (Graph_edges g) deg q lm = (deg', q', lm')"
    by (metis prod_cases3)
  then have run': "relax_edges cur (Graph_edges g) deg q = (deg', q')"
    using relax_levels_edges [of cur "Graph_edges g" deg q lm] by simp
  have "kahn_inv g (D @ [cur]) deg' q'" using assms(1) 2(2) run' by (rule kahn_inv_step)
  moreover have "level_inv g (D @ [cur]) lm'" using 2(2,3) run by (rule level_inv_step)
  ultimately have "level_inv g ((D @ [cur]) @ kahn_order (Graph_edges g) deg' q') (levels_loop g deg' q' lm')"
    by (rule 2(1) [OF run' [symmetric]])
  then show ?case using run run' by simp
qed

section \<open>Levels are longest paths\<close>

lemma init_levels_get [simp]: "gm_getd 0 (init_levels q) v = 0"
  unfolding init_levels_def gm_getd_def
  using gm.get_fill_const [of "\<lambda>x. x" "0 :: nat" q gm_empty v] by (simp add: gm_laws)

lemma init_levels_inv: "gm_inv (init_levels q)"
  unfolding init_levels_def by (rule gm.inv_fill [where f = "\<lambda>x. x"]) (rule gm.inv_empty)

lemma level_inv_bound:
  assumes "level_inv g D lm" and "set D = node_ids g" and "path_to g v p"
  shows "length p \<le> Suc (gm_getd 0 lm v)"
  using assms(3)
proof (induction p arbitrary: v rule: rev_induct)
  case Nil
  then show ?case by (simp add: path_to_def)
next
  case (snoc x p)
  show ?case
  proof (cases "p = []")
    case True
    then show ?thesis by simp
  next
    case False
    with snoc.prems have "path_to g (last p) p" "(last p, v) \<in> edge_rel g" "last p \<in> set D"
      using assms(2) by (auto simp: path_to_def successively_append_iff)
    then show ?thesis
      using snoc.IH [of "last p"] level_inv_mono [OF assms(1), of "last p" v] by simp
  qed
qed

lemma level_inv_path:
  assumes "level_inv g D lm" and "set D = node_ids g" and "v \<in> node_ids g"
  shows "\<exists>p. path_to g v p \<and> length p = Suc (gm_getd 0 lm v)"
  using assms(3)
proof (induction "gm_getd 0 lm v" arbitrary: v)
  case 0
  then show ?case by (intro exI [of _ "[v]"]) (simp add: path_to_def)
next
  case (Suc k)
  then have "0 < gm_getd 0 lm v" by simp
  with assms(1) obtain u where u: "u \<in> set D" "(u, v) \<in> edge_rel g"
      "gm_getd 0 lm v = Suc (gm_getd 0 lm u)" by (rule level_inv_parent)
  with Suc assms(2) obtain p where "path_to g u p" "length p = Suc (gm_getd 0 lm u)" by auto
  with u Suc.prems show ?case
    by (intro exI [of _ "p @ [v]"]) (auto simp: path_to_def successively_append_iff)
qed

lemma level_inv_is_level:
  assumes "level_inv g D lm" and "set D = node_ids g" and "v \<in> node_ids g"
  shows "is_level g v k \<longleftrightarrow> k = gm_getd 0 lm v"
proof
  assume k: "is_level g v k"
  obtain p where "path_to g v p" "length p = Suc (gm_getd 0 lm v)"
    using level_inv_path [OF assms] by blast
  with k have "gm_getd 0 lm v \<le> k" by (auto simp: is_level_def)
  moreover from k obtain p' where "path_to g v p'" "length p' = Suc k" by (auto simp: is_level_def)
  then have "k \<le> gm_getd 0 lm v" using level_inv_bound [OF assms(1,2), of v p'] by simp
  ultimately show "k = gm_getd 0 lm v" by simp
next
  assume "k = gm_getd 0 lm v"
  then show "is_level g v k"
    using level_inv_path [OF assms] level_inv_bound [OF assms(1,2)] by (simp add: is_level_def)
qed

lemma level_inv_depth:
  assumes "level_inv g D lm" and "set D = node_ids g"
  shows "(\<forall>v \<in> node_ids g. gm_getd 0 lm v < d) \<longleftrightarrow> (\<forall>v p. path_to g v p \<longrightarrow> length p \<le> d)"
proof
  assume lt: "\<forall>v \<in> node_ids g. gm_getd 0 lm v < d"
  show "\<forall>v p. path_to g v p \<longrightarrow> length p \<le> d"
  proof (intro allI impI)
    fix v p assume p: "path_to g v p"
    then have "v \<in> node_ids g" by (auto simp: path_to_def)
    with lt level_inv_bound [OF assms p] show "length p \<le> d" by fastforce
  qed
next
  assume "\<forall>v p. path_to g v p \<longrightarrow> length p \<le> d"
  then show "\<forall>v \<in> node_ids g. gm_getd 0 lm v < d"
    using level_inv_path [OF assms] by (metis Suc_le_eq)
qed

section \<open>Placing the nodes\<close>

lemma place_nodes_eq:
  assumes "\<And>n. n \<in> set ns \<Longrightarrow> gm_getd 0 lm (Node_ID n) < length ls"
  shows "place_nodes lm (map Some ns) ls =
    Return (map (\<lambda>k. ls ! k @ filter (\<lambda>n. gm_getd 0 lm (Node_ID n) = k) ns) [0..<length ls])"
  using assms
proof (induction ns arbitrary: ls)
  case Nil
  then show ?case by (simp add: map_nth)
next
  case (Cons n ns)
  let ?l = "gm_getd 0 lm (Node_ID n)"
  have "place_nodes lm (map Some (n # ns)) ls = place_nodes lm (map Some ns) (ls[?l := ls ! ?l @ [n]])"
    using Cons.prems by (simp add: Let_def)
  also have "\<dots> = Return (map (\<lambda>k. ls[?l := ls ! ?l @ [n]] ! k @
      filter (\<lambda>n. gm_getd 0 lm (Node_ID n) = k) ns) [0..<length ls])"
    using Cons.IH [of "ls[?l := ls ! ?l @ [n]]"] Cons.prems by simp
  also have "\<dots> = Return (map (\<lambda>k. ls ! k @
      filter (\<lambda>n. gm_getd 0 lm (Node_ID n) = k) (n # ns)) [0..<length ls])"
    using Cons.prems by (auto simp: nth_list_update)
  finally show ?case .
qed

lemma max_level_fold: "fold (\<lambda>(k, l) acc. if l > acc then l else acc) lm (a :: nat) = fold max (map snd lm) a"
  by (induction lm arbitrary: a) (auto simp: max_def)

lemma max_level_ge: "gm_getd 0 lm v \<le> max_level lm"
proof (cases "gm_get lm v")
  case None
  then show ?thesis by (simp add: gm_getd_def)
next
  case (Some l)
  then have "l \<in> set (map snd lm)"
    by (force simp: gm_get_def dest: map_of_SomeD)
  then have "l \<le> Max (set (0 # map snd lm))" by simp
  then show ?thesis using Some
    by (simp add: gm_getd_def max_level_def max_level_fold Max.set_eq_fold [symmetric] del: Max_insert)
qed

lemma max_level_attained:
  assumes "gm_inv lm" and "0 < max_level lm"
  shows "\<exists>v. gm_getd 0 lm v = max_level lm"
proof -
  have "max_level lm = Max (set (0 # map snd lm))"
    by (simp add: max_level_def max_level_fold Max.set_eq_fold [symmetric] del: Max_insert)
  moreover have "Max (set (0 # map snd lm)) \<in> set (0 # map snd lm)" by (rule Max_in) simp_all
  ultimately obtain v where "(v, max_level lm) \<in> set lm" using assms(2) by auto
  then have "gm_get lm v = Some (max_level lm)" using gm_get_mem [OF assms(1)] by blast
  then have "gm_getd 0 lm v = max_level lm" by (simp add: gm_getd_def)
  then show ?thesis by blast
qed

lemma Levels_acyclic:
  assumes wf: "graph_closed g" and ord1: "gm_iter ord1 (in_degrees g)" and ord2: "gm_iter ord2 (in_degrees g)"
    and acyc: "acyclic (edge_rel g)"
  obtains lm ns where
    "Levels g ord1 ord2 =
      Return (map (\<lambda>k. filter (\<lambda>n. gm_getd 0 lm (Node_ID n) = k) ns) [0..<Suc (max_level lm)])"
    and "map Node_ID ns = sort_ids g ord1" and "\<And>n. n \<in> set ns \<Longrightarrow> in_graph g n"
    and "level_inv g (sort_ids g ord2) lm"
proof -
  define q where "q = zero_queue (in_degrees g) ord2"
  define lm where "lm = levels_loop g (in_degrees g) q (init_levels q)"
  have "level_inv g [] (init_levels q)"
    by (simp add: level_inv_def init_levels_inv)
  from level_inv_run [OF wf kahn_inv_init [OF wf ord2] this [unfolded q_def]]
  have lev: "level_inv g (sort_ids g ord2) lm" by (simp add: sort_ids_def lm_def q_def)
  obtain ns where ns: "map (gm_get (Graph_nodes g)) (sort_ids g ord1) = map Some ns"
      "map Node_ID ns = sort_ids g ord1" "\<And>n. n \<in> set ns \<Longrightarrow> in_graph g n"
    using sorted_nodes [OF wf sort_ids_nodes [OF wf ord1]] by blast
  have "Levels g ord1 ord2 = place_nodes lm (map Some ns) (replicate (max_level lm + 1) [])"
    using acyc sort_ids_length_iff [OF wf ord1]
    by (simp add: Levels_def TopologicalSort_ids ns(1) Let_def lm_def q_def)
  also have "\<dots> = Return (map (\<lambda>k. replicate (max_level lm + 1) [] ! k @
      filter (\<lambda>n. gm_getd 0 lm (Node_ID n) = k) ns) [0..<length (replicate (max_level lm + 1) ([] :: Node list))])"
    by (rule place_nodes_eq) (simp add: max_level_ge less_Suc_eq_le)
  also have "\<dots> = Return (map (\<lambda>k. filter (\<lambda>n. gm_getd 0 lm (Node_ID n) = k) ns) [0..<Suc (max_level lm)])"
    by (auto simp del: replicate_Suc upt_Suc)
  finally show thesis using ns(2,3) lev by (rule that)
qed

lemma Levels_cyclic:
  assumes "graph_closed g" and "gm_iter ord1 (in_degrees g)" and "\<not> acyclic (edge_rel g)"
  shows "Levels g ord1 ord2 = Error LevelsOfCyclicGraph"
  using TopologicalSort_cycle [OF assms(1,2)] assms(3)
  by (cases "TopologicalSort g ord1") (simp add: Levels_def)

lemma sorted_nodes_set:
  assumes "map Node_ID ns = ids" and "set ids = node_ids g" and "\<And>n. n \<in> set ns \<Longrightarrow> in_graph g n"
  shows "n \<in> set ns \<longleftrightarrow> in_graph g n"
proof
  assume n: "in_graph g n"
  then have "Node_ID n \<in> node_ids g"
    by (simp add: in_graph_def node_ids_def gm_has_def flip: gm_has_keys)
  with assms(1,2) obtain n' where n': "n' \<in> set ns" "Node_ID n' = Node_ID n" by (metis imageE set_map)
  with n assms(3) [of n'] have "n' = n" by (simp add: in_graph_def)
  with n' show "n \<in> set ns" by simp
qed (rule assms(3))

lemma distinct_concat_filter:
  "distinct xs \<Longrightarrow> distinct (concat (map (\<lambda>k. filter (\<lambda>x. f x = k) xs) [0..<m]))"
  by (induction m) auto

lemma map_distinct_concat_filter:
  "distinct (map h xs) \<Longrightarrow> distinct (map h (concat (map (\<lambda>k. filter (\<lambda>x. f x = k) xs) [0..<m])))"
  by (auto simp: distinct_map distinct_concat_filter intro: inj_on_subset)

lemma Levels_spec:
  assumes "graph_closed g" and "gm_iter ord1 (in_degrees g)" and "gm_iter ord2 (in_degrees g)"
    and "acyclic (edge_rel g)"
  shows "\<exists>ls. Levels g ord1 ord2 = Return ls \<and> distinct (map Node_ID (concat ls)) \<and>
    (\<forall>k n. k < length ls \<and> n \<in> set (ls ! k) \<longleftrightarrow> in_graph g n \<and> is_level g (Node_ID n) k)"
proof -
  obtain lm ns where L: "Levels g ord1 ord2 =
      Return (map (\<lambda>k. filter (\<lambda>n. gm_getd 0 lm (Node_ID n) = k) ns) [0..<Suc (max_level lm)])"
    and ns: "map Node_ID ns = sort_ids g ord1" "\<And>n. n \<in> set ns \<Longrightarrow> in_graph g n"
    and lev: "level_inv g (sort_ids g ord2) lm"
    using Levels_acyclic [OF assms] by metis
  let ?ls = "map (\<lambda>k. filter (\<lambda>n. gm_getd 0 lm (Node_ID n) = k) ns) [0..<Suc (max_level lm)]"
  have ids: "set (sort_ids g ord1) = node_ids g" "set (sort_ids g ord2) = node_ids g"
    using sort_ids_all_iff [OF assms(1)] assms by simp_all
  have set_ns: "n \<in> set ns \<longleftrightarrow> in_graph g n" for n
    by (rule sorted_nodes_set [OF ns(1) ids(1) ns(2)])
  have "k < length ?ls \<and> n \<in> set (?ls ! k) \<longleftrightarrow> in_graph g n \<and> is_level g (Node_ID n) k" for k n
  proof -
    have "k < length ?ls \<and> n \<in> set (?ls ! k) \<longleftrightarrow> n \<in> set ns \<and> k = gm_getd 0 lm (Node_ID n)"
      using max_level_ge [of lm "Node_ID n"] by (auto simp del: upt_Suc)
    also have "\<dots> \<longleftrightarrow> in_graph g n \<and> is_level g (Node_ID n) k"
      using level_inv_is_level [OF lev ids(2), of "Node_ID n" k] set_ns [of n]
      by (auto simp: in_graph_def node_ids_def gm_has_def simp flip: gm_has_keys)
    finally show ?thesis .
  qed
  moreover have "distinct (map Node_ID (concat ?ls))"
    using sort_ids_distinct [OF assms(1,2)] ns(1) by (intro map_distinct_concat_filter) simp
  ultimately show ?thesis using L by blast
qed

lemma is_level_ex:
  assumes "graph_closed g" and "acyclic (edge_rel g)" and "v \<in> node_ids g"
  shows "\<exists>k. is_level g v k"
proof -
  let ?ord = "gm_keys (in_degrees g)"
  have ord: "gm_iter ?ord (in_degrees g)"
    using range_over_iter [OF ranger_ok_id in_degrees_inv, of 0] by (simp add: range_over_def)
  obtain lm where lev: "level_inv g (sort_ids g ?ord) lm"
    using Levels_acyclic [OF assms(1) ord ord assms(2)] by blast
  have "set (sort_ids g ?ord) = node_ids g" using sort_ids_all_iff [OF assms(1) ord] assms(2) by simp
  then show ?thesis using level_inv_is_level [OF lev _ assms(3)] by blast
qed

lemma is_level_edge:
  assumes "graph_closed g" and "(u, v) \<in> edge_rel g" and "is_level g u i" and "is_level g v j"
  shows "i < j"
proof -
  obtain p where p: "path_to g u p" "length p = Suc i" using assms(3) by (auto simp: is_level_def)
  have "v \<in> node_ids g" using assms(1,2) graph_closed_edge by (auto simp: edge_rel_iff)
  with p assms(2) have "path_to g v (p @ [v])" by (auto simp: path_to_def successively_append_iff)
  with assms(4) p(2) show ?thesis by (fastforce simp: is_level_def)
qed

lemma is_level_unique: "is_level g v i \<Longrightarrow> is_level g v j \<Longrightarrow> i = j"
  unfolding is_level_def by (metis Suc_inject le_antisym)

section \<open>Properties\<close>

text \<open>
  (C2) On an acyclic graph \<open>Levels\<close> returns (it neither fails nor panics), places every node of
  the graph exactly once, and puts a node into level \<open>k\<close> exactly when the longest path that
  ends in it has \<open>k\<close> edges.
\<close>

theorem Levels_correct:
  assumes "graph_closed g" and "gm_iter ord1 (in_degrees g)" and "gm_iter ord2 (in_degrees g)"
    and "acyclic (edge_rel g)"
  shows "\<exists>ls. Levels g ord1 ord2 = Return ls \<and> distinct (map Node_ID (concat ls)) \<and>
    (\<forall>k n. k < length ls \<and> n \<in> set (ls ! k) \<longleftrightarrow> in_graph g n \<and> is_level g (Node_ID n) k)"
  by (rule Levels_spec [OF assms])

lemma diamond_acyclic: "acyclic (edge_rel diamond)"
  using TopologicalSort_cycle [OF graph_wf_closed [OF diamond_wf] diamond_iter] diamond_sort by simp

theorem Levels_correct_witness:
  "\<exists>ls. Levels diamond [1, 2, 3, 4] [1, 2, 3, 4] = Return ls \<and> distinct (map Node_ID (concat ls)) \<and>
    map (map Node_ID) ls = [[1], [2, 3], [4]]"
proof -
  have "Levels diamond [1, 2, 3, 4] [1, 2, 3, 4] =
      Return [[mkNode 1 ''a''], [mkNode 2 ''b'', mkNode 3 ''c''], [mkNode 4 ''d'']]"
    by code_simp
  then show ?thesis
    using Levels_correct [OF graph_wf_closed [OF diamond_wf] diamond_iter diamond_iter diamond_acyclic]
    by (auto simp: mkNode_def)
qed

end
