(* ===== verification/Dag_Validator.thy ===== *)
theory Dag_Validator
  imports Dag_Levels
begin

text \<open>
  The validator of \<^verbatim>\<open>internal/dag/validator.go\<close>. The lemmas characterise its verdicts by the
  graph: \<open>ValidateDAG\<close> accepts exactly the acyclic graphs without isolated nodes whose
  paths are not longer than the limit, \<open>ValidateEdgeAddition\<close> exactly the edges that create
  no cycle, and the nodes named by a cycle error are those that a cycle reaches.
  The rendered messages of the errors are left out.
\<close>

section \<open>Data\<close>

record ValidationError =
  VE_Type :: string
  VE_NodeID :: uuid
  VE_NodeIDs :: "uuid list"

record ValidationResult =
  VR_Valid :: bool
  VR_Errors :: "ValidationError list"

record Validator =
  Validator_maxDepth :: int

definition mkError :: "string \<Rightarrow> uuid \<Rightarrow> ValidationError" where
  "mkError t nid = \<lparr>VE_Type = t, VE_NodeID = nid, VE_NodeIDs = []\<rparr>"

definition mkResult :: "ValidationError list \<Rightarrow> ValidationResult" where
  "mkResult errs = \<lparr>VR_Valid = (length errs = 0), VR_Errors = errs\<rparr>"

definition NewValidator :: Validator where
  "NewValidator = \<lparr>Validator_maxDepth = 100\<rparr>"

definition NewValidatorWithMaxDepth :: "int \<Rightarrow> Validator" where
  "NewValidatorWithMaxDepth maxDepth =
     \<lparr>Validator_maxDepth = (if maxDepth < 1 then 1 else maxDepth)\<rparr>"

section \<open>The checks\<close>

text \<open>Dereferencing a nil node of the sorted list is the only possible panic.\<close>

fun delete_sorted :: "Node option list \<Rightarrow> (uuid, bool) gmap \<Rightarrow> (uuid, bool) gmap option" where
  "delete_sorted [] m = Some m"
| "delete_sorted (None # ns) m = None"
| "delete_sorted (Some n # ns) m = delete_sorted ns (gm_del (Node_ID n) m)"

definition validateCycles ::
  "Graph \<Rightarrow> uuid ranger \<Rightarrow> (GraphError, ValidationError list) outcome" where
  "validateCycles g rng =
     (case TopologicalSort g (range_over rng 0 (in_degrees g)) of (srt, hasCycle) \<Rightarrow>
        if \<not> hasCycle then Return []
        else let inCycle = fold (\<lambda>n. gm_set (Node_ID n) True)
                             (Nodes g (range_over rng 1 (Graph_nodes g))) gm_empty
             in (case delete_sorted srt inCycle of
                   None \<Rightarrow> Panic
                 | Some inCycle' \<Rightarrow>
                     Return [(mkError ''CYCLE_DETECTED'' 0)
                       \<lparr>VE_NodeIDs := range_over rng 2 inCycle'\<rparr>]))"

definition validateOrphanNodes :: "Graph \<Rightarrow> uuid ranger \<Rightarrow> ValidationError list" where
  "validateOrphanNodes g rng =
     map (\<lambda>n. mkError ''ORPHAN_NODE'' (Node_ID n))
       (filter (\<lambda>n. length (Parents g (Node_ID n)) = 0 \<and> length (Children g (Node_ID n)) = 0)
         (Nodes g (range_over rng 3 (Graph_nodes g))))"

definition validateDependencies :: "Graph \<Rightarrow> ValidationError list" where
  "validateDependencies g =
     concat (map (\<lambda>e.
       (if GraphNode g (Edge_From e) = None
        then [mkError ''MISSING_DEPENDENCY'' (Edge_From e)] else []) @
       (if GraphNode g (Edge_To e) = None
        then [mkError ''MISSING_DEPENDENCY'' (Edge_To e)] else [])) (Edges g))"

definition validateMaxDepth ::
  "Validator \<Rightarrow> Graph \<Rightarrow> uuid ranger \<Rightarrow> (GraphError, ValidationError list) outcome" where
  "validateMaxDepth v g rng =
     (case Levels g (range_over rng 4 (in_degrees g)) (range_over rng 5 (in_degrees g)) of
        Error _ \<Rightarrow> Return [mkError ''DEPTH_VALIDATION_FAILED'' 0]
      | Panic \<Rightarrow> Panic
      | Return levels \<Rightarrow>
          Return (if int (length levels) > Validator_maxDepth v
                  then [mkError ''MAX_DEPTH_EXCEEDED'' 0] else []))"

definition ValidateDAG ::
  "Validator \<Rightarrow> Graph \<Rightarrow> uuid ranger \<Rightarrow> (GraphError, ValidationResult) outcome" where
  "ValidateDAG v g rng =
     (case validateCycles g rng of
        Error e \<Rightarrow> Error e | Panic \<Rightarrow> Panic
      | Return cycleErrors \<Rightarrow>
          (case validateMaxDepth v g rng of
             Error e \<Rightarrow> Error e | Panic \<Rightarrow> Panic
           | Return depthErrors \<Rightarrow>
               Return (mkResult (cycleErrors @ validateOrphanNodes g rng @
                 validateDependencies g @ depthErrors))))"

definition ValidateNodeAddition ::
  "Graph \<Rightarrow> string \<Rightarrow> uuid list \<Rightarrow> uuid ranger \<Rightarrow> ValidationResult" where
  "ValidateNodeAddition g name dependsOn rng =
     mkResult
       (map (mkError ''DEPENDENCY_NOT_FOUND'') (filter (\<lambda>dep. GraphNode g dep = None) dependsOn) @
        (case find (\<lambda>n. Node_Name n = name) (Nodes g (range_over rng 0 (Graph_nodes g))) of
           None \<Rightarrow> [] | Some n \<Rightarrow> [mkError ''DUPLICATE_NODE_NAME'' (Node_ID n)]))"

definition test_graph :: "Graph \<Rightarrow> uuid \<Rightarrow> uuid \<Rightarrow> uuid list \<Rightarrow> Graph" where
  "test_graph g from to ord =
     \<lparr>Graph_nodes = fold (\<lambda>n. gm_set (Node_ID n) n) (Nodes g ord) gm_empty,
      Graph_edges = Graph_edges g @ [\<lparr>Edge_From = from, Edge_To = to\<rparr>]\<rparr>"

definition ValidateEdgeAddition ::
  "Graph \<Rightarrow> uuid \<Rightarrow> uuid \<Rightarrow> uuid ranger \<Rightarrow> ValidationResult" where
  "ValidateEdgeAddition g from to rng =
     (let errors =
        (if GraphNode g from = None then [mkError ''SOURCE_NOT_FOUND'' from] else []) @
        (if GraphNode g to = None then [mkError ''TARGET_NOT_FOUND'' to] else [])
      in if length errors > 0 then \<lparr>VR_Valid = False, VR_Errors = errors\<rparr>
         else let tg = test_graph g from to (range_over rng 0 (Graph_nodes g))
              in mkResult (errors @
                   (if HasCycle tg (range_over rng 1 (in_degrees tg))
                    then [mkError ''EDGE_CREATES_CYCLE'' 0] else [])))"

text \<open>An example: a cycle of two nodes and a node downstream of it.\<close>

definition lasso :: Graph where
  "lasso = \<lparr>Graph_nodes = [(1, mkNode 1 ''a''), (2, mkNode 2 ''b''), (3, mkNode 3 ''c'')],
     Graph_edges = [\<lparr>Edge_From = 1, Edge_To = 2\<rparr>, \<lparr>Edge_From = 2, Edge_To = 1\<rparr>,
       \<lparr>Edge_From = 2, Edge_To = 3\<rparr>]\<rparr>"

section \<open>Lemmas\<close>

lemma mkResult_valid [simp]: "VR_Valid (mkResult errs) \<longleftrightarrow> errs = []"
  by (simp add: mkResult_def)

lemma in_degrees_range: "ranger_ok rng \<Longrightarrow> gm_iter (range_over rng i (in_degrees g)) (in_degrees g)"
  by (simp add: range_over_iter in_degrees_inv)

lemma closed_inv: "graph_closed g \<Longrightarrow> gm_inv (Graph_nodes g)"
  by (simp add: graph_closed_def)

lemma Nodes_set:
  assumes "graph_closed g" and "ranger_ok rng"
  shows "set (Nodes g (range_over rng i (Graph_nodes g))) = {n. in_graph g n}"
proof -
  have ids: "set (range_over rng i (Graph_nodes g)) = node_ids g"
    using range_over_iter [OF assms(2) closed_inv [OF assms(1)], of i]
    by (simp add: gm_iter_def node_ids_def)
  show ?thesis
  proof (intro set_eqI iffI)
    fix n assume "n \<in> set (Nodes g (range_over rng i (Graph_nodes g)))"
    then obtain v where v: "v \<in> node_ids g" "gm_get (Graph_nodes g) v = Some n"
      by (auto simp: Nodes_def map_filter_def ids)
    with assms(1) show "n \<in> {n. in_graph g n}"
      by (auto simp: in_graph_def elim: graph_closed_node)
  next
    fix n assume "n \<in> {n. in_graph g n}"
    then have "gm_get (Graph_nodes g) (Node_ID n) = Some n" by (simp add: in_graph_def)
    moreover from this have "Node_ID n \<in> node_ids g"
      by (simp add: node_ids_def gm_has_def flip: gm_has_keys)
    ultimately show "n \<in> set (Nodes g (range_over rng i (Graph_nodes g)))"
      by (force simp: Nodes_def map_filter_def ids)
  qed
qed

lemma in_graph_ids: "graph_closed g \<Longrightarrow> Node_ID ` {n. in_graph g n} = node_ids g"
  by (auto simp: in_graph_def node_ids_def gm_has_def image_iff elim: graph_closed_node
      simp flip: gm_has_keys)

lemma GraphNode_None: "GraphNode g v = None \<longleftrightarrow> v \<notin> node_ids g"
  by (simp add: GraphNode_def node_ids_def gm_has_def flip: gm_has_keys)

lemma set_Children: "children_loop g v es = [] \<longleftrightarrow> (\<forall>e \<in> set es. Edge_From e = v \<longrightarrow> GraphNode g (Edge_To e) = None)"
  by (induction es) (auto simp: GraphNode_def split: option.splits)

lemma set_Parents: "parents_loop g v es = [] \<longleftrightarrow> (\<forall>e \<in> set es. Edge_To e = v \<longrightarrow> GraphNode g (Edge_From e) = None)"
  by (induction es) (auto simp: GraphNode_def split: option.splits)

lemma orphan_iff:
  "graph_closed g \<Longrightarrow> Parents g v = [] \<and> Children g v = [] \<longleftrightarrow> v \<notin> Field (edge_rel g)"
  using graph_closed_edge [of g]
  by (auto simp: Parents_def Children_def set_Children set_Parents GraphNode_None Field_def
      edge_rel_def Domain.simps Range.simps)

lemma validateDependencies_closed: "graph_closed g \<Longrightarrow> validateDependencies g = []"
  using graph_closed_edge [of g] by (auto simp: validateDependencies_def Edges_def GraphNode_None)

lemma validateOrphanNodes_closed:
  assumes "graph_closed g" and "ranger_ok rng"
  shows "validateOrphanNodes g rng = [] \<longleftrightarrow> node_ids g \<subseteq> Field (edge_rel g)"
proof -
  have "validateOrphanNodes g rng = [] \<longleftrightarrow>
      (\<forall>n. in_graph g n \<longrightarrow> Node_ID n \<in> Field (edge_rel g))"
    using orphan_iff [OF assms(1)]
    by (simp add: validateOrphanNodes_def filter_empty_conv Nodes_set [OF assms])
  also have "\<dots> \<longleftrightarrow> Node_ID ` {n. in_graph g n} \<subseteq> Field (edge_rel g)" by blast
  finally show ?thesis by (simp add: in_graph_ids [OF assms(1)])
qed

lemma delete_sorted_keys:
  "\<exists>m'. delete_sorted (map Some ns) m = Some m' \<and>
     set (gm_keys m') = set (gm_keys m) - Node_ID ` set ns \<and> (gm_inv m \<longrightarrow> gm_inv m')"
proof (induction ns arbitrary: m)
  case Nil
  then show ?case by simp
next
  case (Cons n ns)
  from Cons.IH [of "gm_del (Node_ID n) m"] show ?case by (auto simp: gm.inv_del)
qed

lemma fill_keys: "set (gm_keys (fold (\<lambda>x. gm_set (f x) (h x)) xs m)) = set (gm_keys m) \<union> f ` set xs"
  by (induction xs arbitrary: m) auto

lemma validateCycles_closed:
  assumes "graph_closed g" and "ranger_ok rng"
  shows "if acyclic (edge_rel g) then validateCycles g rng = Return []
    else \<exists>ids. validateCycles g rng = Return [(mkError ''CYCLE_DETECTED'' 0)\<lparr>VE_NodeIDs := ids\<rparr>] \<and>
      distinct ids \<and> set ids = cycle_reached g"
proof -
  let ?ord = "range_over rng 0 (in_degrees g)"
  let ?ns = "Nodes g (range_over rng 1 (Graph_nodes g))"
  have ord: "gm_iter ?ord (in_degrees g)" using assms(2) by (rule in_degrees_range)
  obtain ns where ns: "map (gm_get (Graph_nodes g)) (sort_ids g ?ord) = map Some ns"
      "map Node_ID ns = sort_ids g ?ord"
    using sorted_nodes [OF assms(1) sort_ids_nodes [OF assms(1) ord]] by blast
  let ?m = "fold (\<lambda>n. gm_set (Node_ID n) True) ?ns gm_empty"
  obtain m' where m': "delete_sorted (map Some ns) ?m = Some m'"
      "set (gm_keys m') = set (gm_keys ?m) - Node_ID ` set ns" "gm_inv ?m \<longrightarrow> gm_inv m'"
    using delete_sorted_keys by blast
  have "gm_inv ?m" by (rule gm.inv_fill) (rule gm.inv_empty)
  with m' have "gm_inv m'" by blast
  have "Node_ID ` set ns = set (sort_ids g ?ord)" using ns(2) by (metis set_map)
  then have "set (gm_keys m') = cycle_reached g"
    using m'(2) by (simp add: fill_keys Nodes_set [OF assms] in_graph_ids [OF assms(1)]
        sort_ids_missing [OF assms(1) ord])
  with range_over_iter [OF assms(2) \<open>gm_inv m'\<close>, of 2]
  have "distinct (range_over rng 2 m')" "set (range_over rng 2 m') = cycle_reached g"
    by (simp_all add: gm_iter_def)
  then show ?thesis
    using sort_ids_length_iff [OF assms(1) ord]
    by (auto simp: validateCycles_def TopologicalSort_ids ns(1) m'(1) Let_def simp del: One_nat_def)
qed

lemma max_level_depth:
  assumes "level_inv g D lm" and "graph_closed g" and "1 \<le> d"
  shows "int (Suc (max_level lm)) \<le> d \<longleftrightarrow> (\<forall>x \<in> node_ids g. gm_getd 0 lm x < nat d)"
proof
  assume le: "int (Suc (max_level lm)) \<le> d"
  show "\<forall>x \<in> node_ids g. gm_getd 0 lm x < nat d"
  proof
    fix x show "gm_getd 0 lm x < nat d" using le max_level_ge [of lm x] by linarith
  qed
next
  assume lt: "\<forall>x \<in> node_ids g. gm_getd 0 lm x < nat d"
  show "int (Suc (max_level lm)) \<le> d"
  proof (cases "max_level lm = 0")
    case True
    then show ?thesis using assms(3) by simp
  next
    case False
    then obtain x where x: "gm_getd 0 lm x = max_level lm" "0 < gm_getd 0 lm x"
      using max_level_attained [of lm] assms(1) by (auto simp: level_inv_def)
    with assms(1) obtain u where "(u, x) \<in> edge_rel g" by (elim level_inv_parent)
    then have "x \<in> node_ids g" using graph_closed_edge [OF assms(2)] by (auto simp: edge_rel_iff)
    with lt x show ?thesis by auto
  qed
qed

lemma validateMaxDepth_closed:
  assumes "graph_closed g" and "ranger_ok rng" and "1 \<le> Validator_maxDepth v" and "acyclic (edge_rel g)"
  shows "\<exists>errs. validateMaxDepth v g rng = Return errs \<and>
    (errs = [] \<longleftrightarrow> (\<forall>x p. path_to g x p \<longrightarrow> length p \<le> nat (Validator_maxDepth v)))"
proof -
  let ?o1 = "range_over rng 4 (in_degrees g)" and ?o2 = "range_over rng 5 (in_degrees g)"
  have o1: "gm_iter ?o1 (in_degrees g)" and o2: "gm_iter ?o2 (in_degrees g)"
    using assms(2) by (rule in_degrees_range)+
  obtain lm ns where L: "Levels g ?o1 ?o2 =
      Return (map (\<lambda>k. filter (\<lambda>n. gm_getd 0 lm (Node_ID n) = k) ns) [0..<Suc (max_level lm)])"
    and lev: "level_inv g (sort_ids g ?o2) lm"
    using Levels_acyclic [OF assms(1) o1 o2 assms(4)] by metis
  have all: "set (sort_ids g ?o2) = node_ids g" using sort_ids_all_iff [OF assms(1) o2] assms(4) by simp
  have "int (Suc (max_level lm)) \<le> Validator_maxDepth v \<longleftrightarrow>
      (\<forall>x p. path_to g x p \<longrightarrow> length p \<le> nat (Validator_maxDepth v))"
    using max_level_depth [OF lev assms(1,3)] level_inv_depth [OF lev all] by blast
  then show ?thesis by (auto simp: validateMaxDepth_def L)
qed

lemma validateMaxDepth_cyclic:
  assumes "graph_closed g" and "ranger_ok rng" and "\<not> acyclic (edge_rel g)"
  shows "\<exists>errs. validateMaxDepth v g rng = Return errs"
  using Levels_cyclic [OF assms(1) in_degrees_range [OF assms(2)] assms(3)]
  by (simp add: validateMaxDepth_def)

lemma test_graph_nodes:
  assumes "graph_closed g" and "ranger_ok rng"
  shows "gm_get (Graph_nodes (test_graph g from to (range_over rng i (Graph_nodes g)))) = gm_get (Graph_nodes g)"
proof
  fix v
  let ?ns = "Nodes g (range_over rng i (Graph_nodes g))"
  show "gm_get (Graph_nodes (test_graph g from to (range_over rng i (Graph_nodes g)))) v = gm_get (Graph_nodes g) v"
  proof (cases "gm_get (Graph_nodes g) v")
    case None
    then have "v \<notin> Node_ID ` set ?ns" by (auto simp: Nodes_set [OF assms] in_graph_def)
    then show ?thesis
      using None gm.get_fill_notin [of v Node_ID ?ns "\<lambda>n. n" gm_empty] by (simp add: test_graph_def gomap)
  next
    case (Some n)
    then have n: "n \<in> set ?ns" "Node_ID n = v"
      using assms(1) graph_closed_node [of g v] by (auto simp: Nodes_set [OF assms] in_graph_def node_ids_def
          gm_has_def simp flip: gm_has_keys)
    have "x = n" if "x \<in> set ?ns" "Node_ID x = v" for x
      using Some that by (simp add: Nodes_set [OF assms] in_graph_def)
    moreover have "v \<in> Node_ID ` set ?ns" using n by blast
    ultimately show ?thesis
      using Some gm.get_fill_in [of v Node_ID ?ns "\<lambda>n. n" gm_empty] by (auto simp: test_graph_def)
  qed
qed

lemma test_graph_spec:
  fixes rng i
  assumes "graph_closed g" and "ranger_ok rng" and "from \<in> node_ids g" and "to \<in> node_ids g"
  defines "tg \<equiv> test_graph g from to (range_over rng i (Graph_nodes g))"
  shows "graph_closed tg" and "edge_rel tg = insert (from, to) (edge_rel g)"
proof -
  show "edge_rel tg = insert (from, to) (edge_rel g)"
    by (auto simp: tg_def test_graph_def edge_rel_def)
  have get: "gm_get (Graph_nodes tg) = gm_get (Graph_nodes g)"
    unfolding tg_def by (rule test_graph_nodes [OF assms(1,2)])
  then have has: "gm_has (Graph_nodes tg) v \<longleftrightarrow> gm_has (Graph_nodes g) v" for v
    by (simp add: gm_has_def)
  have inv: "gm_inv (Graph_nodes tg)"
    by (simp add: tg_def test_graph_def gm.inv_fill gm.inv_empty)
  have "Node_ID n = k" if "(k, n) \<in> set (Graph_nodes tg)" for k n
  proof -
    have g: "gm_get (Graph_nodes g) k = Some n" using gm_get_mem [OF inv] that get by simp
    then have "k \<in> node_ids g" by (simp add: node_ids_def gm_has_def flip: gm_has_keys)
    with g assms(1) show ?thesis by (auto elim: graph_closed_node)
  qed
  moreover have "list_all (\<lambda>e. gm_has (Graph_nodes tg) (Edge_From e) \<and> gm_has (Graph_nodes tg) (Edge_To e))
      (Graph_edges tg)"
    using assms(1,3,4) by (simp add: has graph_closed_def) (simp add: tg_def test_graph_def node_ids_def gm_has_keys)
  ultimately show "graph_closed tg" using inv by (auto simp: graph_closed_def list_all_iff)
qed

lemma HasCycle_iff:
  "graph_closed g \<Longrightarrow> ranger_ok rng \<Longrightarrow> HasCycle g (range_over rng i (in_degrees g)) \<longleftrightarrow> \<not> acyclic (edge_rel g)"
  by (simp add: HasCycle_def TopologicalSort_cycle in_degrees_range)

section \<open>Properties\<close>

text \<open>
  (C5) \<open>ValidateDAG\<close> never panics and accepts a graph exactly when it has no cycle, every node
  is the end of some edge, and no path has more nodes than the depth limit.
\<close>

theorem ValidateDAG_correct:
  assumes "graph_closed g" and "ranger_ok rng" and "1 \<le> Validator_maxDepth v"
  shows "\<exists>r. ValidateDAG v g rng = Return r \<and>
    (VR_Valid r \<longleftrightarrow> acyclic (edge_rel g) \<and> node_ids g \<subseteq> Field (edge_rel g) \<and>
      (\<forall>x p. path_to g x p \<longrightarrow> length p \<le> nat (Validator_maxDepth v)))"
proof (cases "acyclic (edge_rel g)")
  case True
  then show ?thesis
    using validateMaxDepth_closed [OF assms True] validateCycles_closed [OF assms(1,2)]
      validateOrphanNodes_closed [OF assms(1,2)] validateDependencies_closed [OF assms(1)]
    by (auto simp: ValidateDAG_def)
next
  case False
  then show ?thesis
    using validateMaxDepth_cyclic [OF assms(1,2) False, of v] validateCycles_closed [OF assms(1,2)]
    by (auto simp: ValidateDAG_def)
qed

theorem ValidateDAG_correct_witness:
  "ValidateDAG NewValidator diamond (\<lambda>i ks. ks) = Return (mkResult []) \<and> acyclic (edge_rel diamond)"
proof -
  have "ValidateDAG NewValidator diamond (\<lambda>i ks. ks) = Return (mkResult [])"
    by code_simp
  moreover have "1 \<le> Validator_maxDepth NewValidator" by (simp add: NewValidator_def)
  from ValidateDAG_correct [OF graph_wf_closed [OF diamond_wf] ranger_ok_id this] obtain r where
    "ValidateDAG NewValidator diamond (\<lambda>i ks. ks) = Return r" "VR_Valid r \<longrightarrow> acyclic (edge_rel diamond)"
    by (elim exE conjE) (rule that, assumption, blast)
  ultimately show ?thesis by simp
qed

text \<open>
  (C10) \<open>ValidateEdgeAddition\<close> accepts an edge exactly when both ends are nodes of the graph and
  the graph with the edge added has no cycle.
\<close>

theorem ValidateEdgeAddition_correct:
  assumes "graph_closed g" and "ranger_ok rng"
  shows "VR_Valid (ValidateEdgeAddition g from to rng) \<longleftrightarrow>
    from \<in> node_ids g \<and> to \<in> node_ids g \<and> acyclic (insert (from, to) (edge_rel g))"
proof (cases "from \<in> node_ids g \<and> to \<in> node_ids g")
  case True
  then show ?thesis
    using test_graph_spec [OF assms, of "from" to 0]
    by (simp add: ValidateEdgeAddition_def GraphNode_None HasCycle_iff [OF _ assms(2)] Let_def del: One_nat_def)
next
  case False
  then show ?thesis by (auto simp: ValidateEdgeAddition_def GraphNode_None)
qed

theorem ValidateEdgeAddition_correct_witness:
  "VR_Valid (ValidateEdgeAddition diamond 1 4 (\<lambda>i ks. ks)) \<and> acyclic (insert (1, 4) (edge_rel diamond)) \<and>
    \<not> VR_Valid (ValidateEdgeAddition diamond 4 1 (\<lambda>i ks. ks)) \<and> \<not> acyclic (insert (4, 1) (edge_rel diamond))"
proof -
  have "VR_Valid (ValidateEdgeAddition diamond 1 4 (\<lambda>i ks. ks))"
    and "\<not> VR_Valid (ValidateEdgeAddition diamond 4 1 (\<lambda>i ks. ks))"
    and "1 \<in> node_ids diamond \<and> 4 \<in> node_ids diamond"
    by code_simp+
  then show ?thesis
    using ValidateEdgeAddition_correct [OF graph_wf_closed [OF diamond_wf] ranger_ok_id, of 1 4]
      ValidateEdgeAddition_correct [OF graph_wf_closed [OF diamond_wf] ranger_ok_id, of 4 1] by blast
qed

text \<open>
  For a cyclic graph \<open>validateCycles\<close> reports one cycle error whose identifiers are exactly the
  nodes that a cycle reaches: the nodes on the cycles and the nodes downstream of them.
\<close>

theorem validateCycles_reports:
  assumes "graph_closed g" and "ranger_ok rng" and "\<not> acyclic (edge_rel g)"
  shows "\<exists>ids. validateCycles g rng = Return [(mkError ''CYCLE_DETECTED'' 0)\<lparr>VE_NodeIDs := ids\<rparr>] \<and>
    distinct ids \<and> set ids = cycle_reached g"
  using validateCycles_closed [OF assms(1,2)] assms(3) by simp

lemma lasso_closed: "graph_closed lasso"
  by code_simp

lemma lasso_cyclic: "\<not> acyclic (edge_rel lasso)"
proof -
  have "HasCycle lasso (range_over (\<lambda>i ks. ks) 0 (in_degrees lasso))" by code_simp
  then show ?thesis by (simp add: HasCycle_iff [OF lasso_closed])
qed

lemma cycle_error_ids:
  "Return [e\<lparr>VE_NodeIDs := xs\<rparr>] = (Return [e\<lparr>VE_NodeIDs := ys\<rparr>] :: ('a, ValidationError list) outcome) \<Longrightarrow> xs = ys"
  by (cases e) simp

theorem validateCycles_reports_witness: "3 \<in> cycle_reached lasso"
proof -
  have run: "validateCycles lasso (\<lambda>i ks. ks) = Return [(mkError ''CYCLE_DETECTED'' 0)\<lparr>VE_NodeIDs := [1, 2, 3]\<rparr>]"
    by code_simp
  obtain ids where ids: "validateCycles lasso (\<lambda>i ks. ks) =
        Return [(mkError ''CYCLE_DETECTED'' 0)\<lparr>VE_NodeIDs := ids\<rparr>]"
      "set ids = cycle_reached lasso"
    using validateCycles_reports [OF lasso_closed ranger_ok_id lasso_cyclic] by blast
  have "ids = [1, 2, 3]" using ids(1) unfolding run by (rule cycle_error_ids [symmetric])
  then show ?thesis by (simp flip: ids(2))
qed

end
