(* ===== verification/Dag_Executor.thy ===== *)
theory Dag_Executor
  imports Dag_Levels
begin

text \<open>
  The executor of \<^verbatim>\<open>internal/dag/executor.go\<close>. A handler is a function of the timeout of its
  context, the node and the inputs, and answers an error or an output (\<open>None\<close> is \<^verbatim>\<open>nil\<close>). What the
  code reads from the outside during a run is an argument: the observations of \<^verbatim>\<open>ctx.Done()\<close>
  before level \<open>k\<close> and in the goroutine of a node, the order in which the goroutines of a
  level finish (\<open>sched\<close>), and the orders of the \<^verbatim>\<open>range\<close> loops. The name of the graph and the
  measured durations of the results are left out.
\<close>

section \<open>Data\<close>

datatype NodeStatus = NodeStatusPending | NodeStatusRunning | NodeStatusCompleted | NodeStatusFailed | NodeStatusSkipped

record 'o NodeResult =
  NodeResult_NodeID :: uuid
  NodeResult_NodeName :: string
  NodeResult_Status :: NodeStatus
  NodeResult_Error :: string
  NodeResult_Output :: "'o option"

type_synonym 'o NodeHandler = "dur \<Rightarrow> Node \<Rightarrow> (uuid, 'o) gmap \<Rightarrow> string + 'o option"

datatype ExecutionPolicy = FailFast | ContinueOnFailure

record 'o DAGExecutor =
  DAGExecutor_handlers :: "(string, 'o NodeHandler) gmap"
  DAGExecutor_policy :: ExecutionPolicy
  DAGExecutor_defaultTimeout :: dur

record 'o ExecutionResult =
  ExecutionResult_Results :: "(uuid, 'o NodeResult) gmap"
  ExecutionResult_Success :: bool

record Done =
  Done_level :: "nat \<Rightarrow> bool"
  Done_node :: "nat \<Rightarrow> uuid \<Rightarrow> bool"

section \<open>Operations\<close>

definition NewDAGExecutor :: "'o DAGExecutor" where
  "NewDAGExecutor = \<lparr>DAGExecutor_handlers = gm_empty, DAGExecutor_policy = FailFast,
     DAGExecutor_defaultTimeout = 5 * Minute\<rparr>"

definition RegisterHandler :: "'o DAGExecutor \<Rightarrow> string \<Rightarrow> 'o NodeHandler \<Rightarrow> 'o DAGExecutor" where
  "RegisterHandler e name h = e\<lparr>DAGExecutor_handlers := gm_set name h (DAGExecutor_handlers e)\<rparr>"

definition SetExecutionPolicy :: "'o DAGExecutor \<Rightarrow> ExecutionPolicy \<Rightarrow> 'o DAGExecutor" where
  "SetExecutionPolicy e p = e\<lparr>DAGExecutor_policy := p\<rparr>"

definition SetDefaultTimeout :: "'o DAGExecutor \<Rightarrow> dur \<Rightarrow> 'o DAGExecutor" where
  "SetDefaultTimeout e t = e\<lparr>DAGExecutor_defaultTimeout := t\<rparr>"

definition resolveTimeout :: "'o DAGExecutor \<Rightarrow> Node \<Rightarrow> dur" where
  "resolveTimeout e n =
     (case gm_get (Node_Metadata n) ''timeout'' of
        Some (MDuration t) \<Rightarrow> t
      | _ \<Rightarrow> DAGExecutor_defaultTimeout e)"

definition executeNode :: "'o DAGExecutor \<Rightarrow> Node \<Rightarrow> (uuid, 'o) gmap \<Rightarrow> 'o NodeResult" where
  "executeNode e n inputs =
     (case gm_get (DAGExecutor_handlers e) (Node_Name n) of
        None \<Rightarrow> \<lparr>NodeResult_NodeID = Node_ID n, NodeResult_NodeName = Node_Name n,
          NodeResult_Status = NodeStatusCompleted, NodeResult_Error = [], NodeResult_Output = None\<rparr>
      | Some handler \<Rightarrow>
          (case handler (resolveTimeout e n) n inputs of
             Inl err \<Rightarrow> \<lparr>NodeResult_NodeID = Node_ID n, NodeResult_NodeName = Node_Name n,
               NodeResult_Status = NodeStatusFailed, NodeResult_Error = err, NodeResult_Output = None\<rparr>
           | Inr output \<Rightarrow> \<lparr>NodeResult_NodeID = Node_ID n, NodeResult_NodeName = Node_Name n,
               NodeResult_Status = NodeStatusCompleted, NodeResult_Error = [], NodeResult_Output = output\<rparr>))"

definition parentsFromGraph :: "Node \<Rightarrow> Graph option \<Rightarrow> Node list" where
  "parentsFromGraph n mg = (case mg of None \<Rightarrow> [] | Some g \<Rightarrow> Parents g (Node_ID n))"

definition collectInputs :: "Node \<Rightarrow> (uuid, 'o) gmap \<Rightarrow> (uuid, 'o) gmap" where
  "collectInputs n nodeOutputs =
     fold (\<lambda>p inputs. case gm_get nodeOutputs (Node_ID p) of
             Some out \<Rightarrow> gm_set (Node_ID p) out inputs | None \<Rightarrow> inputs)
       (parentsFromGraph n None) gm_empty"

definition cancelledResult :: "Node \<Rightarrow> 'o NodeResult" where
  "cancelledResult n = \<lparr>NodeResult_NodeID = Node_ID n, NodeResult_NodeName = Node_Name n,
     NodeResult_Status = NodeStatusSkipped, NodeResult_Error = ''execution cancelled'', NodeResult_Output = None\<rparr>"

definition storeOutput :: "uuid \<Rightarrow> 'o NodeResult \<Rightarrow> (uuid, 'o) gmap \<Rightarrow> (uuid, 'o) gmap" where
  "storeOutput nid r outs =
     (case NodeResult_Output r of
        Some out \<Rightarrow> if NodeResult_Status r = NodeStatusCompleted then gm_set nid out outs else outs
      | None \<Rightarrow> outs)"

text \<open>The body of the goroutine of one node, on the shared maps \<^verbatim>\<open>results\<close> and \<^verbatim>\<open>nodeOutputs\<close>.\<close>

definition level_goroutine ::
  "'o DAGExecutor \<Rightarrow> (uuid \<Rightarrow> bool) \<Rightarrow> Node \<Rightarrow> (uuid, 'o NodeResult) gmap \<times> (uuid, 'o) gmap \<Rightarrow>
    (uuid, 'o NodeResult) gmap \<times> (uuid, 'o) gmap" where
  "level_goroutine e done n = (\<lambda>(results, nodeOutputs).
     let inputs = collectInputs n nodeOutputs
     in if done (Node_ID n) then (gm_set (Node_ID n) (cancelledResult n) results, nodeOutputs)
        else let result = executeNode e n inputs
             in (gm_set (Node_ID n) result results, storeOutput (Node_ID n) result nodeOutputs))"

definition executeLevel ::
  "'o DAGExecutor \<Rightarrow> (uuid \<Rightarrow> bool) \<Rightarrow> Node list \<Rightarrow> (uuid, 'o) gmap \<Rightarrow>
    (uuid, 'o NodeResult) gmap \<times> (uuid, 'o) gmap" where
  "executeLevel e done level nodeOutputs = fold (level_goroutine e done) level (gm_empty, nodeOutputs)"

text \<open>
  The recursive closure \<^verbatim>\<open>markSkipped\<close>, with the calls that are still to be made on a stack: the
  head of the stack is the child whose turn it is in the innermost loop.
\<close>

definition skippedResult :: "Node \<Rightarrow> 'o NodeResult" where
  "skippedResult n = \<lparr>NodeResult_NodeID = Node_ID n, NodeResult_NodeName = Node_Name n,
     NodeResult_Status = NodeStatusSkipped, NodeResult_Error = ''dependency failed'', NodeResult_Output = None\<rparr>"

definition unvisited :: "Graph \<Rightarrow> Node list \<Rightarrow> uuid list \<Rightarrow> nat" where
  "unvisited g stack visited =
     card ((Node_ID ` (snd ` set (Graph_nodes g) \<union> set stack)) - set visited)"

lemma children_loop_nodes: "n \<in> set (children_loop g v es) \<Longrightarrow> n \<in> snd ` set (Graph_nodes g)"
  by (induction es) (force split: if_splits option.splits simp: gm_get_def dest: map_of_SomeD)+

lemma Children_nodes: "set (Children g v) \<subseteq> snd ` set (Graph_nodes g)"
  using children_loop_nodes by (force simp: Children_def)

lemma unvisited_pop: "unvisited g stack visited \<le> unvisited g (c # stack) visited"
  unfolding unvisited_def by (intro card_mono) auto

lemma unvisited_push:
  assumes "Node_ID c \<notin> set visited"
  shows "unvisited g (Children g (Node_ID c) @ stack) (Node_ID c # visited) < unvisited g (c # stack) visited"
  unfolding unvisited_def using assms Children_nodes [of g "Node_ID c"]
  by (intro psubset_card_mono) auto

function mark_loop ::
  "Graph \<Rightarrow> (uuid, 'o NodeResult) gmap \<Rightarrow> Node list \<Rightarrow> uuid list \<Rightarrow> (uuid, 'o NodeResult) gmap \<Rightarrow>
    uuid list \<times> (uuid, 'o NodeResult) gmap" where
  "mark_loop g results [] visited skipped = (visited, skipped)"
| "mark_loop g results (child # stack) visited skipped =
     (let skipped' = (if gm_has results (Node_ID child) then skipped
                      else gm_set (Node_ID child) (skippedResult child) skipped)
      in if Node_ID child \<in> set visited then mark_loop g results stack visited skipped'
         else mark_loop g results (Children g (Node_ID child) @ stack) (Node_ID child # visited) skipped')"
  by pat_completeness auto
termination
proof (relation "measures [\<lambda>(g, results, stack, visited, skipped). unvisited g stack visited,
      \<lambda>(g, results, stack, visited, skipped). length stack]", goal_cases)
  case 1 then show ?case by simp
next
  case (2 g results child stack visited skipped x)
  then show ?case using unvisited_pop [of g stack visited child] by (auto simp: le_less)
next
  case (3 g results child stack visited skipped x)
  then show ?case using unvisited_push [of child visited g stack] by simp
qed

definition markSkipped ::
  "Graph \<Rightarrow> (uuid, 'o NodeResult) gmap \<Rightarrow> uuid \<Rightarrow> uuid list \<times> (uuid, 'o NodeResult) gmap \<Rightarrow>
    uuid list \<times> (uuid, 'o NodeResult) gmap" where
  "markSkipped g results nid = (\<lambda>(visited, skipped).
     if nid \<in> set visited then (visited, skipped)
     else mark_loop g results (Children g nid) (nid # visited) skipped)"

definition skipDependents ::
  "Graph \<Rightarrow> Node list \<Rightarrow> (uuid, 'o NodeResult) gmap \<Rightarrow> (uuid, 'o NodeResult) gmap" where
  "skipDependents g failedLevel results =
     snd (fold (\<lambda>n st.
       case gm_get results (Node_ID n) of
         Some r \<Rightarrow> if NodeResult_Status r = NodeStatusFailed then markSkipped g results (Node_ID n) st else st
       | None \<Rightarrow> st) failedLevel ([], gm_empty))"

definition any_failed :: "(uuid \<times> 'o NodeResult) list \<Rightarrow> bool" where
  "any_failed rs = list_ex (\<lambda>(_, r). NodeResult_Status r = NodeStatusFailed) rs"

definition buildResult :: "(uuid, 'o NodeResult) gmap \<Rightarrow> uuid ranger \<Rightarrow> 'o ExecutionResult" where
  "buildResult results rng =
     \<lparr>ExecutionResult_Results = results, ExecutionResult_Success = (\<not> any_failed (range_items rng 2 results))\<rparr>"

text \<open>
  The loop over the levels; the boolean of the result tells whether \<^verbatim>\<open>ctx.Err()\<close> is returned. The
  \<^verbatim>\<open>range\<close> loops of level \<open>k\<close> have the numbers \<open>3 + 3 * k\<close> to \<open>5 + 3 * k\<close>.
\<close>

fun execute_levels ::
  "'o DAGExecutor \<Rightarrow> Graph \<Rightarrow> uuid ranger \<Rightarrow> (nat \<Rightarrow> Node list \<Rightarrow> Node list) \<Rightarrow> Done \<Rightarrow> nat \<Rightarrow> Node list list \<Rightarrow>
    (uuid, 'o NodeResult) gmap \<Rightarrow> (uuid, 'o) gmap \<Rightarrow> (uuid, 'o NodeResult) gmap \<times> bool" where
  "execute_levels e g rng sched ctx k [] results nodeOutputs = (results, False)"
| "execute_levels e g rng sched ctx k (level # levels) results nodeOutputs =
     (if Done_level ctx k then (results, True)
      else let (levelResults, outs) = executeLevel e (Done_node ctx k) (sched k level) nodeOutputs;
               results' = fold (\<lambda>(i, r). gm_set i r) (range_items rng (3 + 3 * k) levelResults) results;
               outs' = fold (\<lambda>(i, r). storeOutput i r) (range_items rng (3 + 3 * k) levelResults) outs;
               failures = filter (\<lambda>(_, r). NodeResult_Status r = NodeStatusFailed)
                 (range_items rng (4 + 3 * k) levelResults);
               hasFailure = (failures \<noteq> []);
               hasCriticalFailure = list_ex (\<lambda>(_, r). GraphNode g (NodeResult_NodeID r) \<noteq> None) failures
           in if hasCriticalFailure \<and> DAGExecutor_policy e = FailFast then (results', False)
              else if hasFailure \<and> DAGExecutor_policy e = FailFast
              then (fold (\<lambda>(i, r). gm_set i r)
                      (range_items rng (5 + 3 * k) (skipDependents g level results')) results', False)
              else execute_levels e g rng sched ctx (Suc k) levels results' outs')"

definition Execute ::
  "'o DAGExecutor \<Rightarrow> Graph \<Rightarrow> uuid ranger \<Rightarrow> (nat \<Rightarrow> Node list \<Rightarrow> Node list) \<Rightarrow> Done \<Rightarrow>
    (GraphError, 'o ExecutionResult \<times> bool) outcome" where
  "Execute e g rng sched ctx =
     (case Levels g (range_over rng 0 (in_degrees g)) (range_over rng 1 (in_degrees g)) of
        Error err \<Rightarrow> Error err
      | Panic \<Rightarrow> Panic
      | Return levels \<Rightarrow>
          (let (results, cancelled) = execute_levels e g rng sched ctx 0 levels gm_empty gm_empty
           in Return (buildResult results rng, cancelled)))"

section \<open>Definitions for the statements\<close>

text \<open>The result a node of level \<open>k\<close> gets when its level is executed.\<close>

definition level_result :: "'o DAGExecutor \<Rightarrow> Done \<Rightarrow> nat \<Rightarrow> Node \<Rightarrow> 'o NodeResult" where
  "level_result e ctx k n =
     (if Done_node ctx k (Node_ID n) then cancelledResult n else executeNode e n gm_empty)"

abbreviation failed :: "'o NodeResult \<Rightarrow> bool" where
  "failed r \<equiv> NodeResult_Status r = NodeStatusFailed"

text \<open>A closed \<^verbatim>\<open>Done\<close> channel stays closed: a goroutine that saw it closed is followed by a level that sees it.\<close>

definition done_stable :: "Done \<Rightarrow> bool" where
  "done_stable ctx \<longleftrightarrow> (\<forall>k x. Done_node ctx k x \<longrightarrow> Done_level ctx (Suc k))"

definition sched_ok :: "(nat \<Rightarrow> Node list \<Rightarrow> Node list) \<Rightarrow> bool" where
  "sched_ok sched \<longleftrightarrow> (\<forall>k ns. set (sched k ns) = set ns)"

text \<open>An executor for the diamond graph whose node \<open>b\<close> fails, and a context that is never cancelled.\<close>

definition diamond_exec :: "ExecutionPolicy \<Rightarrow> int DAGExecutor" where
  "diamond_exec p = SetExecutionPolicy (RegisterHandler (RegisterHandler NewDAGExecutor
     ''a'' (\<lambda>t n ins. Inr (Some 7))) ''b'' (\<lambda>t n ins. Inl ''boom'')) p"

definition never_done :: Done where
  "never_done = \<lparr>Done_level = \<lambda>k. False, Done_node = \<lambda>k x. False\<rparr>"

section \<open>Lemmas\<close>

lemma collectInputs_empty [simp]: "collectInputs n outs = gm_empty"
  by (simp add: collectInputs_def parentsFromGraph_def)

lemma executeNode_id [simp]: "NodeResult_NodeID (executeNode e n inputs) = Node_ID n"
  by (simp add: executeNode_def split: option.splits sum.splits)

lemma level_result_id [simp]: "NodeResult_NodeID (level_result e ctx k n) = Node_ID n"
  by (simp add: level_result_def cancelledResult_def)

lemma level_result_status:
  "NodeResult_Status (level_result e ctx k n) \<in> {NodeStatusCompleted, NodeStatusFailed} \<longleftrightarrow> \<not> Done_node ctx k (Node_ID n)"
  by (auto simp: level_result_def cancelledResult_def executeNode_def split: option.splits sum.splits)

lemma fst_level_goroutine:
  "fst (level_goroutine e (Done_node ctx k) n st) = gm_set (Node_ID n) (level_result e ctx k n) (fst st)"
  by (simp add: level_goroutine_def level_result_def Let_def split: prod.splits)

lemma executeLevel_fill:
  "fst (executeLevel e (Done_node ctx k) ns outs) =
    fold (\<lambda>n. gm_set (Node_ID n) (level_result e ctx k n)) ns gm_empty"
proof -
  have "fst (fold (level_goroutine e (Done_node ctx k)) ns st) =
      fold (\<lambda>n. gm_set (Node_ID n) (level_result e ctx k n)) ns (fst st)" for st
    by (induction ns arbitrary: st) (simp_all add: fst_level_goroutine)
  then show ?thesis by (simp add: executeLevel_def)
qed

lemma executeLevel_inv: "gm_inv (fst (executeLevel e (Done_node (ctx :: Done) k) ns outs))"
  by (simp add: executeLevel_fill gm.inv_fill gm.inv_empty)

lemma executeLevel_get:
  assumes "set ns' = set ns" and "inj_on Node_ID (set ns)"
  shows "gm_get (fst (executeLevel e (Done_node ctx k) ns' outs)) x = Some r \<longleftrightarrow>
    (\<exists>n \<in> set ns. Node_ID n = x \<and> r = level_result e ctx k n)"
proof (cases "x \<in> Node_ID ` set ns'")
  case True
  from gm.get_fill_in [OF this, of "level_result e ctx k" gm_empty] obtain n where
    n: "n \<in> set ns" "Node_ID n = x"
    "gm_get (fst (executeLevel e (Done_node ctx k) ns' outs)) x = Some (level_result e ctx k n)"
    using assms(1) by (auto simp: executeLevel_fill)
  then show ?thesis using assms(2) by (auto dest: inj_onD)
next
  case False
  then show ?thesis
    using gm.get_fill_notin [OF False, of "level_result e ctx k" gm_empty] assms(1)
    by (auto simp: executeLevel_fill gomap)
qed

text \<open>
  What the loop over the levels has done when it stops: \<open>m\<close> levels were executed, the results of
  their nodes are recorded, and there is a reason for every level left out.
\<close>

definition levels_outcome ::
  "'o DAGExecutor \<Rightarrow> Done \<Rightarrow> nat \<Rightarrow> Node list list \<Rightarrow> (uuid, 'o NodeResult) gmap \<Rightarrow> (uuid, 'o NodeResult) gmap \<Rightarrow>
    bool \<Rightarrow> nat \<Rightarrow> bool" where
  "levels_outcome e ctx k levels results0 results cancelled m \<longleftrightarrow>
     m \<le> length levels \<and>
     (\<forall>i < m. \<forall>n \<in> set (levels ! i). gm_get results (Node_ID n) = Some (level_result e ctx (k + i) n)) \<and>
     (\<forall>x. x \<notin> Node_ID ` set (concat (take m levels)) \<longrightarrow> gm_get results x = gm_get results0 x) \<and>
     (\<forall>i < m. \<not> Done_level ctx (k + i)) \<and>
     (DAGExecutor_policy e = FailFast \<longrightarrow>
        (\<forall>i. Suc i < m \<longrightarrow> (\<forall>n \<in> set (levels ! i). \<not> failed (level_result e ctx (k + i) n)))) \<and>
     (cancelled \<longrightarrow> m < length levels \<and> Done_level ctx (k + m)) \<and>
     (m < length levels \<and> \<not> cancelled \<longrightarrow> DAGExecutor_policy e = FailFast \<and> 0 < m \<and>
        (\<exists>n \<in> set (levels ! (m - 1)). failed (level_result e ctx (k + (m - 1)) n)))"

lemma levels_outcome_stop:
  "Done_level ctx k \<Longrightarrow> levels_outcome e ctx k (level # levels) results results True 0"
  by (simp add: levels_outcome_def)

lemma levels_outcome_nil: "levels_outcome e ctx k [] results results False 0"
  by (simp add: levels_outcome_def)

lemma levels_outcome_fail:
  assumes "\<And>n. n \<in> set level \<Longrightarrow> gm_get results (Node_ID n) = Some (level_result e ctx k n)"
    and "\<And>x. x \<notin> Node_ID ` set level \<Longrightarrow> gm_get results x = gm_get results0 x"
    and "\<not> Done_level ctx k" and "DAGExecutor_policy e = FailFast"
    and "n \<in> set level" and "failed (level_result e ctx k n)"
  shows "levels_outcome e ctx k (level # levels) results0 results False (Suc 0)"
  using assms by (auto simp: levels_outcome_def)

lemma levels_outcome_next:
  assumes lev: "\<And>n. n \<in> set level \<Longrightarrow> gm_get results1 (Node_ID n) = Some (level_result e ctx k n)"
    and old: "\<And>x. x \<notin> Node_ID ` set level \<Longrightarrow> gm_get results1 x = gm_get results0 x"
    and ndone: "\<not> Done_level ctx k"
    and pol: "DAGExecutor_policy e = FailFast \<Longrightarrow> (\<forall>n \<in> set level. \<not> failed (level_result e ctx k n))"
    and dist: "Node_ID ` set level \<inter> Node_ID ` set (concat levels) = {}"
    and rest: "levels_outcome e ctx (Suc k) levels results1 results cancelled m"
  shows "levels_outcome e ctx k (level # levels) results0 results cancelled (Suc m)"
proof -
  have sub: "set (concat (take m levels)) \<subseteq> set (concat levels)"
    by (metis concat_append append_take_drop_id set_append sup_ge1)
  have get: "gm_get results (Node_ID n) = Some (level_result e ctx (k + i) n)"
    if "i < Suc m" "n \<in> set ((level # levels) ! i)" for i n
  proof (cases i)
    case 0
    with that have n: "n \<in> set level" by simp
    then have "Node_ID n \<notin> Node_ID ` set (concat (take m levels))" using dist sub by blast
    with rest have "gm_get results (Node_ID n) = gm_get results1 (Node_ID n)"
      by (simp add: levels_outcome_def)
    with lev [OF n] 0 show ?thesis by simp
  next
    case (Suc j)
    with that rest show ?thesis by (simp add: levels_outcome_def)
  qed
  have "gm_get results x = gm_get results0 x" if "x \<notin> Node_ID ` set (concat (take (Suc m) (level # levels)))" for x
    using that rest old [of x] by (auto simp: levels_outcome_def image_Un)
  moreover have "\<not> Done_level ctx (k + i)" if "i < Suc m" for i
    using that rest ndone by (cases i) (auto simp: levels_outcome_def)
  moreover have "\<not> failed (level_result e ctx (k + i) n)"
    if "DAGExecutor_policy e = FailFast" "Suc i < Suc m" "n \<in> set ((level # levels) ! i)" for i n
    using that rest pol by (cases i) (auto simp: levels_outcome_def)
  moreover have "Suc m < length (level # levels) \<and> \<not> cancelled \<longrightarrow> DAGExecutor_policy e = FailFast \<and> 0 < Suc m \<and>
      (\<exists>n \<in> set ((level # levels) ! (Suc m - 1)). failed (level_result e ctx (k + (Suc m - 1)) n))"
    using rest by (cases m) (auto simp: levels_outcome_def)
  moreover have "Suc m \<le> length (level # levels)"
    and "cancelled \<longrightarrow> Suc m < length (level # levels) \<and> Done_level ctx (k + Suc m)"
    using rest by (auto simp: levels_outcome_def)
  ultimately show ?thesis using get unfolding levels_outcome_def by blast
qed

lemma concat_nodes_inj:
  assumes "\<And>n. n \<in> set ns \<Longrightarrow> in_graph g n"
  shows "inj_on Node_ID (set ns)"
  by (rule inj_onI) (metis assms in_graph_def option.inject)

lemma execute_levels_outcome:
  assumes "ranger_ok rng" and "sched_ok sched"
    and "distinct (map Node_ID (concat levels))" and "\<And>n. n \<in> set (concat levels) \<Longrightarrow> in_graph g n"
    and "execute_levels e g rng sched ctx k levels results0 outs = (results, cancelled)"
  shows "\<exists>m. levels_outcome e ctx k levels results0 results cancelled m"
  using assms(3-)
proof (induction levels arbitrary: k results0 outs)
  case Nil
  then show ?case using levels_outcome_nil by fastforce
next
  case (Cons level levels)
  obtain lr outs1 where lr: "executeLevel e (Done_node ctx k) (sched k level) outs = (lr, outs1)"
    by (cases "executeLevel e (Done_node ctx k) (sched k level) outs")
  define results1 where "results1 = fold (\<lambda>(i, r). gm_set i r) (range_items rng (3 + 3 * k) lr) results0"
  have inv: "gm_inv lr" using executeLevel_inv [of e ctx k "sched k level" outs] lr by simp
  have "inj_on Node_ID (set level)" using Cons.prems(2) by (intro concat_nodes_inj) auto
  moreover have "set (sched k level) = set level" using assms(2) by (simp add: sched_ok_def)
  ultimately have lr_get: "gm_get lr x = Some r \<longleftrightarrow> (\<exists>n \<in> set level. Node_ID n = x \<and> r = level_result e ctx k n)" for x r
    using executeLevel_get [of "sched k level" level e ctx k outs x r] lr by simp
  have get1: "gm_get results1 x = (case gm_get lr x of Some v \<Rightarrow> Some v | None \<Rightarrow> gm_get results0 x)" for x
    unfolding results1_def by (rule gm_get_fill_items [OF assms(1) inv])
  have lev: "gm_get results1 (Node_ID n) = Some (level_result e ctx k n)" if "n \<in> set level" for n
    using lr_get [of "Node_ID n" "level_result e ctx k n"] that by (auto simp: get1)
  have old: "gm_get results1 x = gm_get results0 x" if "x \<notin> Node_ID ` set level" for x
    using lr_get [of x] that by (force simp: get1 split: option.splits)
  let ?fs = "filter (\<lambda>(_, r). failed r) (range_items rng (4 + 3 * k) lr)"
  have fs: "?fs \<noteq> [] \<longleftrightarrow> (\<exists>n \<in> set level. failed (level_result e ctx k n))"
    by (auto simp: filter_empty_conv set_range_items [OF assms(1) inv] lr_get)
  have "\<forall>(i, r) \<in> set ?fs. GraphNode g (NodeResult_NodeID r) \<noteq> None"
    using Cons.prems(2) by (auto simp: set_range_items [OF assms(1) inv] lr_get GraphNode_def in_graph_def)
  then have crit: "list_ex (\<lambda>(_, r). GraphNode g (NodeResult_NodeID r) \<noteq> None) ?fs \<longleftrightarrow> ?fs \<noteq> []"
    by (cases ?fs) auto
  show ?case
  proof (cases "Done_level ctx k")
    case True
    with Cons.prems(3) show ?thesis using levels_outcome_stop by fastforce
  next
    case False
    show ?thesis
    proof (cases "DAGExecutor_policy e = FailFast \<and> ?fs \<noteq> []")
      case True
      with False crit Cons.prems(3) lr have "results = results1" "\<not> cancelled" by (auto simp: results1_def Let_def)
      moreover from True fs obtain n where "n \<in> set level" "failed (level_result e ctx k n)" by blast
      ultimately have "levels_outcome e ctx k (level # levels) results0 results cancelled (Suc 0)"
        using levels_outcome_fail [of level results1 e ctx k results0] lev old False True by simp
      then show ?thesis by blast
    next
      case ok: False
      let ?outs = "fold (\<lambda>(i, r). storeOutput i r) (range_items rng (3 + 3 * k) lr) outs1"
      have "execute_levels e g rng sched ctx (Suc k) levels results1 ?outs = (results, cancelled)"
        using Cons.prems(3) False ok lr by (auto simp: results1_def Let_def crit)
      with Cons.IH Cons.prems(1,2) obtain m where m: "levels_outcome e ctx (Suc k) levels results1 results cancelled m"
        by (metis UnCI concat.simps(2) distinct_append map_append set_append)
      have "Node_ID ` set level \<inter> Node_ID ` set (concat levels) = {}" using Cons.prems(1) by simp
      with ok fs have "levels_outcome e ctx k (level # levels) results0 results cancelled (Suc m)"
        using levels_outcome_next [of level results1 e ctx k results0 levels results cancelled m] lev old False m by blast
      then show ?thesis by blast
    qed
  qed
qed

lemma fill_items_inv: "gm_inv m \<Longrightarrow> gm_inv (fold (\<lambda>(i, r). gm_set i r) items m)"
  using gm.inv_fill [of m fst snd items] by (simp add: case_prod_unfold)

lemma execute_levels_inv:
  "gm_inv results0 \<Longrightarrow> gm_inv (fst (execute_levels e g rng sched ctx k levels results0 outs))"
  by (induction levels arbitrary: k results0 outs) (auto simp: Let_def fill_items_inv split: prod.splits)

lemma any_failed_iff:
  "ranger_ok rng \<Longrightarrow> gm_inv m \<Longrightarrow> any_failed (range_items rng i m) \<longleftrightarrow> (\<exists>x r. gm_get m x = Some r \<and> failed r)"
  by (auto simp: any_failed_def list_ex_iff set_range_items)

lemma Execute_levels:
  assumes "graph_closed g" and "acyclic (edge_rel g)" and "ranger_ok rng" and "sched_ok sched"
  obtains r cancelled m levels where "Execute e g rng sched ctx = Return (r, cancelled)"
    and "\<And>k n. k < length levels \<and> n \<in> set (levels ! k) \<longleftrightarrow> in_graph g n \<and> is_level g (Node_ID n) k"
    and "levels_outcome e ctx 0 levels gm_empty (ExecutionResult_Results r) cancelled m"
    and "ExecutionResult_Success r \<longleftrightarrow> (\<forall>x nr. gm_get (ExecutionResult_Results r) x = Some nr \<longrightarrow> \<not> failed nr)"
proof -
  let ?o1 = "range_over rng 0 (in_degrees g)" and ?o2 = "range_over rng 1 (in_degrees g)"
  have "gm_iter ?o1 (in_degrees g)" "gm_iter ?o2 (in_degrees g)"
    using assms(3) in_degrees_inv range_over_iter by blast+
  from Levels_spec [OF assms(1) this assms(2)] obtain levels where
    lev: "Levels g ?o1 ?o2 = Return levels" "distinct (map Node_ID (concat levels))" and
    set: "\<And>k n. k < length levels \<and> n \<in> set (levels ! k) \<longleftrightarrow> in_graph g n \<and> is_level g (Node_ID n) k"
    by blast
  obtain results cancelled where run: "execute_levels e g rng sched ctx 0 levels gm_empty gm_empty = (results, cancelled)"
    by (cases "execute_levels e g rng sched ctx 0 levels gm_empty gm_empty")
  have "in_graph g n" if "n \<in> set (concat levels)" for n
    using that set by (auto simp: in_set_conv_nth) (metis nth_mem)
  from execute_levels_outcome [OF assms(3,4) lev(2) this run] obtain m where
    "levels_outcome e ctx 0 levels gm_empty results cancelled m" by blast
  moreover have "Execute e g rng sched ctx = Return (buildResult results rng, cancelled)"
    using lev(1) run by (simp add: Execute_def del: One_nat_def)
  moreover have "gm_inv results" using execute_levels_inv [OF gm.inv_empty] run by (metis fst_conv)
  ultimately show thesis using set by (intro that [of "buildResult results rng" cancelled levels m])
      (auto simp: buildResult_def any_failed_iff [OF assms(3)])
qed

lemma levels_outcome_node:
  assumes "levels_outcome e ctx 0 levels gm_empty results cancelled m"
    and "\<And>k n. k < length levels \<and> n \<in> set (levels ! k) \<longleftrightarrow> in_graph g n \<and> is_level g (Node_ID n) k"
    and "in_graph g n" and "is_level g (Node_ID n) k"
  shows "gm_get results (Node_ID n) = (if k < m then Some (level_result e ctx k n) else None)"
proof -
  have k: "k < length levels" "n \<in> set (levels ! k)" using assms(2-4) by blast+
  have m: "m \<le> length levels" using assms(1) by (simp add: levels_outcome_def)
  show ?thesis
  proof (cases "k < m")
    case True
    with k assms(1) show ?thesis by (simp add: levels_outcome_def)
  next
    case False
    have "Node_ID n \<notin> Node_ID ` set (concat (take m levels))"
    proof
      assume "Node_ID n \<in> Node_ID ` set (concat (take m levels))"
      then obtain i n' where i: "i < m" "n' \<in> set (levels ! i)" "Node_ID n' = Node_ID n"
        using m by (auto simp: in_set_conv_nth) (metis nth_mem)
      with m have "is_level g (Node_ID n) i" using assms(2) [of i n'] by auto
      with i False is_level_unique [OF assms(4)] show False by blast
    qed
    with False assms(1) show ?thesis by (simp add: levels_outcome_def gomap)
  qed
qed

section \<open>Properties\<close>

text \<open>
  (C3) Under the fail-fast policy a node is run, or even touched, only when everything it depends
  on has completed: if the result of \<open>Execute\<close> has an entry for a node, every node with an edge
  to it has an entry with status completed. This holds for every order of the goroutines
  and whenever the context is cancelled.
\<close>

theorem Execute_dependencies_completed:
  assumes "graph_closed g" and "acyclic (edge_rel g)" and "ranger_ok rng" and "sched_ok sched" and "done_stable ctx"
    and "DAGExecutor_policy e = FailFast" and "Execute e g rng sched ctx = Return (r, cancelled)"
    and "(u, v) \<in> edge_rel g" and "gm_has (ExecutionResult_Results r) v"
  shows "\<exists>ru. gm_get (ExecutionResult_Results r) u = Some ru \<and> NodeResult_Status ru = NodeStatusCompleted"
proof -
  obtain m levels where set: "\<And>k n. k < length levels \<and> n \<in> set (levels ! k) \<longleftrightarrow> in_graph g n \<and> is_level g (Node_ID n) k"
    and out: "levels_outcome e ctx 0 levels gm_empty (ExecutionResult_Results r) cancelled m"
    using Execute_levels [OF assms(1-4), of e ctx] assms(7) by (metis outcome.inject(1) prod.inject)
  have "u \<in> node_ids g" "v \<in> node_ids g" using assms(1,8) graph_closed_edge by (auto simp: edge_rel_iff)
  then obtain nu nv i j where u: "in_graph g nu" "Node_ID nu = u" "is_level g u i"
    and v: "in_graph g nv" "Node_ID nv = v" "is_level g v j"
    using is_level_ex [OF assms(1,2)] graph_closed_node [OF assms(1)] by (metis in_graph_def)
  have "j < m" using levels_outcome_node [OF out set v(1)] v assms(9) by (auto simp: gm_has_def split: if_splits)
  moreover have "i < j" by (rule is_level_edge [OF assms(1,8) u(3) v(3)])
  ultimately have "Suc i < m" "i < m" by simp_all
  then have ok: "\<not> failed (level_result e ctx i nu)" "\<not> Done_level ctx (Suc i)"
    using out assms(6) set [of i nu] u by (auto simp: levels_outcome_def)
  then have "\<not> Done_node ctx i (Node_ID nu)" using assms(5) by (auto simp: done_stable_def)
  then have "NodeResult_Status (level_result e ctx i nu) = NodeStatusCompleted"
    using ok(1) level_result_status [of e ctx i nu] by auto
  then show ?thesis using levels_outcome_node [OF out set u(1)] u \<open>i < m\<close> by auto
qed

theorem Execute_dependencies_completed_witness:
  "\<exists>r. Execute (diamond_exec FailFast) diamond (\<lambda>i ks. ks) (\<lambda>k ns. rev ns) never_done = Return (r, False) \<and>
    gm_keys (ExecutionResult_Results r) = [1, 3, 2] \<and>
    (\<exists>ru. gm_get (ExecutionResult_Results r) 1 = Some ru \<and> NodeResult_Status ru = NodeStatusCompleted)"
proof -
  have "case Execute (diamond_exec FailFast) diamond (\<lambda>i ks. ks) (\<lambda>k ns. rev ns) never_done of
      Return (r, c) \<Rightarrow> \<not> c \<and> gm_keys (ExecutionResult_Results r) = [1, 3, 2] | _ \<Rightarrow> False"
    by code_simp
  then obtain r where r: "Execute (diamond_exec FailFast) diamond (\<lambda>i ks. ks) (\<lambda>k ns. rev ns) never_done = Return (r, False)"
      "gm_keys (ExecutionResult_Results r) = [1, 3, 2]"
    by (auto split: outcome.splits)
  have edge: "(1, 2) \<in> edge_rel diamond" by code_simp
  show ?thesis
    using Execute_dependencies_completed [OF graph_wf_closed [OF diamond_wf] diamond_acyclic ranger_ok_id _ _ _ r(1) edge] r
    by (auto simp: sched_ok_def done_stable_def never_done_def diamond_exec_def SetExecutionPolicy_def gm_has_keys)
qed

text \<open>
  (C6) Without cancellation and with the policy that continues on failure, \<open>Execute\<close> gives every
  node of an acyclic graph the result of its handler, called with no inputs at all, records
  nothing else, and reports success exactly when no node failed.
\<close>

theorem Execute_runs_all:
  assumes "graph_closed g" and "acyclic (edge_rel g)" and "ranger_ok rng" and "sched_ok sched"
    and "DAGExecutor_policy e = ContinueOnFailure" and "\<And>k. \<not> Done_level ctx k" and "\<And>k x. \<not> Done_node ctx k x"
  shows "\<exists>r. Execute e g rng sched ctx = Return (r, False) \<and>
    (\<forall>x. gm_get (ExecutionResult_Results r) x = map_option (\<lambda>n. executeNode e n gm_empty) (GraphNode g x)) \<and>
    (ExecutionResult_Success r \<longleftrightarrow> (\<forall>n. in_graph g n \<longrightarrow> \<not> failed (executeNode e n gm_empty)))"
proof -
  obtain r cancelled m levels where run: "Execute e g rng sched ctx = Return (r, cancelled)"
    and set: "\<And>k n. k < length levels \<and> n \<in> set (levels ! k) \<longleftrightarrow> in_graph g n \<and> is_level g (Node_ID n) k"
    and out: "levels_outcome e ctx 0 levels gm_empty (ExecutionResult_Results r) cancelled m"
    and r: "ExecutionResult_Success r \<longleftrightarrow> (\<forall>x nr. gm_get (ExecutionResult_Results r) x = Some nr \<longrightarrow> \<not> failed nr)"
    using Execute_levels [OF assms(1-4)] by metis
  have m: "m = length levels" "\<not> cancelled" using out assms(5,6) by (auto simp: levels_outcome_def)
  have "gm_get (ExecutionResult_Results r) x = map_option (\<lambda>n. executeNode e n gm_empty) (GraphNode g x)" for x
  proof (cases "GraphNode g x")
    case None
    then have "x \<notin> Node_ID ` set (concat (take m levels))"
      using m set by (auto simp: in_set_conv_nth GraphNode_def in_graph_def) (metis nth_mem option.distinct(1))
    with out None show ?thesis by (simp add: levels_outcome_def gomap)
  next
    case (Some n)
    then have n: "in_graph g n" "Node_ID n = x" "x \<in> node_ids g"
      using graph_closed_node [OF assms(1), of x]
      by (auto simp: GraphNode_def in_graph_def node_ids_def gm_has_def simp flip: gm_has_keys)
    then obtain k where k: "is_level g (Node_ID n) k" using is_level_ex [OF assms(1,2)] by metis
    with n set [of k n] m have "k < m" by blast
    with levels_outcome_node [OF out set n(1) k] n Some show ?thesis
      by (simp add: level_result_def assms(7))
  qed
  moreover from this have "ExecutionResult_Success r \<longleftrightarrow> (\<forall>n. in_graph g n \<longrightarrow> \<not> failed (executeNode e n gm_empty))"
    unfolding r by (auto simp: GraphNode_def in_graph_def split: option.splits)
      (metis assms(1) gm_get_keys graph_closed_node node_ids_def option.distinct(1) option.inject)
  ultimately show ?thesis using run m(2) by (intro exI [of _ r]) simp
qed

theorem Execute_runs_all_witness:
  "\<exists>r. Execute (diamond_exec ContinueOnFailure) diamond (\<lambda>i ks. ks) (\<lambda>k ns. rev ns) never_done = Return (r, False) \<and>
    gm_get (ExecutionResult_Results r) 4 = Some (executeNode (diamond_exec ContinueOnFailure) (mkNode 4 ''d'') gm_empty)"
proof -
  have "GraphNode diamond 4 = Some (mkNode 4 ''d'')" by code_simp
  then show ?thesis
    using Execute_runs_all [OF graph_wf_closed [OF diamond_wf] diamond_acyclic ranger_ok_id,
        of "\<lambda>k ns. rev ns" "diamond_exec ContinueOnFailure" never_done]
    by (auto simp: sched_ok_def never_done_def diamond_exec_def SetExecutionPolicy_def)
qed

end
