(* ===== verification/Circuit_Breaker.thy ===== *)
theory Circuit_Breaker
  imports Prelude
begin

text \<open>
  The circuit breaker of \<^verbatim>\<open>internal/circuit/breaker.go\<close>. The counters keep their widths, so that
  additions wrap. A call is two steps, as other calls and the probe loop run between them: the
  entry, up to the call of \<^verbatim>\<open>fn\<close>, and the recording of its result. Readings of the clock are
  arguments; the calls of \<^verbatim>\<open>OnStateChange\<close> are collected in a list, the last one first. Starting
  and stopping the ticker is left out: a tick is a step of the probe loop.
\<close>

section \<open>Data\<close>

datatype State = StateClosed | StateOpen | StateHalfOpen

record Config =
  Config_FailureThreshold :: "32 word"
  Config_SuccessThreshold :: "32 word"
  Config_Timeout :: dur
  Config_HalfOpenMaxCalls :: "32 word"
  Config_HalfOpenProbeInterval :: dur

record CircuitBreaker =
  CB_config :: Config
  CB_state :: State
  CB_failures :: "32 word"
  CB_successes :: "32 word"
  CB_totalCalls :: "64 word"
  CB_failedCalls :: "64 word"
  CB_successCalls :: "64 word"
  CB_openCount :: "64 word"
  CB_lastFailure :: gotime
  CB_lastStateChange :: gotime
  CB_changes :: "(State \<times> State) list"

datatype CallError = ErrCircuitOpen | ErrTooManyRequests

section \<open>Operations\<close>

definition NewConfig :: Config where
  "NewConfig = \<lparr>Config_FailureThreshold = 5, Config_SuccessThreshold = 3, Config_Timeout = 30 * Second,
     Config_HalfOpenMaxCalls = 1, Config_HalfOpenProbeInterval = 5 * Second\<rparr>"

definition New :: "Config \<Rightarrow> gotime \<Rightarrow> CircuitBreaker" where
  "New c now =
     (let c' = \<lparr>Config_FailureThreshold = (if Config_FailureThreshold c = 0 then 5 else Config_FailureThreshold c),
                Config_SuccessThreshold = (if Config_SuccessThreshold c = 0 then 3 else Config_SuccessThreshold c),
                Config_Timeout = (if Config_Timeout c = 0 then 30 * Second else Config_Timeout c),
                Config_HalfOpenMaxCalls = (if Config_HalfOpenMaxCalls c = 0 then 1 else Config_HalfOpenMaxCalls c),
                Config_HalfOpenProbeInterval =
                  (if Config_HalfOpenProbeInterval c = 0 then 5 * Second else Config_HalfOpenProbeInterval c)\<rparr>
      in \<lparr>CB_config = c', CB_state = StateClosed, CB_failures = 0, CB_successes = 0, CB_totalCalls = 0,
          CB_failedCalls = 0, CB_successCalls = 0, CB_openCount = 0, CB_lastFailure = 0,
          CB_lastStateChange = now, CB_changes = []\<rparr>)"

definition setState :: "State \<Rightarrow> gotime \<Rightarrow> CircuitBreaker \<Rightarrow> CircuitBreaker" where
  "setState new now cb =
     (let old = CB_state cb
      in if old = new then cb
         else let cb1 = cb\<lparr>CB_state := new, CB_lastStateChange := now, CB_failures := 0, CB_successes := 0\<rparr>;
                  cb2 = (if new = StateOpen then cb1\<lparr>CB_openCount := CB_openCount cb1 + 1\<rparr> else cb1)
              in cb2\<lparr>CB_changes := (old, new) # CB_changes cb2\<rparr>)"

definition reset :: "gotime \<Rightarrow> CircuitBreaker \<Rightarrow> CircuitBreaker" where
  "reset now cb = cb\<lparr>CB_state := StateClosed, CB_failures := 0, CB_successes := 0, CB_lastStateChange := now,
     CB_changes := (StateHalfOpen, StateClosed) # CB_changes cb\<rparr>"

definition timed_out :: "gotime \<Rightarrow> CircuitBreaker \<Rightarrow> bool" where
  "timed_out now cb \<longleftrightarrow> 0 < Config_Timeout (CB_config cb) \<and>
     Config_Timeout (CB_config cb) < time_Sub now (CB_lastStateChange cb)"

definition ready :: "gotime \<Rightarrow> CircuitBreaker \<Rightarrow> bool \<times> CircuitBreaker" where
  "ready now cb =
     (case CB_state cb of
        StateClosed \<Rightarrow> (True, cb)
      | StateOpen \<Rightarrow> if timed_out now cb then (True, setState StateHalfOpen now cb) else (False, cb)
      | StateHalfOpen \<Rightarrow>
          (let total = CB_failures cb + CB_successes cb
           in (\<not> Config_HalfOpenMaxCalls (CB_config cb) \<le> total, cb)))"

definition recordFailure :: "gotime \<Rightarrow> CircuitBreaker \<Rightarrow> CircuitBreaker" where
  "recordFailure now cb =
     (let cb1 = cb\<lparr>CB_failedCalls := CB_failedCalls cb + 1, CB_lastFailure := now\<rparr>
      in case CB_state cb1 of
           StateHalfOpen \<Rightarrow> setState StateOpen now (cb1\<lparr>CB_failures := CB_failures cb1 + 1\<rparr>)
         | StateClosed \<Rightarrow>
             (let cb2 = cb1\<lparr>CB_failures := CB_failures cb1 + 1\<rparr>
              in if Config_FailureThreshold (CB_config cb2) \<le> CB_failures cb2
                 then setState StateOpen now cb2 else cb2)
         | StateOpen \<Rightarrow> cb1)"

definition recordSuccess :: "gotime \<Rightarrow> CircuitBreaker \<Rightarrow> CircuitBreaker" where
  "recordSuccess now cb =
     (let cb1 = cb\<lparr>CB_successCalls := CB_successCalls cb + 1\<rparr>
      in case CB_state cb1 of
           StateHalfOpen \<Rightarrow>
             (let cb2 = cb1\<lparr>CB_successes := CB_successes cb1 + 1\<rparr>
              in if Config_SuccessThreshold (CB_config cb2) \<le> CB_successes cb2 then reset now cb2 else cb2)
         | StateClosed \<Rightarrow> cb1\<lparr>CB_failures := 0\<rparr>
         | StateOpen \<Rightarrow> cb1)"

text \<open>The entry of \<^verbatim>\<open>Call\<close>: whether \<^verbatim>\<open>fn\<close> is called. A call that is not admitted returns \<open>ErrCircuitOpen\<close>.\<close>

definition Call_enter :: "gotime \<Rightarrow> CircuitBreaker \<Rightarrow> bool \<times> CircuitBreaker" where
  "Call_enter now cb =
     (let (ok, cb1) = ready now (cb\<lparr>CB_totalCalls := CB_totalCalls cb + 1\<rparr>)
      in if ok then (True, cb1) else (False, cb1\<lparr>CB_failedCalls := CB_failedCalls cb1 + 1\<rparr>))"

definition Call_return :: "gotime \<Rightarrow> ('e + 'r) \<Rightarrow> CircuitBreaker \<Rightarrow> CircuitBreaker" where
  "Call_return now res cb = (case res of Inl _ \<Rightarrow> recordFailure now cb | Inr _ \<Rightarrow> recordSuccess now cb)"

text \<open>\<^verbatim>\<open>Call\<close> when nothing else happens between its two steps.\<close>

definition Call :: "gotime \<Rightarrow> gotime \<Rightarrow> ('e + 'r) \<Rightarrow> CircuitBreaker \<Rightarrow> ((CallError + 'e) + 'r) \<times> CircuitBreaker" where
  "Call now now' res cb =
     (let (ok, cb1) = Call_enter now cb
      in if \<not> ok then (Inl (Inl ErrCircuitOpen), cb1)
         else ((case res of Inl e \<Rightarrow> Inl (Inr e) | Inr r \<Rightarrow> Inr r), Call_return now' res cb1))"

definition probe_tick :: "gotime \<Rightarrow> CircuitBreaker \<Rightarrow> CircuitBreaker" where
  "probe_tick now cb =
     (if CB_state cb = StateOpen \<and> timed_out now cb then setState StateHalfOpen now cb else cb)"

record MetricSnapshot =
  Metric_State :: State
  Metric_TotalCalls :: "64 word"
  Metric_FailedCalls :: "64 word"
  Metric_SuccessCalls :: "64 word"
  Metric_OpenCount :: "64 word"
  Metric_LastFailure :: gotime
  Metric_LastStateChange :: gotime

definition Metrics :: "CircuitBreaker \<Rightarrow> MetricSnapshot" where
  "Metrics cb = \<lparr>Metric_State = CB_state cb, Metric_TotalCalls = CB_totalCalls cb,
     Metric_FailedCalls = CB_failedCalls cb, Metric_SuccessCalls = CB_successCalls cb,
     Metric_OpenCount = CB_openCount cb, Metric_LastFailure = CB_lastFailure cb,
     Metric_LastStateChange = CB_lastStateChange cb\<rparr>"

section \<open>Calls that overlap\<close>

text \<open>
  The steps of a breaker that many goroutines share; the number counts the calls that are between
  their two steps.
\<close>

inductive cb_step :: "CircuitBreaker \<times> nat \<Rightarrow> CircuitBreaker \<times> nat \<Rightarrow> bool" where
  admit: "Call_enter now cb = (True, cb') \<Longrightarrow> cb_step (cb, p) (cb', Suc p)"
| reject: "Call_enter now cb = (False, cb') \<Longrightarrow> cb_step (cb, p) (cb', p)"
| ret_err: "cb_step (cb, Suc p) (recordFailure now cb, p)"
| ret_ok: "cb_step (cb, Suc p) (recordSuccess now cb, p)"
| tick: "cb_step (cb, p) (probe_tick now cb, p)"

inductive cb_path :: "CircuitBreaker \<times> nat \<Rightarrow> CircuitBreaker \<times> nat \<Rightarrow> bool" where
  refl: "cb_path s s"
| step: "cb_path s t \<Longrightarrow> cb_step t u \<Longrightarrow> cb_path s u"

inductive_cases cb_stepE: "cb_step (cb, p) (cb', p')"

section \<open>Specification\<close>

text \<open>The numbers of failures and successes that the state of the breaker admits.\<close>

definition breaker_inv :: "CircuitBreaker \<Rightarrow> bool" where
  "breaker_inv cb \<longleftrightarrow>
     0 < Config_FailureThreshold (CB_config cb) \<and> 0 < Config_SuccessThreshold (CB_config cb) \<and>
     0 < Config_HalfOpenMaxCalls (CB_config cb) \<and>
     (case CB_state cb of
        StateClosed \<Rightarrow> CB_failures cb < Config_FailureThreshold (CB_config cb) \<and> CB_successes cb = 0
      | StateOpen \<Rightarrow> CB_failures cb = 0 \<and> CB_successes cb = 0
      | StateHalfOpen \<Rightarrow> CB_failures cb = 0 \<and> CB_successes cb < Config_SuccessThreshold (CB_config cb))"

text \<open>
  What the breaker promises: closed with a number of consecutive failures, open since an instant,
  or half open with a number of successes.
\<close>

datatype breaker = Closed nat | Open gotime | HalfOpen nat

definition abs_breaker :: "CircuitBreaker \<Rightarrow> breaker" where
  "abs_breaker cb =
     (case CB_state cb of
        StateClosed \<Rightarrow> Closed (unat (CB_failures cb))
      | StateOpen \<Rightarrow> Open (CB_lastStateChange cb)
      | StateHalfOpen \<Rightarrow> HalfOpen (unat (CB_successes cb)))"

definition breaker_wake :: "Config \<Rightarrow> gotime \<Rightarrow> breaker \<Rightarrow> breaker" where
  "breaker_wake c now b =
     (case b of Open t \<Rightarrow> if 0 < Config_Timeout c \<and> Config_Timeout c < time_Sub now t then HalfOpen 0 else b | _ \<Rightarrow> b)"

definition breaker_admits :: "Config \<Rightarrow> breaker \<Rightarrow> bool" where
  "breaker_admits c b =
     (case b of Closed _ \<Rightarrow> True | Open _ \<Rightarrow> False | HalfOpen n \<Rightarrow> n < unat (Config_HalfOpenMaxCalls c))"

definition breaker_fail :: "Config \<Rightarrow> gotime \<Rightarrow> breaker \<Rightarrow> breaker" where
  "breaker_fail c now b =
     (case b of
        Closed n \<Rightarrow> if unat (Config_FailureThreshold c) \<le> Suc n then Open now else Closed (Suc n)
      | Open t \<Rightarrow> Open t
      | HalfOpen n \<Rightarrow> Open now)"

definition breaker_succeed :: "Config \<Rightarrow> breaker \<Rightarrow> breaker" where
  "breaker_succeed c b =
     (case b of
        Closed n \<Rightarrow> Closed 0
      | Open t \<Rightarrow> Open t
      | HalfOpen n \<Rightarrow> if unat (Config_SuccessThreshold c) \<le> Suc n then Closed 0 else HalfOpen (Suc n))"

fun calls :: "(gotime \<times> gotime \<times> ('e + 'r)) list \<Rightarrow> CircuitBreaker \<Rightarrow> ((CallError + 'e) + 'r) list \<times> CircuitBreaker" where
  "calls [] cb = ([], cb)"
| "calls ((now, now', res) # cs) cb =
     (let (r, cb1) = Call now now' res cb; (rs, cb2) = calls cs cb1 in (r # rs, cb2))"

text \<open>Every call is counted once, as a success, as a failure, or as not yet returned.\<close>

definition accounted :: "CircuitBreaker \<times> nat \<Rightarrow> bool" where
  "accounted s \<longleftrightarrow>
     CB_totalCalls (fst s) = CB_successCalls (fst s) + CB_failedCalls (fst s) + of_nat (snd s)"

text \<open>Half open with the limit of calls used up and no call running.\<close>

definition stuck :: "CircuitBreaker \<times> nat \<Rightarrow> bool" where
  "stuck s \<longleftrightarrow> snd s = 0 \<and> breaker_inv (fst s) \<and> CB_state (fst s) = StateHalfOpen \<and>
     Config_HalfOpenMaxCalls (CB_config (fst s)) \<le> CB_successes (fst s)"

text \<open>Examples: the default configuration after five failures, the timeout and a success; an open breaker.\<close>

definition default_run :: CircuitBreaker where
  "default_run = snd (calls (replicate 5 (1, 1, Inl ()) @ [(32 * Second, 32 * Second, Inr () :: unit + unit)]) (New NewConfig 0))"

definition open_breaker :: CircuitBreaker where
  "open_breaker = snd (calls (replicate 5 (1, 1, Inl () :: unit + unit)) (New (NewConfig\<lparr>Config_HalfOpenMaxCalls := 3\<rparr>) 0))"

section \<open>Lemmas\<close>

lemmas cb_ops = setState_def reset_def ready_def recordFailure_def recordSuccess_def Call_enter_def
  Call_return_def probe_tick_def Let_def

lemma New_inv: "breaker_inv (New c now)"
  by (simp add: New_def breaker_inv_def Let_def word_gt_0)

lemma word_less_Suc:
  fixes a b :: "'a :: len word"
  assumes "a < b"
  shows "unat (a + 1) = Suc (unat a)"
proof -
  have "unat b < 2 ^ LENGTH('a)" by (rule unsigned_less)
  with assms have "Suc (unat a) < 2 ^ LENGTH('a)" by (simp only: word_less_nat_alt)
  then show ?thesis by (simp add: unat_word_ariths)
qed

lemma ready_inv: "breaker_inv cb \<Longrightarrow> breaker_inv (snd (ready now cb))"
  by (cases "CB_state cb") (simp_all add: breaker_inv_def cb_ops linorder_not_le)

lemma breaker_inv_counters [simp]:
  "breaker_inv (cb\<lparr>CB_totalCalls := x\<rparr>) \<longleftrightarrow> breaker_inv cb"
  "breaker_inv (cb\<lparr>CB_failedCalls := x\<rparr>) \<longleftrightarrow> breaker_inv cb"
  by (cases "CB_state cb"; simp add: breaker_inv_def)+

lemma Call_enter_inv: "breaker_inv cb \<Longrightarrow> breaker_inv (snd (Call_enter now cb))"
  using ready_inv [of "cb\<lparr>CB_totalCalls := CB_totalCalls cb + 1\<rparr>" now]
  by (auto simp: Call_enter_def split: prod.splits)

lemma recordFailure_inv: "breaker_inv cb \<Longrightarrow> breaker_inv (recordFailure now cb)"
  by (cases "CB_state cb") (simp_all add: breaker_inv_def cb_ops linorder_not_le)

lemma recordSuccess_inv: "breaker_inv cb \<Longrightarrow> breaker_inv (recordSuccess now cb)"
  by (cases "CB_state cb") (simp_all add: breaker_inv_def cb_ops linorder_not_le)

lemma Call_return_inv: "breaker_inv cb \<Longrightarrow> breaker_inv (Call_return now res cb)"
  by (simp add: Call_return_def recordFailure_inv recordSuccess_inv split: sum.splits)

lemma probe_tick_inv: "breaker_inv cb \<Longrightarrow> breaker_inv (probe_tick now cb)"
  by (cases "CB_state cb") (simp_all add: breaker_inv_def cb_ops linorder_not_le)

lemma cb_step_inv: "cb_step s t \<Longrightarrow> breaker_inv (fst s) \<Longrightarrow> breaker_inv (fst t)"
  by (induction rule: cb_step.induct)
    (simp_all add: recordFailure_inv recordSuccess_inv probe_tick_inv, (metis Call_enter_inv snd_conv)+)

lemma CB_config_ops [simp]:
  "CB_config (setState st now cb) = CB_config cb" "CB_config (snd (ready now cb)) = CB_config cb"
  "CB_config (recordFailure now cb) = CB_config cb" "CB_config (recordSuccess now cb) = CB_config cb"
  "CB_config (snd (Call_enter now cb)) = CB_config cb"
  by (cases "CB_state cb"; simp add: cb_ops split: prod.splits)+

lemma abs_enter:
  assumes "breaker_inv cb"
  shows "abs_breaker (snd (Call_enter now cb)) = breaker_wake (CB_config cb) now (abs_breaker cb)"
    and "fst (Call_enter now cb) = breaker_admits (CB_config cb) (breaker_wake (CB_config cb) now (abs_breaker cb))"
  using assms
  by (cases "CB_state cb"; simp add: abs_breaker_def breaker_wake_def breaker_admits_def breaker_inv_def
      timed_out_def cb_ops word_le_nat_alt word_less_nat_alt)+

lemma abs_fail:
  assumes "breaker_inv cb"
  shows "abs_breaker (recordFailure now cb) = breaker_fail (CB_config cb) now (abs_breaker cb)"
proof (cases "CB_state cb")
  case StateClosed
  with assms have lt: "CB_failures cb < Config_FailureThreshold (CB_config cb)" by (simp add: breaker_inv_def)
  then show ?thesis
    using StateClosed word_less_Suc [OF lt]
    by (simp add: abs_breaker_def breaker_fail_def cb_ops word_le_nat_alt)
qed (simp_all add: abs_breaker_def breaker_fail_def cb_ops)

lemma abs_succeed:
  assumes "breaker_inv cb"
  shows "abs_breaker (recordSuccess now cb) = breaker_succeed (CB_config cb) (abs_breaker cb)"
proof (cases "CB_state cb")
  case StateHalfOpen
  with assms have lt: "CB_successes cb < Config_SuccessThreshold (CB_config cb)" by (simp add: breaker_inv_def)
  then show ?thesis
    using StateHalfOpen word_less_Suc [OF lt]
    by (simp add: abs_breaker_def breaker_succeed_def cb_ops word_le_nat_alt)
qed (simp_all add: abs_breaker_def breaker_succeed_def cb_ops)

lemma abs_tick: "abs_breaker (probe_tick now cb) = breaker_wake (CB_config cb) now (abs_breaker cb)"
  by (cases "CB_state cb") (simp_all add: abs_breaker_def breaker_wake_def timed_out_def cb_ops)

lemma ready_counters:
  "CB_totalCalls (snd (ready now cb)) = CB_totalCalls cb"
  "CB_failedCalls (snd (ready now cb)) = CB_failedCalls cb"
  "CB_successCalls (snd (ready now cb)) = CB_successCalls cb"
  by (cases "CB_state cb"; simp add: cb_ops)+

lemma Call_enter_counters:
  assumes "Call_enter now cb = (ok, cb')"
  shows "CB_totalCalls cb' = CB_totalCalls cb + 1" and "CB_successCalls cb' = CB_successCalls cb"
    and "CB_failedCalls cb' = CB_failedCalls cb + (if ok then 0 else 1)"
  using assms ready_counters [of now "cb\<lparr>CB_totalCalls := CB_totalCalls cb + 1\<rparr>"]
  by (auto simp: Call_enter_def split: prod.splits if_splits)

lemma record_counters [simp]:
  "CB_totalCalls (recordFailure now cb) = CB_totalCalls cb"
  "CB_successCalls (recordFailure now cb) = CB_successCalls cb"
  "CB_failedCalls (recordFailure now cb) = CB_failedCalls cb + 1"
  "CB_totalCalls (recordSuccess now cb) = CB_totalCalls cb"
  "CB_successCalls (recordSuccess now cb) = CB_successCalls cb + 1"
  "CB_failedCalls (recordSuccess now cb) = CB_failedCalls cb"
  "CB_totalCalls (probe_tick now cb) = CB_totalCalls cb"
  "CB_successCalls (probe_tick now cb) = CB_successCalls cb"
  "CB_failedCalls (probe_tick now cb) = CB_failedCalls cb"
  by (cases "CB_state cb"; simp add: cb_ops)+

lemma cb_step_accounted: "cb_step s t \<Longrightarrow> accounted s \<Longrightarrow> accounted t"
  by (induction rule: cb_step.induct) (auto simp: accounted_def Call_enter_counters)

lemma cb_path_inv: "cb_path s t \<Longrightarrow> breaker_inv (fst s) \<Longrightarrow> breaker_inv (fst t)"
  by (induction rule: cb_path.induct) (auto simp: cb_step_inv)

lemma cb_path_accounted: "cb_path s t \<Longrightarrow> accounted s \<Longrightarrow> accounted t"
  by (induction rule: cb_path.induct) (auto simp: cb_step_accounted)

lemma stuck_rejects: "stuck (cb, p) \<Longrightarrow> \<not> fst (Call_enter now cb)"
  by (auto simp: stuck_def breaker_inv_def cb_ops)

lemma stuck_step: "cb_step s t \<Longrightarrow> stuck s \<Longrightarrow> stuck t"
proof (induction rule: cb_step.induct)
  case (admit now cb cb' p)
  with stuck_rejects [of cb p now] show ?case by simp
next
  case (reject now cb cb' p)
  then show ?case by (auto simp: stuck_def breaker_inv_def cb_ops)
next
  case (tick cb p now)
  then show ?case by (simp add: stuck_def cb_ops)
qed (simp_all add: stuck_def)

lemma stuck_path: "cb_path s t \<Longrightarrow> stuck s \<Longrightarrow> stuck t"
  by (induction rule: cb_path.induct) (auto simp: stuck_step)

lemma Call_success:
  assumes "breaker_inv cb" and "breaker_admits (CB_config cb) (breaker_wake (CB_config cb) now (abs_breaker cb))"
    and "Call now now' (Inr r) cb = (res, cb')"
  shows "res = Inr r" and "breaker_inv cb'" and "CB_config cb' = CB_config cb"
    and "abs_breaker cb' = breaker_succeed (CB_config cb) (breaker_wake (CB_config cb) now (abs_breaker cb))"
proof -
  obtain cb1 where e: "Call_enter now cb = (True, cb1)"
    using abs_enter(2) [OF assms(1), of now] assms(2) by (cases "Call_enter now cb") simp
  have cb1: "breaker_inv cb1" "CB_config cb1 = CB_config cb"
      "abs_breaker cb1 = breaker_wake (CB_config cb) now (abs_breaker cb)"
    using Call_enter_inv [OF assms(1), of now] abs_enter(1) [OF assms(1), of now] CB_config_ops(5) [of now cb] e by simp_all
  have "res = Inr r" "cb' = recordSuccess now' cb1" using assms(3) e by (simp_all add: Call_def Call_return_def)
  then show "res = Inr r" "breaker_inv cb'" "CB_config cb' = CB_config cb"
    "abs_breaker cb' = breaker_succeed (CB_config cb) (breaker_wake (CB_config cb) now (abs_breaker cb))"
    using cb1 abs_succeed [OF cb1(1)] by (simp_all add: recordSuccess_inv)
qed

lemma half_open_recovers:
  fixes r :: 'r
  assumes "breaker_inv cb" and "abs_breaker cb = HalfOpen n"
    and "Config_SuccessThreshold (CB_config cb) \<le> Config_HalfOpenMaxCalls (CB_config cb)"
    and "n + length ts = unat (Config_SuccessThreshold (CB_config cb))" and "ts \<noteq> []"
  shows "CB_state (snd (calls (map (\<lambda>(t, t'). (t, t', Inr r :: 'e + 'r)) ts) cb)) = StateClosed"
  using assms
proof (induction ts arbitrary: cb n)
  case (Cons tt ts)
  obtain t t' where tt: "tt = (t, t')" by (cases tt)
  obtain res cb1 where c: "Call t t' (Inr r :: 'e + 'r) cb = (res, cb1)" by (cases "Call t t' (Inr r :: 'e + 'r) cb")
  have adm: "breaker_admits (CB_config cb) (breaker_wake (CB_config cb) t (abs_breaker cb))"
    using Cons.prems(2-4) by (simp add: breaker_admits_def breaker_wake_def word_le_nat_alt)
  note cb1 = Call_success [OF Cons.prems(1) adm c]
  show ?case
  proof (cases "ts = []")
    case True
    with Cons.prems cb1(4) have "abs_breaker cb1 = Closed 0"
      by (simp add: breaker_wake_def breaker_succeed_def)
    with True show ?thesis by (auto simp: tt c abs_breaker_def split: State.splits)
  next
    case False
    with Cons.prems cb1(4) have "abs_breaker cb1 = HalfOpen (Suc n)"
      by (cases ts) (simp_all add: breaker_wake_def breaker_succeed_def)
    with Cons.IH [OF cb1(2)] Cons.prems False cb1(3) show ?thesis by (auto simp: tt c split: prod.splits)
  qed
qed simp

section \<open>Properties\<close>

text \<open>
  (C4) The breaker implements its specification: entering a call, recording a failure, recording a
  success and a tick of the probe loop act on the concrete state exactly as the steps of the
  abstract machine, and a call is admitted exactly when the machine admits it. No counter
  wraps on the way.
\<close>

theorem breaker_refines:
  assumes "breaker_inv cb"
  shows "abs_breaker (snd (Call_enter now cb)) = breaker_wake (CB_config cb) now (abs_breaker cb) \<and>
    fst (Call_enter now cb) = breaker_admits (CB_config cb) (breaker_wake (CB_config cb) now (abs_breaker cb)) \<and>
    abs_breaker (recordFailure now cb) = breaker_fail (CB_config cb) now (abs_breaker cb) \<and>
    abs_breaker (recordSuccess now cb) = breaker_succeed (CB_config cb) (abs_breaker cb) \<and>
    abs_breaker (probe_tick now cb) = breaker_wake (CB_config cb) now (abs_breaker cb)"
  using abs_enter [OF assms] abs_fail [OF assms] abs_succeed [OF assms] abs_tick by simp

theorem breaker_refines_witness: "abs_breaker (recordFailure 9 (New NewConfig 0)) = Closed 1"
proof -
  have "breaker_fail (CB_config (New NewConfig 0)) 9 (abs_breaker (New NewConfig 0)) = Closed 1"
    by code_simp
  then show ?thesis using breaker_refines [OF New_inv, of 9 NewConfig 0] by metis
qed



text \<open>
  (C8) A breaker that is half open, has used up the calls it admits there and has no call running
  stays like this for ever: whatever happens, it rejects every call. The default
  configuration gets there after one success, since it admits one call and asks for three.
\<close>

theorem half_open_stuck:
  assumes "breaker_inv cb" and "CB_state cb = StateHalfOpen"
    and "Config_HalfOpenMaxCalls (CB_config cb) \<le> CB_successes cb" and "cb_path (cb, 0) (cb', p)"
  shows "CB_state cb' = StateHalfOpen \<and> (\<forall>now. \<not> fst (Call_enter now cb'))"
proof -
  have "stuck (cb', p)" using stuck_path [OF assms(4)] assms(1-3) by (simp add: stuck_def)
  then show ?thesis using stuck_rejects by (auto simp: stuck_def)
qed

theorem half_open_stuck_witness:
  "breaker_inv default_run \<and> CB_state default_run = StateHalfOpen \<and> \<not> fst (Call_enter (999 * Hour) default_run)"
proof -
  have "breaker_inv default_run" and "CB_state default_run = StateHalfOpen"
    and "Config_HalfOpenMaxCalls (CB_config default_run) \<le> CB_successes default_run"
    by code_simp+
  then show ?thesis using half_open_stuck [OF _ _ _ cb_path.refl] by blast
qed

text \<open>
  (C9) When the breaker admits at least as many calls in the half-open state as it needs successes,
  it recovers: once the timeout of an open breaker has passed, that number of successful
  calls in a row closes it.
\<close>

theorem open_recovers:
  assumes "breaker_inv cb" and "CB_state cb = StateOpen" and "timed_out now cb"
    and "Config_SuccessThreshold (CB_config cb) \<le> Config_HalfOpenMaxCalls (CB_config cb)"
    and "length ts = unat (Config_SuccessThreshold (CB_config cb))"
  shows "CB_state (snd (calls (map (\<lambda>(t, t'). (t, t', Inr r :: 'e + 'r)) ts) (probe_tick now cb))) = StateClosed"
proof -
  have "abs_breaker (probe_tick now cb) = HalfOpen 0"
    using assms(2,3) by (simp add: abs_breaker_def probe_tick_def setState_def Let_def)
  moreover have "CB_config (probe_tick now cb) = CB_config cb" by (simp add: probe_tick_def)
  moreover have "ts \<noteq> []" using assms(1,5) by (auto simp: breaker_inv_def word_less_nat_alt)
  ultimately show ?thesis
    using assms(4,5) by (intro half_open_recovers [OF probe_tick_inv [OF assms(1)], of now 0]) simp_all
qed

theorem open_recovers_witness:
  "CB_state (snd (calls (map (\<lambda>(t, t'). (t, t', Inr () :: unit + unit)) [(1, 2), (3, 4), (5, 6)])
    (probe_tick (32 * Second) open_breaker))) = StateClosed"
  by (rule open_recovers) code_simp+

end
