(* ===== verification/Rbac.thy ===== *)
theory Rbac
  imports Prelude
begin

text \<open>
  Role based access control of \<^verbatim>\<open>internal/auth/rbac.go\<close>. Roles, resources and actions are the strings
  of the code. The recursion through the inherited roles is a loop over a stack of definitions,
  which visits them in the order of the recursion; nothing in the code bounds it for
  an arbitrary table of roles, so it is a partial function, and that it returns for
  every enforcer the code can build is a theorem.
\<close>

section \<open>Data\<close>

definition RoleAdmin :: string where "RoleAdmin = ''admin''"
definition RoleManager :: string where "RoleManager = ''manager''"
definition RoleOperator :: string where "RoleOperator = ''operator''"
definition RoleViewer :: string where "RoleViewer = ''viewer''"

definition ResourcePipeline :: string where "ResourcePipeline = ''pipeline''"
definition ResourceJob :: string where "ResourceJob = ''job''"
definition ResourceWorker :: string where "ResourceWorker = ''worker''"
definition ResourceSecret :: string where "ResourceSecret = ''secret''"
definition ResourceConfig :: string where "ResourceConfig = ''config''"
definition ResourceUser :: string where "ResourceUser = ''user''"
definition ResourceAuditLog :: string where "ResourceAuditLog = ''audit_log''"
definition ResourceNamespace :: string where "ResourceNamespace = ''namespace''"
definition ResourceAll :: string where "ResourceAll = ''*''"

definition ActionCreate :: string where "ActionCreate = ''create''"
definition ActionRead :: string where "ActionRead = ''read''"
definition ActionUpdate :: string where "ActionUpdate = ''update''"
definition ActionDelete :: string where "ActionDelete = ''delete''"
definition ActionAll :: string where "ActionAll = ''*''"

lemmas role_names = RoleAdmin_def RoleManager_def RoleOperator_def RoleViewer_def
lemmas resource_names = ResourcePipeline_def ResourceJob_def ResourceWorker_def ResourceSecret_def ResourceConfig_def
  ResourceUser_def ResourceAuditLog_def ResourceNamespace_def ResourceAll_def
lemmas action_names = ActionCreate_def ActionRead_def ActionUpdate_def ActionDelete_def ActionAll_def

type_synonym PermissionSet = "(string, (string, bool) gmap) gmap"

record RoleDefinition =
  RoleDefinition_Role :: string
  RoleDefinition_Level :: int
  RoleDefinition_Permissions :: PermissionSet
  RoleDefinition_Inherits :: "string list"

record RBACEnforcer =
  RBACEnforcer_roles :: "(string, RoleDefinition) gmap"
  RBACEnforcer_customRoles :: "(string, RoleDefinition) gmap"

datatype RBACError =
    BuiltinRoleExists string
  | CustomRoleExists string
  | UnknownRole string
  | PromotionTooHigh int int
  | InvalidPermissionFormat string

section \<open>Operations\<close>

definition allow :: "string list \<Rightarrow> (string, bool) gmap" where
  "allow as = map (\<lambda>a. (a, True)) as"

definition loadDefaultRoles :: "(string, RoleDefinition) gmap \<Rightarrow> (string, RoleDefinition) gmap" where
  "loadDefaultRoles roles =
    (let
      roles = gm_set RoleViewer \<lparr>RoleDefinition_Role = RoleViewer, RoleDefinition_Level = 0,
        RoleDefinition_Permissions = [
          (ResourcePipeline, allow [ActionRead]),
          (ResourceJob, allow [ActionRead]),
          (ResourceAuditLog, allow [ActionRead])],
        RoleDefinition_Inherits = []\<rparr> roles;
      roles = gm_set RoleOperator \<lparr>RoleDefinition_Role = RoleOperator, RoleDefinition_Level = 1,
        RoleDefinition_Permissions = [
          (ResourcePipeline, allow [ActionCreate, ActionRead, ActionUpdate]),
          (ResourceJob, allow [ActionCreate, ActionRead, ActionUpdate, ActionDelete]),
          (ResourceWorker, allow [ActionRead, ActionUpdate]),
          (ResourceAuditLog, allow [ActionRead])],
        RoleDefinition_Inherits = [RoleViewer]\<rparr> roles;
      roles = gm_set RoleManager \<lparr>RoleDefinition_Role = RoleManager, RoleDefinition_Level = 2,
        RoleDefinition_Permissions = [
          (ResourcePipeline, allow [ActionAll]),
          (ResourceJob, allow [ActionAll]),
          (ResourceWorker, allow [ActionAll]),
          (ResourceSecret, allow [ActionCreate, ActionRead, ActionUpdate]),
          (ResourceConfig, allow [ActionCreate, ActionRead, ActionUpdate]),
          (ResourceAuditLog, allow [ActionRead]),
          (ResourceNamespace, allow [ActionRead, ActionUpdate])],
        RoleDefinition_Inherits = [RoleOperator]\<rparr> roles
    in gm_set RoleAdmin \<lparr>RoleDefinition_Role = RoleAdmin, RoleDefinition_Level = 3,
        RoleDefinition_Permissions = [(ResourceAll, allow [ActionAll])],
        RoleDefinition_Inherits = [RoleManager]\<rparr> roles)"

definition NewRBACEnforcer :: RBACEnforcer where
  "NewRBACEnforcer = \<lparr>RBACEnforcer_roles = loadDefaultRoles gm_empty, RBACEnforcer_customRoles = gm_empty\<rparr>"

definition AddCustomRole ::
  "RBACEnforcer \<Rightarrow> string \<Rightarrow> int \<Rightarrow> PermissionSet \<Rightarrow> string list \<Rightarrow> RBACError + RBACEnforcer" where
  "AddCustomRole e name level perms inherits =
     (if gm_has (RBACEnforcer_roles e) name then Inl (BuiltinRoleExists name)
      else if gm_has (RBACEnforcer_customRoles e) name then Inl (CustomRoleExists name)
      else Inr (e\<lparr>RBACEnforcer_customRoles := gm_set name
        \<lparr>RoleDefinition_Role = name, RoleDefinition_Level = level, RoleDefinition_Permissions = perms,
         RoleDefinition_Inherits = inherits\<rparr> (RBACEnforcer_customRoles e)\<rparr>))"

definition getRole :: "RBACEnforcer \<Rightarrow> string \<Rightarrow> RoleDefinition option" where
  "getRole e role =
     (case gm_get (RBACEnforcer_roles e) role of
        Some d \<Rightarrow> Some d
      | None \<Rightarrow> gm_get (RBACEnforcer_customRoles e) role)"

definition perms_allow :: "PermissionSet \<Rightarrow> string \<Rightarrow> string \<Rightarrow> bool" where
  "perms_allow ps resource action =
     (case gm_get ps resource of
        Some perms \<Rightarrow> gm_getd False perms action \<or> gm_getd False perms ActionAll
      | None \<Rightarrow> False)"

text \<open>The two checks of \<^verbatim>\<open>hasPermission\<close> on the definition itself, and the definitions it goes on with.\<close>

definition own_permission :: "RoleDefinition \<Rightarrow> string \<Rightarrow> string \<Rightarrow> bool" where
  "own_permission d resource action \<longleftrightarrow>
     perms_allow (RoleDefinition_Permissions d) resource action \<or>
     perms_allow (RoleDefinition_Permissions d) ResourceAll action"

definition inherited :: "RBACEnforcer \<Rightarrow> RoleDefinition \<Rightarrow> RoleDefinition list" where
  "inherited e d = List.map_filter (gm_get (RBACEnforcer_roles e)) (RoleDefinition_Inherits d)"

partial_function (option) hasPermission_loop ::
  "RBACEnforcer \<Rightarrow> string \<Rightarrow> string \<Rightarrow> RoleDefinition list \<Rightarrow> bool option" where
  "hasPermission_loop e resource action stack =
     (if stack = [] then Some False
      else if own_permission (hd stack) resource action then Some True
      else hasPermission_loop e resource action (inherited e (hd stack) @ tl stack))"

definition hasPermission :: "RBACEnforcer \<Rightarrow> RoleDefinition \<Rightarrow> string \<Rightarrow> string \<Rightarrow> bool option" where
  "hasPermission e d resource action = hasPermission_loop e resource action [d]"

definition CheckPermission :: "RBACEnforcer \<Rightarrow> string \<Rightarrow> string \<Rightarrow> string \<Rightarrow> bool option" where
  "CheckPermission e role resource action =
     (case getRole e role of None \<Rightarrow> Some False | Some d \<Rightarrow> hasPermission e d resource action)"

fun CheckAnyPermission :: "RBACEnforcer \<Rightarrow> string \<Rightarrow> string \<Rightarrow> string list \<Rightarrow> bool option" where
  "CheckAnyPermission e role resource [] = Some False"
| "CheckAnyPermission e role resource (a # as) =
     (case CheckPermission e role resource a of
        None \<Rightarrow> None
      | Some True \<Rightarrow> Some True
      | Some False \<Rightarrow> CheckAnyPermission e role resource as)"

fun CheckAllPermissions :: "RBACEnforcer \<Rightarrow> string \<Rightarrow> string \<Rightarrow> string list \<Rightarrow> bool option" where
  "CheckAllPermissions e role resource [] = Some True"
| "CheckAllPermissions e role resource (a # as) =
     (case CheckPermission e role resource a of
        None \<Rightarrow> None
      | Some False \<Rightarrow> Some False
      | Some True \<Rightarrow> CheckAllPermissions e role resource as)"

definition HasRole :: "string list \<Rightarrow> string \<Rightarrow> bool" where
  "HasRole userRoles target = list_ex (\<lambda>r. r = target) userRoles"

text \<open>Merging the permissions of one definition; the loops over the maps are numbers 0 and 1.\<close>

definition merge_own :: "string ranger \<Rightarrow> RoleDefinition \<Rightarrow> PermissionSet \<Rightarrow> PermissionSet" where
  "merge_own rng d merged =
     fold (\<lambda>(resource, actions) m.
       let m1 = (if gm_has m resource then m else gm_set resource gm_empty m)
       in fold (\<lambda>action m2. gm_set resource (gm_set action True (gm_getd gm_empty m2 resource)) m2)
            (range_over rng 1 actions) m1)
       (range_items rng 0 (RoleDefinition_Permissions d)) merged"

partial_function (option) mergePermissions_loop ::
  "RBACEnforcer \<Rightarrow> string ranger \<Rightarrow> PermissionSet \<Rightarrow> RoleDefinition list \<Rightarrow> PermissionSet option" where
  "mergePermissions_loop e rng merged stack =
     (if stack = [] then Some merged
      else mergePermissions_loop e rng (merge_own rng (hd stack) merged) (inherited e (hd stack) @ tl stack))"

definition mergePermissions ::
  "RBACEnforcer \<Rightarrow> string ranger \<Rightarrow> PermissionSet \<Rightarrow> RoleDefinition \<Rightarrow> PermissionSet option" where
  "mergePermissions e rng merged d = mergePermissions_loop e rng merged [d]"

fun effective_loop :: "RBACEnforcer \<Rightarrow> string ranger \<Rightarrow> string list \<Rightarrow> PermissionSet \<Rightarrow> PermissionSet option" where
  "effective_loop e rng [] merged = Some merged"
| "effective_loop e rng (role # roles) merged =
     (case getRole e role of
        None \<Rightarrow> effective_loop e rng roles merged
      | Some d \<Rightarrow> (case mergePermissions e rng merged d of
                    None \<Rightarrow> None
                  | Some merged' \<Rightarrow> effective_loop e rng roles merged'))"

definition GetEffectivePermissions :: "RBACEnforcer \<Rightarrow> string ranger \<Rightarrow> string list \<Rightarrow> PermissionSet option" where
  "GetEffectivePermissions e rng roles = effective_loop e rng roles gm_empty"

definition getRoleLevel :: "RBACEnforcer \<Rightarrow> string \<Rightarrow> int" where
  "getRoleLevel e role = (case getRole e role of Some d \<Rightarrow> RoleDefinition_Level d | None \<Rightarrow> -1)"

text \<open>
  \<^verbatim>\<open>sort.Slice\<close> is not stable: \<open>perm\<close> is the order in which it leaves roles of the same level, and
  the result is the stable sort of that order.
\<close>

definition ListRoles :: "RBACEnforcer \<Rightarrow> string ranger \<Rightarrow> (string list \<Rightarrow> string list) \<Rightarrow> string list" where
  "ListRoles e rng perm =
     sort_key (getRoleLevel e) (perm (range_over rng 0 (RBACEnforcer_roles e) @
       map (\<lambda>(_, d). RoleDefinition_Role d) (range_items rng 1 (RBACEnforcer_customRoles e))))"

definition ValidateRoleTransition :: "RBACEnforcer \<Rightarrow> string list \<Rightarrow> string \<Rightarrow> RBACError option" where
  "ValidateRoleTransition e currentRoles targetRole =
     (let currentLevel = fold (\<lambda>r cur. let l = getRoleLevel e r in if l > cur then l else cur) currentRoles 0;
          targetLevel = getRoleLevel e targetRole
      in if targetLevel < 0 then Some (UnknownRole targetRole)
         else if targetLevel > currentLevel + 1 \<and> currentLevel > 0
         then Some (PromotionTooHigh currentLevel targetLevel)
         else None)"

definition PermissionFor :: "string \<Rightarrow> string \<Rightarrow> string" where
  "PermissionFor resource action = resource @ '':'' @ action"

text \<open>\<^verbatim>\<open>strings.SplitN(perm, ":", 2)\<close>: at the first colon, if there is one.\<close>

definition splitN2 :: "char \<Rightarrow> string \<Rightarrow> string list" where
  "splitN2 c s = (case dropWhile (\<lambda>x. x \<noteq> c) s of
     [] \<Rightarrow> [s] | _ # rest \<Rightarrow> [takeWhile (\<lambda>x. x \<noteq> c) s, rest])"

definition ParsePermission :: "string \<Rightarrow> RBACError + (string \<times> string)" where
  "ParsePermission perm =
     (case splitN2 CHR '':'' perm of
        [resource, action] \<Rightarrow> Inr (resource, action)
      | _ \<Rightarrow> Inl (InvalidPermissionFormat perm))"

section \<open>Definitions for the statements\<close>

text \<open>The enforcers the code can build.\<close>

definition perms_inv :: "PermissionSet \<Rightarrow> bool" where
  "perms_inv ps \<longleftrightarrow> gm_inv ps \<and> list_all (\<lambda>(_, p). gm_inv p) ps"

inductive rbac_built :: "RBACEnforcer \<Rightarrow> bool" where
  new: "rbac_built NewRBACEnforcer"
| custom: "rbac_built e \<Longrightarrow> perms_inv perms \<Longrightarrow> AddCustomRole e name level perms inherits = Inr e' \<Longrightarrow> rbac_built e'"

text \<open>The definitions that a definition inherits from, itself included.\<close>

inductive inherits_from :: "RBACEnforcer \<Rightarrow> RoleDefinition \<Rightarrow> RoleDefinition \<Rightarrow> bool" for e where
  self: "inherits_from e d d"
| step: "d' \<in> set (inherited e d) \<Longrightarrow> inherits_from e d' d'' \<Longrightarrow> inherits_from e d d''"

text \<open>The built-in definitions inherit only from definitions of a lower level, which is not negative.\<close>

definition ranked :: "RBACEnforcer \<Rightarrow> bool" where
  "ranked e \<longleftrightarrow> list_all (\<lambda>(_, d). 0 \<le> RoleDefinition_Level d \<and>
     list_all (\<lambda>d'. RoleDefinition_Level d' < RoleDefinition_Level d) (inherited e d)) (RBACEnforcer_roles e)"

text \<open>A definition grants a permission when it or one of those it inherits from has it.\<close>

definition grants :: "RBACEnforcer \<Rightarrow> RoleDefinition \<Rightarrow> string \<Rightarrow> string \<Rightarrow> bool" where
  "grants e d resource action \<longleftrightarrow> (\<exists>d'. inherits_from e d d' \<and> own_permission d' resource action)"

text \<open>A value of a set of permissions as Go reads it, and the presence of a key.\<close>

definition perm_value :: "PermissionSet \<Rightarrow> string \<Rightarrow> string \<Rightarrow> bool" where
  "perm_value ps resource action = gm_getd False (gm_getd gm_empty ps resource) action"

definition perm_key :: "PermissionSet \<Rightarrow> string \<Rightarrow> string \<Rightarrow> bool" where
  "perm_key ps resource action = gm_has (gm_getd gm_empty ps resource) action"

text \<open>A definition or one of those it inherits from lists the permission, with whatever value.\<close>

definition listed :: "RBACEnforcer \<Rightarrow> RoleDefinition \<Rightarrow> string \<Rightarrow> string \<Rightarrow> bool" where
  "listed e d resource action \<longleftrightarrow>
     (\<exists>d'. inherits_from e d d' \<and> perm_key (RoleDefinition_Permissions d') resource action)"

definition all_perms_inv :: "RBACEnforcer \<Rightarrow> bool" where
  "all_perms_inv e \<longleftrightarrow> list_all (\<lambda>(_, d). perms_inv (RoleDefinition_Permissions d)) (RBACEnforcer_roles e @ RBACEnforcer_customRoles e)"

text \<open>The built-in definitions.\<close>

definition builtin :: "string \<Rightarrow> RoleDefinition" where
  "builtin role = the (gm_get (loadDefaultRoles gm_empty) role)"

text \<open>An example: a custom role with an entry that is false.\<close>

definition auditor :: RoleDefinition where
  "auditor = \<lparr>RoleDefinition_Role = ''auditor'', RoleDefinition_Level = 1,
     RoleDefinition_Permissions = [(''job'', [(''read'', False)])], RoleDefinition_Inherits = []\<rparr>"

definition auditor_rbac :: RBACEnforcer where
  "auditor_rbac = NewRBACEnforcer\<lparr>RBACEnforcer_customRoles := [(''auditor'', auditor)]\<rparr>"

section \<open>Lemmas\<close>

inductive_simps inherits_from_iff: "inherits_from e d d'"

lemma AddCustomRole_roles: "AddCustomRole e name level perms inh = Inr e' \<Longrightarrow> RBACEnforcer_roles e' = RBACEnforcer_roles e"
  by (auto simp: AddCustomRole_def split: if_splits)

lemma rbac_built_roles: "rbac_built e \<Longrightarrow> RBACEnforcer_roles e = loadDefaultRoles gm_empty"
  by (induction rule: rbac_built.induct) (auto simp: NewRBACEnforcer_def AddCustomRole_roles)

lemma inherited_cong: "RBACEnforcer_roles e = RBACEnforcer_roles e' \<Longrightarrow> inherited e = inherited e'"
  by (simp add: inherited_def fun_eq_iff)

lemma ranked_new: "ranked NewRBACEnforcer"
  by code_simp

lemma rbac_built_ranked: "rbac_built e \<Longrightarrow> ranked e"
  using ranked_new rbac_built_roles [of e] inherited_cong [of e NewRBACEnforcer]
  by (simp add: ranked_def NewRBACEnforcer_def)

lemma inherited_mem: "d' \<in> set (inherited e d) \<Longrightarrow> \<exists>r. (r, d') \<in> set (RBACEnforcer_roles e)"
proof -
  assume "d' \<in> set (inherited e d)"
  then obtain r where "map_of (RBACEnforcer_roles e) r = Some d'" by (auto simp: inherited_def map_filter_def gm_get_def)
  then show ?thesis by (blast dest: map_of_SomeD)
qed

lemma inherited_ranked:
  assumes "ranked e" and "d' \<in> set (inherited e d)" and "d'' \<in> set (inherited e d')"
  shows "nat (RoleDefinition_Level d'') < nat (RoleDefinition_Level d')"
proof -
  obtain r r' where "(r, d') \<in> set (RBACEnforcer_roles e)" "(r', d'') \<in> set (RBACEnforcer_roles e)"
    using inherited_mem [OF assms(2)] inherited_mem [OF assms(3)] by blast
  with assms(1,3) have "RoleDefinition_Level d'' < RoleDefinition_Level d'" "0 \<le> RoleDefinition_Level d''"
    by (auto simp: ranked_def list_all_iff)
  then show ?thesis by simp
qed

text \<open>
  Induction for loops over the stack of definitions: a definition may be assumed to be treated
  once those it inherits from are.
\<close>

lemma inherited_induct:
  assumes "ranked e" and step: "\<And>d. (\<And>d'. d' \<in> set (inherited e d) \<Longrightarrow> P d') \<Longrightarrow> P d"
  shows "P d"
proof -
  have *: "P d'" if "d' \<in> set (inherited e d0)" for d0 d'
    using that
  proof (induction "nat (RoleDefinition_Level d')" arbitrary: d0 d' rule: less_induct)
    case less
    show ?case
    proof (rule step)
      fix d'' assume "d'' \<in> set (inherited e d')"
      with less inherited_ranked [OF assms(1) less.prems] show "P d''" by blast
    qed
  qed
  show ?thesis using * by (rule step)
qed

lemma hasPermission_loop_simps [simp, code]:
  "hasPermission_loop e r a [] = Some False"
  "hasPermission_loop e r a (d # ds) =
    (if own_permission d r a then Some True else hasPermission_loop e r a (inherited e d @ ds))"
  by (subst hasPermission_loop.simps; simp)+

lemma mergePermissions_loop_simps [simp, code]:
  "mergePermissions_loop e rng m [] = Some m"
  "mergePermissions_loop e rng m (d # ds) = mergePermissions_loop e rng (merge_own rng d m) (inherited e d @ ds)"
  by (subst mergePermissions_loop.simps; simp)+

lemma grants_iff: "grants e d r a \<longleftrightarrow> own_permission d r a \<or> (\<exists>d' \<in> set (inherited e d). grants e d' r a)"
  unfolding grants_def by (subst inherits_from_iff) blast

lemma hasPermission_loop_append:
  assumes "\<And>d ds. d \<in> set ds1 \<Longrightarrow>
    hasPermission_loop e r a (d # ds) = (if grants e d r a then Some True else hasPermission_loop e r a ds)"
  shows "hasPermission_loop e r a (ds1 @ ds) =
    (if \<exists>d \<in> set ds1. grants e d r a then Some True else hasPermission_loop e r a ds)"
  using assms by (induction ds1) (auto simp del: hasPermission_loop_simps)

lemma hasPermission_loop_grants:
  assumes "ranked e"
  shows "hasPermission_loop e r a (d # ds) = (if grants e d r a then Some True else hasPermission_loop e r a ds)"
proof (induction d arbitrary: ds rule: inherited_induct [OF assms])
  case (1 d)
  from hasPermission_loop_append [OF 1, of _ ds] show ?case by (auto simp: grants_iff [of e d])
qed

lemma CheckPermission_grants:
  assumes "ranked e"
  shows "CheckPermission e role r a = Some (case getRole e role of None \<Rightarrow> False | Some d \<Rightarrow> grants e d r a)"
  using hasPermission_loop_grants [OF assms, of r a _ "[]"]
  by (auto simp: CheckPermission_def hasPermission_def simp del: hasPermission_loop_simps(2) split: option.splits)

lemma gm_has_empty [simp]: "\<not> gm_has gm_empty k"
  by (simp add: gm_has_def gomap)

lemma perm_value_fill:
  "perm_value (fold (\<lambda>action m. gm_set res (gm_set action True (gm_getd gm_empty m res)) m) as m) r a \<longleftrightarrow>
    perm_value m r a \<or> r = res \<and> a \<in> set as"
  by (induction as arbitrary: m) (auto simp: perm_value_def)

lemma perm_value_fresh:
  "perm_value (if gm_has m res then m else gm_set res gm_empty m) r a = perm_value m r a"
  by (auto simp: perm_value_def gm_getd_def gm_has_def gm.get_put gomap)

lemma perm_value_merge_items:
  "perm_value (fold (\<lambda>(resource, actions) m.
       let m1 = (if gm_has m resource then m else gm_set resource gm_empty m)
       in fold (\<lambda>action m2. gm_set resource (gm_set action True (gm_getd gm_empty m2 resource)) m2)
            (range_over rng 1 actions) m1) items m) r a \<longleftrightarrow>
    perm_value m r a \<or> (\<exists>(res, as) \<in> set items. r = res \<and> a \<in> set (range_over rng 1 as))"
  by (induction items arbitrary: m) (auto simp: Let_def perm_value_fill perm_value_fresh simp del: One_nat_def)

lemma perm_value_merge_own:
  assumes "ranger_ok rng" and "perms_inv (RoleDefinition_Permissions d)"
  shows "perm_value (merge_own rng d m) r a \<longleftrightarrow> perm_value m r a \<or> perm_key (RoleDefinition_Permissions d) r a"
proof -
  let ?ps = "RoleDefinition_Permissions d"
  have inv: "gm_inv ?ps" using assms(2) by (simp add: perms_inv_def)
  have "set (range_over rng 1 p) = set (gm_keys p)" if "gm_get ?ps r = Some p" for p
  proof -
    have "gm_inv p" using that assms(2) gm_get_mem [OF inv, of r p] by (auto simp: perms_inv_def list_all_iff)
    then show ?thesis using range_over_iter [OF assms(1), of p 1] by (simp add: gm_iter_def)
  qed
  then have "(\<exists>(res, as) \<in> set (range_items rng 0 ?ps). r = res \<and> a \<in> set (range_over rng 1 as)) \<longleftrightarrow> perm_key ?ps r a"
    by (auto simp: set_range_items [OF assms(1) inv] perm_key_def gm_getd_def gm_has_keys
        simp del: One_nat_def split: option.splits)
  then show ?thesis by (simp only: merge_own_def perm_value_merge_items)
qed

lemma listed_iff:
  "listed e d r a \<longleftrightarrow> perm_key (RoleDefinition_Permissions d) r a \<or> (\<exists>d' \<in> set (inherited e d). listed e d' r a)"
  unfolding listed_def by (subst inherits_from_iff) blast

lemma mergePermissions_loop_append:
  assumes "\<And>d ds m. d \<in> set ds1 \<Longrightarrow> \<exists>m'. mergePermissions_loop e rng m (d # ds) = mergePermissions_loop e rng m' ds \<and>
      (\<forall>r a. perm_value m' r a \<longleftrightarrow> perm_value m r a \<or> listed e d r a)"
  shows "\<exists>m'. mergePermissions_loop e rng m (ds1 @ ds) = mergePermissions_loop e rng m' ds \<and>
      (\<forall>r a. perm_value m' r a \<longleftrightarrow> perm_value m r a \<or> (\<exists>d \<in> set ds1. listed e d r a))"
  using assms
proof (induction ds1 arbitrary: m)
  case Nil
  then show ?case by auto
next
  case (Cons d ds1)
  from Cons.prems [of d m "ds1 @ ds"] obtain m1 where
    m1: "mergePermissions_loop e rng m (d # ds1 @ ds) = mergePermissions_loop e rng m1 (ds1 @ ds)"
    "\<And>r a. perm_value m1 r a \<longleftrightarrow> perm_value m r a \<or> listed e d r a" by auto
  from Cons.IH [OF Cons.prems, of m1] obtain m2 where
    "mergePermissions_loop e rng m1 (ds1 @ ds) = mergePermissions_loop e rng m2 ds"
    "\<And>r a. perm_value m2 r a \<longleftrightarrow> perm_value m1 r a \<or> (\<exists>d \<in> set ds1. listed e d r a)" by auto
  with m1 show ?case by (intro exI [of _ m2]) (auto simp del: mergePermissions_loop_simps)
qed

lemma mergePermissions_loop_listed:
  assumes "ranked e" and "ranger_ok rng" and "all_perms_inv e" and "perms_inv (RoleDefinition_Permissions d)"
  shows "\<exists>m'. mergePermissions_loop e rng m (d # ds) = mergePermissions_loop e rng m' ds \<and>
      (\<forall>r a. perm_value m' r a \<longleftrightarrow> perm_value m r a \<or> listed e d r a)"
  using assms(4)
proof (induction d arbitrary: m ds rule: inherited_induct [OF assms(1)])
  case (1 d)
  have inv: "perms_inv (RoleDefinition_Permissions d')" if "d' \<in> set (inherited e d)" for d'
    using inherited_mem [OF that] assms(3) by (auto simp: all_perms_inv_def list_all_iff)
  have ih: "\<exists>m''. mergePermissions_loop e rng m' (d' # ds') = mergePermissions_loop e rng m'' ds' \<and>
      (\<forall>r a. perm_value m'' r a \<longleftrightarrow> perm_value m' r a \<or> listed e d' r a)" if "d' \<in> set (inherited e d)" for d' ds' m'
    by (rule 1(1) [OF that inv [OF that]])
  from mergePermissions_loop_append [of "inherited e d" e rng "merge_own rng d m" ds, OF ih] obtain m' where
    "mergePermissions_loop e rng (merge_own rng d m) (inherited e d @ ds) = mergePermissions_loop e rng m' ds"
    "\<And>r a. perm_value m' r a \<longleftrightarrow> perm_value (merge_own rng d m) r a \<or> (\<exists>d' \<in> set (inherited e d). listed e d' r a)"
    by blast
  then show ?case
    using perm_value_merge_own [OF assms(2) 1(2)] by (intro exI [of _ m']) (auto simp: listed_iff [of e d])
qed

lemma getRole_perms: "all_perms_inv e \<Longrightarrow> getRole e role = Some d \<Longrightarrow> perms_inv (RoleDefinition_Permissions d)"
  by (fastforce simp: all_perms_inv_def list_all_iff getRole_def gm_get_def split: option.splits dest: map_of_SomeD)

lemma effective_loop_listed:
  assumes "ranked e" and "ranger_ok rng" and "all_perms_inv e"
  shows "\<exists>m'. effective_loop e rng roles m = Some m' \<and>
    (\<forall>r a. perm_value m' r a \<longleftrightarrow> perm_value m r a \<or>
      (\<exists>role d. role \<in> set roles \<and> getRole e role = Some d \<and> listed e d r a))"
proof (induction roles arbitrary: m)
  case Nil
  then show ?case by simp
next
  case (Cons role roles)
  show ?case
  proof (cases "getRole e role")
    case None
    from Cons.IH [of m] obtain m' where m': "effective_loop e rng roles m = Some m'"
      "\<And>r a. perm_value m' r a \<longleftrightarrow> perm_value m r a \<or> (\<exists>role d. role \<in> set roles \<and> getRole e role = Some d \<and> listed e d r a)"
      by blast
    show ?thesis using None m' by (intro exI [of _ m']) auto
  next
    case (Some d)
    from mergePermissions_loop_listed [OF assms getRole_perms [OF assms(3) Some], of m "[]"] obtain m1 where
      m1: "mergePermissions e rng m d = Some m1" "\<And>r a. perm_value m1 r a \<longleftrightarrow> perm_value m r a \<or> listed e d r a"
      by (auto simp: mergePermissions_def)
    from Cons.IH [of m1] obtain m2 where m2: "effective_loop e rng roles m1 = Some m2"
      "\<And>r a. perm_value m2 r a \<longleftrightarrow> perm_value m1 r a \<or> (\<exists>role d. role \<in> set roles \<and> getRole e role = Some d \<and> listed e d r a)"
      by blast
    show ?thesis using m1 m2 Some by (intro exI [of _ m2]) auto
  qed
qed

lemma rbac_built_perms: "rbac_built e \<Longrightarrow> all_perms_inv e"
proof (induction rule: rbac_built.induct)
  case new
  show ?case by code_simp
next
  case (custom e perms name level inherits e')
  let ?d = "\<lparr>RoleDefinition_Role = name, RoleDefinition_Level = level, RoleDefinition_Permissions = perms,
    RoleDefinition_Inherits = inherits\<rparr>"
  have e': "RBACEnforcer_roles e' = RBACEnforcer_roles e"
    "RBACEnforcer_customRoles e' = gm_set name ?d (RBACEnforcer_customRoles e)"
    using custom.hyps(3) by (auto simp: AddCustomRole_def split: if_splits)
  have "set (RBACEnforcer_customRoles e') \<subseteq> insert (name, ?d) (set (RBACEnforcer_customRoles e))"
    unfolding e' by (rule set_gm_set)
  moreover have "perms_inv (RoleDefinition_Permissions d)" if "(r, d) \<in> set (RBACEnforcer_roles e @ RBACEnforcer_customRoles e)" for r d
    using custom.IH that by (auto simp: all_perms_inv_def list_all_iff)
  ultimately have "perms_inv (RoleDefinition_Permissions d)" if "(r, d) \<in> set (RBACEnforcer_roles e' @ RBACEnforcer_customRoles e')" for r d
    using that custom.hyps(2) unfolding e'(1) by (auto dest!: subsetD)
  then show ?case unfolding all_perms_inv_def list_all_iff by blast
qed

lemma builtin_roles:
  "gm_get (loadDefaultRoles gm_empty) RoleViewer = Some (builtin RoleViewer)"
  "gm_get (loadDefaultRoles gm_empty) RoleOperator = Some (builtin RoleOperator)"
  "gm_get (loadDefaultRoles gm_empty) RoleManager = Some (builtin RoleManager)"
  "gm_get (loadDefaultRoles gm_empty) RoleAdmin = Some (builtin RoleAdmin)"
  by (simp_all add: builtin_def loadDefaultRoles_def gm.get_put role_names Let_def)

lemma builtin_inherits:
  "RoleDefinition_Inherits (builtin RoleOperator) = [RoleViewer]"
  "RoleDefinition_Inherits (builtin RoleManager) = [RoleOperator]"
  "RoleDefinition_Inherits (builtin RoleAdmin) = [RoleManager]"
  by (simp_all add: builtin_def loadDefaultRoles_def gm.get_put role_names Let_def)

lemma builtin_admin: "RoleDefinition_Permissions (builtin RoleAdmin) = [(ResourceAll, allow [ActionAll])]"
  by (simp add: builtin_def loadDefaultRoles_def gm.get_put role_names Let_def)

lemma builtin_grants:
  assumes "rbac_built e"
  shows "grants e (builtin RoleViewer) r a \<Longrightarrow> grants e (builtin RoleOperator) r a"
    and "grants e (builtin RoleOperator) r a \<Longrightarrow> grants e (builtin RoleManager) r a"
    and "grants e (builtin RoleManager) r a \<Longrightarrow> grants e (builtin RoleAdmin) r a"
    and "grants e (builtin RoleAdmin) r a"
proof -
  note roles = rbac_built_roles [OF assms]
  show "grants e (builtin RoleViewer) r a \<Longrightarrow> grants e (builtin RoleOperator) r a"
    "grants e (builtin RoleOperator) r a \<Longrightarrow> grants e (builtin RoleManager) r a"
    "grants e (builtin RoleManager) r a \<Longrightarrow> grants e (builtin RoleAdmin) r a"
    by (subst grants_iff; simp add: inherited_def roles builtin_inherits builtin_roles map_filter_simps)+
  have "own_permission (builtin RoleAdmin) r a"
    by (simp add: builtin_admin own_permission_def perms_allow_def gm_get_def gm_getd_def allow_def)
  then show "grants e (builtin RoleAdmin) r a" by (subst grants_iff) simp
qed

lemma CheckPermission_builtin:
  assumes "rbac_built e" and "gm_get (loadDefaultRoles gm_empty) role = Some (builtin role)"
  shows "CheckPermission e role r a = Some (grants e (builtin role) r a)"
  using assms by (simp add: CheckPermission_grants rbac_built_ranked getRole_def rbac_built_roles)

section \<open>Properties\<close>

text \<open>
  (C31) For every enforcer the code can build, \<open>CheckPermission\<close> returns, and it answers true exactly
  when the role is known and its definition, or one it inherits from through any number of
  built-in roles, allows the action on the resource, by name or by a wildcard.
\<close>

theorem CheckPermission_correct:
  assumes "rbac_built e"
  shows "CheckPermission e role resource action = Some (case getRole e role of
      None \<Rightarrow> False
    | Some d \<Rightarrow> \<exists>d'. inherits_from e d d' \<and> own_permission d' resource action)"
  using CheckPermission_grants [OF rbac_built_ranked [OF assms]] by (simp add: grants_def cong: option.case_cong)

theorem CheckPermission_correct_witness:
  "\<exists>d d'. getRole NewRBACEnforcer RoleManager = Some d \<and> inherits_from NewRBACEnforcer d d' \<and>
    own_permission d' ResourceAuditLog ActionRead"
proof -
  have "CheckPermission NewRBACEnforcer RoleManager ResourceAuditLog ActionRead = Some True" by code_simp
  then show ?thesis using CheckPermission_correct [OF rbac_built.new] by (auto split: option.splits)
qed

text \<open>
  The built-in roles form a hierarchy in every enforcer the code can build: what a viewer may do
  an operator may do, what an operator may do a manager may do, and an administrator may do
  everything.
\<close>

theorem role_hierarchy:
  assumes "rbac_built e"
  shows "(CheckPermission e RoleViewer r a = Some True \<longrightarrow> CheckPermission e RoleOperator r a = Some True) \<and>
    (CheckPermission e RoleOperator r a = Some True \<longrightarrow> CheckPermission e RoleManager r a = Some True) \<and>
    CheckPermission e RoleAdmin r a = Some True"
  using builtin_grants [OF assms, of r a] builtin_roles by (simp add: CheckPermission_builtin [OF assms])

theorem role_hierarchy_witness:
  "CheckPermission NewRBACEnforcer RoleManager ResourceJob ActionDelete = Some True \<and>
    CheckPermission NewRBACEnforcer RoleAdmin ''anything'' ''whatever'' = Some True"
proof -
  have "CheckPermission NewRBACEnforcer RoleOperator ResourceJob ActionDelete = Some True" by code_simp
  then show ?thesis using role_hierarchy [OF rbac_built.new] by simp
qed

text \<open>
  \<open>GetEffectivePermissions\<close> returns for every enforcer the code can build, and the result has
  a permission exactly when the definition of one of the roles, or one it inherits from, lists it
  as a key. The value under the key is not read: an entry that is false, which
  \<open>CheckPermission\<close> refuses, is true in the result.
\<close>

theorem GetEffectivePermissions_correct:
  assumes "rbac_built e" and "ranger_ok rng"
  shows "\<exists>m. GetEffectivePermissions e rng roles = Some m \<and>
    (\<forall>r a. perm_value m r a \<longleftrightarrow> (\<exists>role d. role \<in> set roles \<and> getRole e role = Some d \<and> listed e d r a))"
proof -
  obtain m where "effective_loop e rng roles gm_empty = Some m"
    "\<And>r a. perm_value m r a \<longleftrightarrow> perm_value gm_empty r a \<or> (\<exists>role d. role \<in> set roles \<and> getRole e role = Some d \<and> listed e d r a)"
    using effective_loop_listed [OF rbac_built_ranked [OF assms(1)] assms(2) rbac_built_perms [OF assms(1)]] by metis
  then show ?thesis by (simp add: GetEffectivePermissions_def perm_value_def)
qed

theorem GetEffectivePermissions_correct_witness:
  "\<exists>e m. AddCustomRole NewRBACEnforcer ''auditor'' 1 [(''job'', [(''read'', False)])] [] = Inr e \<and>
    CheckPermission e ''auditor'' ''job'' ''read'' = Some False \<and>
    GetEffectivePermissions e (\<lambda>i ks. ks) [''auditor''] = Some m \<and> perm_value m ''job'' ''read''"
proof -
  have e: "AddCustomRole NewRBACEnforcer ''auditor'' 1 [(''job'', [(''read'', False)])] [] = Inr auditor_rbac"
    and d: "getRole auditor_rbac ''auditor'' = Some auditor"
    and c: "CheckPermission auditor_rbac ''auditor'' ''job'' ''read'' = Some False"
    and k: "perm_key (RoleDefinition_Permissions auditor) ''job'' ''read''"
    by code_simp+
  have b: "rbac_built auditor_rbac" by (rule rbac_built.custom [OF rbac_built.new _ e]) code_simp
  have "listed auditor_rbac auditor ''job'' ''read''"
    unfolding listed_def using k inherits_from.self by blast
  then show ?thesis
    using GetEffectivePermissions_correct [OF b ranger_ok_id, of "[''auditor'']"] e c d by auto
qed

text \<open>
  \<open>ParsePermission\<close> is the inverse of \<open>PermissionFor\<close>: it returns a resource and an action
  exactly when its argument is their permission string and the resource has no colon.
\<close>

theorem ParsePermission_PermissionFor:
  "ParsePermission p = Inr (resource, action) \<longleftrightarrow> p = PermissionFor resource action \<and> CHR '':'' \<notin> set resource"
proof
  let ?P = "\<lambda>x. x \<noteq> CHR '':''"
  assume "ParsePermission p = Inr (resource, action)"
  then obtain c where d: "dropWhile ?P p = c # action" and t: "takeWhile ?P p = resource"
    by (auto simp: ParsePermission_def splitN2_def split: list.splits)
  have "p = resource @ CHR '':'' # action" using d t by (simp add: dropWhile_eq_Cons_conv)
  moreover have "CHR '':'' \<notin> set resource" using set_takeWhileD [of "CHR '':''" ?P p] t by blast
  ultimately show "p = PermissionFor resource action \<and> CHR '':'' \<notin> set resource" by (simp add: PermissionFor_def)
next
  assume p: "p = PermissionFor resource action \<and> CHR '':'' \<notin> set resource"
  then have "\<forall>x \<in> set resource. x \<noteq> CHR '':''" by blast
  with p show "ParsePermission p = Inr (resource, action)"
    by (simp add: PermissionFor_def ParsePermission_def splitN2_def takeWhile_append2 dropWhile_append2)
qed

text \<open>
  \<open>ValidateRoleTransition\<close> accepts a target role exactly when it is known and either at most one
  level above the highest current level, or the current level is zero: a viewer may become
  administrator in one step.
\<close>

theorem ValidateRoleTransition_correct:
  "ValidateRoleTransition e current target = None \<longleftrightarrow>
    0 \<le> getRoleLevel e target \<and>
    (let cur = Max (insert 0 (getRoleLevel e ` set current)) in getRoleLevel e target \<le> cur + 1 \<or> cur = 0)"
proof -
  have "(\<lambda>r cur. let l = getRoleLevel e r in if l > cur then l else cur) = max \<circ> getRoleLevel e"
    by (auto simp: fun_eq_iff max_def)
  then have run: "fold (\<lambda>r cur. let l = getRoleLevel e r in if l > cur then l else cur) current 0 =
      Max (insert 0 (getRoleLevel e ` set current))"
    using Max.set_eq_fold [of 0 "map (getRoleLevel e) current"] by (simp add: fold_map)
  define cur where "cur = Max (insert 0 (getRoleLevel e ` set current))"
  have "0 \<le> cur" by (simp add: cur_def)
  then show ?thesis unfolding ValidateRoleTransition_def run cur_def [symmetric] by (auto simp: Let_def)
qed

end
