(* ===== verification/Attempts.thy ===== *)
theory Attempts
  imports Prelude
begin

text \<open>
  The interface of the retry loops: a loop that, when attempt \<open>i\<close> fails, goes on with attempt \<open>i + 1\<close>
  from the state the failure leaves and adds something to its result. What a run looks like after
  a series of failures is proved once, from this one law, for the loops of both retry
  packages and of the pipeline executor.
\<close>

locale attempt_loop =
  fixes run :: "nat \<Rightarrow> 's \<Rightarrow> 'r"
    and fails :: "nat \<Rightarrow> bool"
    and nxt :: "nat \<Rightarrow> 's"
    and out :: "nat \<Rightarrow> 'r \<Rightarrow> 'r"
  assumes fails_step: "fails i \<Longrightarrow> run i s = out i (run (Suc i) (nxt i))"
begin

lemma run_fails:
  "a \<le> b \<Longrightarrow> (\<And>i. a \<le> i \<Longrightarrow> i < b \<Longrightarrow> fails i) \<Longrightarrow>
    run a s = foldr out [a..<b] (run b (if a = b then s else nxt (b - 1)))"
proof (induction "b - a" arbitrary: a s)
  case 0
  then show ?case by simp
next
  case (Suc m)
  then have "a < b" "fails a" by auto
  moreover have "run (Suc a) (nxt a) = foldr out [Suc a..<b] (run b (if Suc a = b then nxt a else nxt (b - 1)))"
    using Suc.hyps(2) Suc.prems by (intro Suc.hyps(1)) auto
  ultimately show ?case
    using fails_step [of a s] by (cases "Suc a = b") (auto simp: upt_conv_Cons)
qed

end

text \<open>The result of the loops that list their waits and count their calls.\<close>

definition add_wait :: "('i \<Rightarrow> 'd list) \<Rightarrow> 'i \<Rightarrow> 'r \<times> 'd list \<times> nat \<Rightarrow> 'r \<times> 'd list \<times> nat" where
  "add_wait waits i = (\<lambda>(r, ds, n). (r, waits i @ ds, Suc n))"

lemma foldr_add_wait:
  "foldr (add_wait waits) is (r, ds, n) = (r, concat (map waits is) @ ds, length is + n)"
  by (induction "is") (simp_all add: add_wait_def)

definition backoff_waits :: "(nat \<Rightarrow> 'd) \<Rightarrow> nat \<Rightarrow> 'd list" where
  "backoff_waits delay i = (if 0 < i then [delay i] else [])"

lemma concat_backoff_waits: "concat (map (backoff_waits delay) [0..<n]) = map delay [1..<n]"
  by (induction n) (auto simp: backoff_waits_def)

end
