(* ===== verification/Go_Float.thy ===== *)
theory Go_Float
  imports Prelude Complex_Main
begin

text \<open>
  Floating-point numbers in the computations of delays. A \<^verbatim>\<open>float64\<close> is a rational number, without rounding.
  The conversion of a float that no \<^verbatim>\<open>int64\<close> can hold is left to the implementation by the
  language: \<open>ovf\<close> is its result.
\<close>

definition trunc :: "rat \<Rightarrow> int" where
  "trunc x = (if 0 \<le> x then \<lfloor>x\<rfloor> else \<lceil>x\<rceil>)"

text \<open>\<^verbatim>\<open>time.Duration(f)\<close> for a float \<^verbatim>\<open>f\<close>.\<close>

definition float_dur :: "int \<Rightarrow> rat \<Rightarrow> dur" where
  "float_dur ovf x = (if i64_range (trunc x) then trunc x else ovf)"

section \<open>When nothing overflows\<close>

lemma i64_id: "i64_range x \<Longrightarrow> i64 x = x"
  by (simp add: i64_def i64_range_def)

lemma i64_id_nonneg: "0 \<le> x \<Longrightarrow> x < 2 ^ 63 \<Longrightarrow> i64 x = x"
  by (simp add: i64_id i64_range_def)

lemma float_dur_int: "i64_range x \<Longrightarrow> float_dur ovf (of_int x) = x"
  by (simp add: float_dur_def trunc_def)

lemma backoff_exact:
  assumes "0 \<le> base" and "base * 2 ^ k < 2 ^ 63"
  shows "i64 (base * float_dur ovf (2 ^ k)) = base * 2 ^ k"
proof (cases "base = 0")
  case True
  then show ?thesis by (simp add: i64_def)
next
  case False
  then have "(2::int) ^ k \<le> base * 2 ^ k" using assms(1) by simp
  moreover have "(0::int) < 2 ^ k" by simp
  ultimately have "i64_range (2 ^ k)" using assms(2) unfolding i64_range_def by (intro conjI) linarith+
  then have "float_dur ovf (2 ^ k) = 2 ^ k" using float_dur_int [of "2 ^ k" ovf] by simp
  then show ?thesis using assms by (simp add: i64_id_nonneg)
qed

lemma trunc_abs: "\<bar>of_int (trunc x)\<bar> \<le> \<bar>x\<bar>"
  by (auto simp: trunc_def)

lemma jitter_exact:
  fixes j u :: rat
  assumes "0 \<le> D" and "0 < j" and "j \<le> 1" and "0 \<le> u" and "u < 1" and "of_int D * (1 + j) < 2 ^ 63"
  defines "x \<equiv> of_int D * j * (u * 2 - 1)"
  shows "i64 (D + float_dur ovf x) = D + trunc x" and "\<bar>of_int (trunc x)\<bar> \<le> of_int D * j"
proof -
  have "\<bar>u * 2 - 1\<bar> \<le> 1" using assms(4,5) by (simp add: abs_le_iff)
  then have "\<bar>x\<bar> \<le> of_int D * j" using assms(1,2) unfolding x_def abs_mult
    by (simp add: mult_left_le)
  then show t: "\<bar>of_int (trunc x)\<bar> \<le> of_int D * j" using trunc_abs [of x] by linarith
  have "of_int D * j \<le> of_int D" using assms(1,3) by (simp add: mult_left_le)
  with t have lo: "of_int (- D) \<le> (of_int (trunc x) :: rat)" by linarith
  have "of_int (D + trunc x) < (2 ^ 63 :: rat)" using t assms(6) by (simp add: distrib_left)
  then have hi: "D + trunc x < 2 ^ 63" by (metis of_int_less_iff of_int_numeral of_int_power)
  have lo': "0 \<le> D + trunc x" using lo by linarith
  have "(of_int D :: rat) \<le> of_int D * (1 + j)" using assms(1,2) by (simp add: distrib_left)
  then have "(of_int D :: rat) < 2 ^ 63" using assms(6) by (rule le_less_trans)
  then have "D < 2 ^ 63" by (metis of_int_less_iff of_int_numeral of_int_power)
  then have "i64_range (trunc x)" using hi lo' assms(1) unfolding i64_range_def by (intro conjI) linarith+
  then show "i64 (D + float_dur ovf x) = D + trunc x" using hi lo' by (simp add: float_dur_def i64_id_nonneg)
qed

lemma of_int_less_2_63: "(of_int D :: rat) < 2 ^ 63 \<Longrightarrow> D < 2 ^ 63"
  by (metis of_int_less_iff of_int_numeral of_int_power)

end
