(* ===== verification/Retry.thy ===== *)
theory Retry
  imports Attempts Go_Float
begin

text \<open>
  The retry loop of \<^verbatim>\<open>internal/retry/exponential.go\<close>. Durations wrap at 64 bits, and \<open>ovf\<close> is the
  result of converting a float that no \<^verbatim>\<open>int64\<close> can hold. The random number of a
  jitter, the result of each call of the function and the branch that each wait takes are
  arguments, indexed by the attempt.
\<close>

section \<open>Data\<close>

datatype Strategy = StrategyFixed | StrategyLinear | StrategyExponential | StrategyExponentialWithJitter

record RetryConfig =
  RetryConfig_MaxAttempts :: int
  RetryConfig_BaseDelay :: dur
  RetryConfig_MaxDelay :: dur
  RetryConfig_Strategy :: Strategy
  RetryConfig_Jitter :: rat

type_synonym RetryOption = "RetryConfig \<Rightarrow> RetryConfig"

datatype 'e RetryError = AllAttemptsFailed int "(int \<times> 'e) option" | ContextError

datatype 'e err = PermanentError 'e | OtherError 'e

section \<open>Operations\<close>

definition WithMaxAttempts :: "int \<Rightarrow> RetryOption" where
  "WithMaxAttempts n c = c\<lparr>RetryConfig_MaxAttempts := n\<rparr>"

definition WithBaseDelay :: "dur \<Rightarrow> RetryOption" where
  "WithBaseDelay d c = c\<lparr>RetryConfig_BaseDelay := d\<rparr>"

definition WithMaxDelay :: "dur \<Rightarrow> RetryOption" where
  "WithMaxDelay d c = c\<lparr>RetryConfig_MaxDelay := d\<rparr>"

definition WithExponentialBackoff :: RetryOption where
  "WithExponentialBackoff c = c\<lparr>RetryConfig_Strategy := StrategyExponential\<rparr>"

definition WithJitter :: "rat \<Rightarrow> RetryOption" where
  "WithJitter j c = c\<lparr>RetryConfig_Jitter := j\<rparr>"

definition DefaultConfig :: RetryConfig where
  "DefaultConfig = \<lparr>RetryConfig_MaxAttempts = 3, RetryConfig_BaseDelay = 100 * Millisecond,
     RetryConfig_MaxDelay = 30 * Second, RetryConfig_Strategy = StrategyExponential, RetryConfig_Jitter = 2 / 10\<rparr>"

definition calculateDelay :: "RetryConfig \<Rightarrow> nat \<Rightarrow> rat \<Rightarrow> int \<Rightarrow> dur" where
  "calculateDelay c attempt u ovf =
     (let pow = float_dur ovf (2 ^ (attempt - 1));
          delay =
            (case RetryConfig_Strategy c of
               StrategyFixed \<Rightarrow> RetryConfig_BaseDelay c
             | StrategyLinear \<Rightarrow> i64 (RetryConfig_BaseDelay c * int attempt)
             | StrategyExponential \<Rightarrow> i64 (RetryConfig_BaseDelay c * pow)
             | StrategyExponentialWithJitter \<Rightarrow>
                 (let delay = i64 (RetryConfig_BaseDelay c * pow)
                  in if 0 < RetryConfig_Jitter c
                     then let jitter = float_dur ovf (of_int delay * RetryConfig_Jitter c * (u * 2 - 1));
                              delay' = i64 (delay + jitter)
                          in if delay' < 0 then RetryConfig_BaseDelay c else delay'
                     else delay))
      in if 0 < RetryConfig_MaxDelay c \<and> RetryConfig_MaxDelay c < delay then RetryConfig_MaxDelay c else delay)"

text \<open>
  The loop of \<^verbatim>\<open>Do\<close>: \<open>delay k\<close> is the delay of attempt \<open>k\<close>, \<open>cancelled k\<close> tells that the wait before
  it ended with the context, \<open>fn k\<close> is the error of the call, if any. The result comes
  with the delays waited for and the number of calls.
\<close>

function Do_loop ::
  "RetryConfig \<Rightarrow> (nat \<Rightarrow> dur) \<Rightarrow> (nat \<Rightarrow> bool) \<Rightarrow> (nat \<Rightarrow> 'e option) \<Rightarrow> nat \<Rightarrow> (int \<times> 'e) option \<Rightarrow>
    'e RetryError option \<times> dur list \<times> nat" where
  "Do_loop c delay cancelled fn attempt lastErr =
     (if \<not> int attempt < RetryConfig_MaxAttempts c
      then (Some (AllAttemptsFailed (RetryConfig_MaxAttempts c) lastErr), [], 0)
      else if attempt > 0 \<and> cancelled attempt then (Some ContextError, [], 0)
      else let waited = (if attempt > 0 then [delay attempt] else [])
           in case fn attempt of
                None \<Rightarrow> (None, waited, 1)
              | Some err \<Rightarrow>
                  (let (r, ds, n) = Do_loop c delay cancelled fn (Suc attempt) (Some (int attempt + 1, err))
                   in (r, waited @ ds, Suc n)))"
  by pat_completeness auto
termination
  by (relation "measure (\<lambda>(c, delay, cancelled, fn, attempt, lastErr). nat (RetryConfig_MaxAttempts c) - attempt)") auto

definition Do ::
  "RetryOption list \<Rightarrow> (nat \<Rightarrow> rat) \<Rightarrow> int \<Rightarrow> (nat \<Rightarrow> bool) \<Rightarrow> (nat \<Rightarrow> 'e option) \<Rightarrow> 'e RetryError option \<times> dur list \<times> nat" where
  "Do opts u ovf cancelled fn =
     (let c = fold (\<lambda>opt c. opt c) opts DefaultConfig
      in Do_loop c (\<lambda>k. calculateDelay c k (u k) ovf) cancelled fn 0 None)"

function DoWithData_loop ::
  "RetryConfig \<Rightarrow> (nat \<Rightarrow> dur) \<Rightarrow> (nat \<Rightarrow> bool) \<Rightarrow> (nat \<Rightarrow> 'e + 'a) \<Rightarrow> nat \<Rightarrow> (int \<times> 'e) option \<Rightarrow>
    ('e RetryError + 'a) \<times> dur list \<times> nat" where
  "DoWithData_loop c delay cancelled fn attempt lastErr =
     (if \<not> int attempt < RetryConfig_MaxAttempts c
      then (Inl (AllAttemptsFailed (RetryConfig_MaxAttempts c) lastErr), [], 0)
      else if attempt > 0 \<and> cancelled attempt then (Inl ContextError, [], 0)
      else let waited = (if attempt > 0 then [delay attempt] else [])
           in case fn attempt of
                Inr result \<Rightarrow> (Inr result, waited, 1)
              | Inl err \<Rightarrow>
                  (let (r, ds, n) = DoWithData_loop c delay cancelled fn (Suc attempt) (Some (int attempt + 1, err))
                   in (r, waited @ ds, Suc n)))"
  by pat_completeness auto
termination
  by (relation "measure (\<lambda>(c, delay, cancelled, fn, attempt, lastErr). nat (RetryConfig_MaxAttempts c) - attempt)") auto

definition DoWithData ::
  "RetryOption list \<Rightarrow> (nat \<Rightarrow> rat) \<Rightarrow> int \<Rightarrow> (nat \<Rightarrow> bool) \<Rightarrow> (nat \<Rightarrow> 'e + 'a) \<Rightarrow> ('e RetryError + 'a) \<times> dur list \<times> nat" where
  "DoWithData opts u ovf cancelled fn =
     (let c = fold (\<lambda>opt c. opt c) opts DefaultConfig
      in DoWithData_loop c (\<lambda>k. calculateDelay c k (u k) ovf) cancelled fn 0 None)"

definition IsPermanent :: "'e err \<Rightarrow> bool" where
  "IsPermanent e = (case e of PermanentError _ \<Rightarrow> True | OtherError _ \<Rightarrow> False)"

declare Do_loop.simps [simp del] DoWithData_loop.simps [simp del]

text \<open>An example.\<close>

definition jittered :: RetryConfig where
  "jittered = DefaultConfig\<lparr>RetryConfig_Strategy := StrategyExponentialWithJitter\<rparr>"

section \<open>Lemmas on delays\<close>

lemma delay_capped: "0 < RetryConfig_MaxDelay c \<Longrightarrow> calculateDelay c k u ovf \<le> RetryConfig_MaxDelay c"
  by (auto simp: calculateDelay_def Let_def)

lemma delay_exponential:
  assumes "RetryConfig_Strategy c = StrategyExponential" and "0 < RetryConfig_MaxDelay c"
    and "0 \<le> RetryConfig_BaseDelay c" and "RetryConfig_BaseDelay c * 2 ^ (k - 1) < 2 ^ 63"
  shows "calculateDelay c k u ovf = min (RetryConfig_MaxDelay c) (RetryConfig_BaseDelay c * 2 ^ (k - 1))"
  using assms by (simp add: calculateDelay_def Let_def backoff_exact)

lemma delay_jitter:
  assumes "RetryConfig_Strategy c = StrategyExponentialWithJitter" and "0 < RetryConfig_MaxDelay c"
    and "0 \<le> RetryConfig_BaseDelay c" and "D = RetryConfig_BaseDelay c * 2 ^ (k - 1)" and "D < 2 ^ 63"
    and "0 \<le> RetryConfig_Jitter c" and "RetryConfig_Jitter c \<le> 1" and "of_int D * (1 + RetryConfig_Jitter c) < 2 ^ 63"
    and "0 \<le> u" and "u < 1"
  shows "\<exists>t. \<bar>of_int t\<bar> \<le> of_int D * RetryConfig_Jitter c \<and> 0 \<le> D + t \<and>
    calculateDelay c k u ovf = min (RetryConfig_MaxDelay c) (D + t)"
proof -
  have D: "0 \<le> D" using assms(3,4) by simp
  have base: "i64 (RetryConfig_BaseDelay c * float_dur ovf (2 ^ (k - 1))) = D"
    using backoff_exact [OF assms(3), of "k - 1" ovf] assms(4,5) by simp
  show ?thesis
  proof (cases "RetryConfig_Jitter c = 0")
    case True
    then show ?thesis using assms(1,2) D by (intro exI [of _ 0]) (simp add: calculateDelay_def base Let_def del: One_nat_def)
  next
    case False
    then have j: "0 < RetryConfig_Jitter c" using assms(6) by simp
    define t where "t = trunc (of_int D * RetryConfig_Jitter c * (u * 2 - 1))"
    note jit = jitter_exact [OF D j assms(7,9,10,8), folded t_def]
    have "of_int D * RetryConfig_Jitter c \<le> of_int D" using D assms(7) by (simp add: mult_left_le)
    then have "0 \<le> D + t" using jit(2) by linarith
    then show ?thesis
      using assms(1,2) j jit by (intro exI [of _ t]) (simp add: calculateDelay_def base Let_def del: One_nat_def)
  qed
qed

section \<open>Lemmas on the loop\<close>

interpretation do_loop: attempt_loop "Do_loop c delay cancelled fn"
  "\<lambda>i. int i < RetryConfig_MaxAttempts c \<and> fn i \<noteq> None \<and> \<not> (0 < i \<and> cancelled i)"
  "\<lambda>i. map_option (Pair (int i + 1)) (fn i)" "add_wait (backoff_waits delay)" for c delay cancelled fn
  by unfold_locales (subst Do_loop.simps, auto simp: add_wait_def backoff_waits_def Let_def split: prod.splits)

lemma Do_loop_fails:
  assumes "int k \<le> RetryConfig_MaxAttempts c"
    and "\<And>i. i < k \<Longrightarrow> fn i = Some (e i)" and "\<And>i. i < k \<Longrightarrow> 0 < i \<Longrightarrow> \<not> cancelled i"
  shows "Do_loop c delay cancelled fn 0 None =
    (let (r, ds, n) = Do_loop c delay cancelled fn k (if k = 0 then None else Some (int k, e (k - 1)))
     in (r, map delay [1..<k] @ ds, k + n))"
proof -
  let ?l = "if k = 0 then None else Some (int k, e (k - 1))"
  have "Do_loop c delay cancelled fn 0 None =
      foldr (add_wait (backoff_waits delay)) [0..<k]
        (Do_loop c delay cancelled fn k (if 0 = k then None else map_option (Pair (int (k - 1) + 1)) (fn (k - 1))))"
    by (rule do_loop.run_fails) (use assms in auto)
  also have "(if 0 = k then None else map_option (Pair (int (k - 1) + 1)) (fn (k - 1))) = ?l"
    using assms(2) [of "k - 1"] by auto
  finally show ?thesis
    by (cases "Do_loop c delay cancelled fn k ?l") (simp only: foldr_add_wait concat_backoff_waits Let_def prod.case length_upt diff_zero)
qed

lemma DoWithData_loop_Do:
  "Do_loop c delay cancelled (\<lambda>k. case fn k of Inl e \<Rightarrow> Some e | Inr _ \<Rightarrow> None) a l =
    (let (r, ds, n) = DoWithData_loop c delay cancelled fn a l in (case r of Inl e \<Rightarrow> Some e | Inr _ \<Rightarrow> None, ds, n))"
proof (induction c delay cancelled fn a l rule: DoWithData_loop.induct)
  case (1 c delay cancelled fn a l)
  then show ?case
    by (subst Do_loop.simps, subst DoWithData_loop.simps) (auto simp: Let_def split: sum.splits prod.splits)
qed

section \<open>Properties\<close>



text \<open>
  \<open>DoWithData\<close> is \<open>Do\<close> with a value: for a function with the same errors both make the same
  calls, wait for the same delays and return the same error.
\<close>

theorem DoWithData_Do:
  "Do opts u ovf cancelled (\<lambda>k. case fn k of Inl e \<Rightarrow> Some e | Inr _ \<Rightarrow> None) =
    (let (r, ds, n) = DoWithData opts u ovf cancelled fn in (case r of Inl e \<Rightarrow> Some e | Inr _ \<Rightarrow> None, ds, n))"
  by (simp add: Do_def DoWithData_def DoWithData_loop_Do Let_def)

text \<open>
  The delays of the exponential strategies as long as no product leaves 64 bits: without jitter the
  base delay doubled for every attempt after the first, and the limit when that is more; with
  a jitter of at most one, within that fraction of it, never negative and never above the
  limit.
\<close>

theorem calculateDelay_exponential:
  assumes "0 < RetryConfig_MaxDelay c" and "0 \<le> RetryConfig_BaseDelay c"
    and "D = RetryConfig_BaseDelay c * 2 ^ (k - 1)" and "0 \<le> RetryConfig_Jitter c" and "RetryConfig_Jitter c \<le> 1"
    and "of_int D * (1 + RetryConfig_Jitter c) < 2 ^ 63" and "0 \<le> u" and "u < 1"
  shows "(RetryConfig_Strategy c = StrategyExponential \<longrightarrow> calculateDelay c k u ovf = min (RetryConfig_MaxDelay c) D) \<and>
    (RetryConfig_Strategy c = StrategyExponentialWithJitter \<longrightarrow>
      0 \<le> calculateDelay c k u ovf \<and> calculateDelay c k u ovf \<le> RetryConfig_MaxDelay c \<and>
      min (of_int (RetryConfig_MaxDelay c)) (of_int D * (1 - RetryConfig_Jitter c)) \<le> (of_int (calculateDelay c k u ovf) :: rat) \<and>
      (of_int (calculateDelay c k u ovf) :: rat) \<le> of_int D * (1 + RetryConfig_Jitter c))"
proof -
  have D: "0 \<le> D" using assms(2,3) by simp
  have "(of_int D :: rat) \<le> of_int D * (1 + RetryConfig_Jitter c)" using assms(4) D by (simp add: distrib_left)
  then have lt: "D < 2 ^ 63" using of_int_less_2_63 [of D] assms(6) by linarith
  have "calculateDelay c k u ovf = min (RetryConfig_MaxDelay c) D" if "RetryConfig_Strategy c = StrategyExponential"
    using that assms(1-3) lt by (simp add: delay_exponential)
  moreover have "0 \<le> d \<and> d \<le> RetryConfig_MaxDelay c \<and>
      min (of_int (RetryConfig_MaxDelay c)) (of_int D * (1 - RetryConfig_Jitter c)) \<le> (of_int d :: rat) \<and>
      (of_int d :: rat) \<le> of_int D * (1 + RetryConfig_Jitter c)"
    if t: "\<bar>of_int t\<bar> \<le> of_int D * RetryConfig_Jitter c" "0 \<le> D + t" "d = min (RetryConfig_MaxDelay c) (D + t)" for t d
  proof -
    have "of_int (D + t) \<le> of_int D * (1 + RetryConfig_Jitter c)" "of_int D * (1 - RetryConfig_Jitter c) \<le> (of_int (D + t) :: rat)"
      using t(1) by (simp_all add: algebra_simps abs_le_iff)
    then show ?thesis using t(2,3) assms(1) by (auto simp: min_def)
  qed
  ultimately show ?thesis using delay_jitter [OF _ assms(1-3) lt assms(4-8), of ovf] by blast
qed

theorem calculateDelay_exponential_witness:
  "calculateDelay jittered 9 (3 / 4) 0 = 28160000000 \<and> (25600000000 * (1 - 2 / 10) :: rat) \<le> 28160000000"
proof -
  have "calculateDelay jittered 9 (3 / 4) 0 = 28160000000"
    by code_simp
  then show ?thesis
    using calculateDelay_exponential [of jittered 25600000000 9 "3 / 4" 0]
    by (simp add: jittered_def DefaultConfig_def time_units)
qed

text \<open>
  With the default configuration the first 37 waits follow the doubling up to the limit. The wait before
  the attempt with index 38 is negative, because the product wraps, and so no wait at all.
\<close>

theorem default_backoff:
  "(\<forall>k \<in> {1..37}. calculateDelay DefaultConfig k u ovf = min (30 * Second) (100 * Millisecond * 2 ^ (k - 1))) \<and>
    calculateDelay DefaultConfig 38 u ovf < 0"
proof (intro conjI ballI)
  fix k :: nat assume k: "k \<in> {1..37}"
  then have "(2::int) ^ (k - 1) \<le> 2 ^ 36" by (intro power_increasing) auto
  then show "calculateDelay DefaultConfig k u ovf = min (30 * Second) (100 * Millisecond * 2 ^ (k - 1))"
    by (subst delay_exponential) (simp_all add: DefaultConfig_def time_units)
next
  show "calculateDelay DefaultConfig 38 u ovf < 0"
    by (simp add: calculateDelay_def DefaultConfig_def float_dur_def trunc_def i64_range_def i64_def time_units)
qed

theorem default_backoff_witness: "calculateDelay DefaultConfig 10 0 0 = 30 * Second"
proof -
  have "(10::nat) \<in> {1..37}" by simp
  then have "calculateDelay DefaultConfig 10 0 0 = min (30 * Second) (100 * Millisecond * 2 ^ (10 - 1))"
    using default_backoff [of 0 0] by blast
  then show ?thesis by (simp add: time_units)
qed

end
