(* ===== verification/Retry_Pkg.thy ===== *)
theory Retry_Pkg
  imports Retry "HOL-Library.Signed_Division"
begin

text \<open>
  The retryer of \<^verbatim>\<open>pkg/retry/retry.go\<close> with its result cache. As in the other retry package the
  results of the calls, the branches of the waits and the readings of the clock are arguments. The
  cache counts capacity and entries as the code does; which entry an eviction removes
  is the choice of the iteration order.
\<close>

section \<open>Data\<close>

datatype RetryerStrategy = RetryerLinear | RetryerExponential | RetryerFibonacci | RetryerOther int

datatype 'e RetryerError = ErrRetryFailed "'e option" | ErrContextCanceled

record 'e RetryerConfig =
  RetryerConfig_MaxAttempts :: int
  RetryerConfig_BaseDelay :: dur
  RetryerConfig_MaxDelay :: dur
  RetryerConfig_Strategy :: RetryerStrategy
  RetryerConfig_Jitter :: dur
  RetryerConfig_RetryableErr :: "('e \<Rightarrow> bool) option"

record ('e, 'a) RetryerResult =
  RetryerResult_Value :: "'a option"
  RetryerResult_Err :: "'e RetryerError option"
  RetryerResult_Attempts :: int

record ('e, 'a) cacheEntry =
  cacheEntry_value :: "'a option"
  cacheEntry_err :: "'e RetryerError option"
  cacheEntry_expiresAt :: gotime

record ('e, 'a) resultCache =
  resultCache_entries :: "(string, ('e, 'a) cacheEntry) gmap"
  resultCache_ttl :: dur
  resultCache_capacity :: int

record ('e, 'a) Retryer =
  Retryer_config :: "'e RetryerConfig"
  Retryer_cache :: "('e, 'a) resultCache option"

section \<open>Operations\<close>

definition newResultCache :: "dur \<Rightarrow> int \<Rightarrow> ('e, 'a) resultCache" where
  "newResultCache ttl capacity =
     \<lparr>resultCache_entries = gm_empty, resultCache_ttl = ttl,
      resultCache_capacity = (if capacity \<le> 0 then 1000 else capacity)\<rparr>"

definition cache_Get ::
  "gotime \<Rightarrow> string \<Rightarrow> ('e, 'a) resultCache \<Rightarrow> ('a option \<times> 'e RetryerError option) option \<times> ('e, 'a) resultCache" where
  "cache_Get now key c =
     (case gm_get (resultCache_entries c) key of
        None \<Rightarrow> (None, c)
      | Some en \<Rightarrow>
          if \<not> time_IsZero (cacheEntry_expiresAt en) \<and> now > cacheEntry_expiresAt en
          then (None, c\<lparr>resultCache_entries := gm_del key (resultCache_entries c)\<rparr>)
          else (Some (cacheEntry_value en, cacheEntry_err en), c))"

text \<open>The eviction of \<^verbatim>\<open>Set\<close>: the first key of an iteration goes when the cache is full.\<close>

definition evict :: "string ranger \<Rightarrow> ('e, 'a) resultCache \<Rightarrow> (string, ('e, 'a) cacheEntry) gmap" where
  "evict rng c =
     (if int (gm_len (resultCache_entries c)) \<ge> resultCache_capacity c
      then (case range_over rng 0 (resultCache_entries c) of
              [] \<Rightarrow> resultCache_entries c
            | k # _ \<Rightarrow> gm_del k (resultCache_entries c))
      else resultCache_entries c)"

definition cache_Set ::
  "gotime \<Rightarrow> string ranger \<Rightarrow> string \<Rightarrow> 'a option \<Rightarrow> 'e RetryerError option \<Rightarrow> dur \<Rightarrow> ('e, 'a) resultCache \<Rightarrow> ('e, 'a) resultCache" where
  "cache_Set now rng key value err ttl c =
     (let entries = evict rng c;
          exp = (if ttl > 0 then now + ttl else 0)
      in c\<lparr>resultCache_entries := gm_set key
           \<lparr>cacheEntry_value = value, cacheEntry_err = err, cacheEntry_expiresAt = exp\<rparr> entries\<rparr>)"

definition NewRetryer :: "'e RetryerConfig \<Rightarrow> ('e, 'a) Retryer" where
  "NewRetryer c =
     \<lparr>Retryer_config = \<lparr>
        RetryerConfig_MaxAttempts = (if RetryerConfig_MaxAttempts c \<le> 0 then 3 else RetryerConfig_MaxAttempts c),
        RetryerConfig_BaseDelay = (if RetryerConfig_BaseDelay c \<le> 0 then 100 * Millisecond else RetryerConfig_BaseDelay c),
        RetryerConfig_MaxDelay = (if RetryerConfig_MaxDelay c \<le> 0 then 30 * Second else RetryerConfig_MaxDelay c),
        RetryerConfig_Strategy = RetryerConfig_Strategy c,
        RetryerConfig_Jitter = RetryerConfig_Jitter c,
        RetryerConfig_RetryableErr = (case RetryerConfig_RetryableErr c of None \<Rightarrow> Some (\<lambda>e. True) | Some f \<Rightarrow> Some f)\<rparr>,
      Retryer_cache = None\<rparr>"

definition WithCache :: "dur \<Rightarrow> int \<Rightarrow> ('e, 'a) Retryer \<Rightarrow> ('e, 'a) Retryer" where
  "WithCache ttl capacity r = r\<lparr>Retryer_cache := Some (newResultCache ttl capacity)\<rparr>"

definition cacheKey :: string where
  "cacheKey = []"

text \<open>The variables \<^verbatim>\<open>a\<close> and \<^verbatim>\<open>b\<close> of \<^verbatim>\<open>fibonacciDelay\<close> are 64-bit integers.\<close>

fun fib_loop :: "nat \<Rightarrow> int \<times> int \<Rightarrow> int \<times> int" where
  "fib_loop 0 (a, b) = (a, b)"
| "fib_loop (Suc n) (a, b) = fib_loop n (b, i64 (a + b))"

definition fibonacciDelay :: "nat \<Rightarrow> dur \<Rightarrow> dur" where
  "fibonacciDelay attempt base = i64 (snd (fib_loop (attempt - 2) (1, 1)) * base)"

definition retryer_delay :: "'e RetryerConfig \<Rightarrow> int \<Rightarrow> nat \<Rightarrow> dur" where
  "retryer_delay c ovf attempt =
     (let d = (case RetryerConfig_Strategy c of
                 RetryerLinear \<Rightarrow> i64 (int attempt * RetryerConfig_BaseDelay c)
               | RetryerExponential \<Rightarrow> i64 (float_dur ovf (2 ^ (attempt - 1)) * RetryerConfig_BaseDelay c)
               | RetryerFibonacci \<Rightarrow> fibonacciDelay attempt (RetryerConfig_BaseDelay c)
               | RetryerOther _ \<Rightarrow> i64 (int attempt * RetryerConfig_BaseDelay c));
          d = (if RetryerConfig_MaxDelay c > 0 \<and> d > RetryerConfig_MaxDelay c then RetryerConfig_MaxDelay c else d)
      in if RetryerConfig_Jitter c > 0
         then let j = i64 (RetryerConfig_Jitter c * int attempt) smod i64 (RetryerConfig_Jitter c + 1) in i64 (d + j)
         else d)"

definition retryable :: "'e RetryerConfig \<Rightarrow> 'e \<Rightarrow> bool" where
  "retryable c e = (case RetryerConfig_RetryableErr c of None \<Rightarrow> True | Some f \<Rightarrow> f e)"

text \<open>
  The loop of \<^verbatim>\<open>Do\<close> from attempt \<open>k\<close> on. \<open>before k\<close> and \<open>during k\<close> tell that the context was done
  before attempt \<open>k\<close> and in the wait after it. The first component is the value or the error of
  a return inside the loop, \<open>None\<close> when the loop ends; then come \<^verbatim>\<open>lastErr\<close>, \<^verbatim>\<open>attempts\<close> and the
  delays waited for.
\<close>

function Retryer_loop ::
  "'e RetryerConfig \<Rightarrow> (nat \<Rightarrow> dur) \<Rightarrow> (nat \<Rightarrow> bool) \<Rightarrow> (nat \<Rightarrow> bool) \<Rightarrow> (nat \<Rightarrow> 'e + 'a) \<Rightarrow> nat \<Rightarrow> 'e option \<Rightarrow> nat \<Rightarrow>
    ('e RetryerError + 'a) option \<times> 'e option \<times> nat \<times> dur list" where
  "Retryer_loop c delay before during fn k lastErr attempts =
     (if \<not> int k \<le> RetryerConfig_MaxAttempts c then (None, lastErr, attempts, [])
      else if before k then (Some (Inl ErrContextCanceled), lastErr, attempts, [])
      else case fn k of
             Inr v \<Rightarrow> (Some (Inr v), lastErr, k, [])
           | Inl err \<Rightarrow>
               if \<not> retryable c err then (None, Some err, k, [])
               else if int k < RetryerConfig_MaxAttempts c
               then if during k then (Some (Inl ErrContextCanceled), Some err, k, [delay k])
                    else let (r, l, n, ds) = Retryer_loop c delay before during fn (Suc k) (Some err) k in (r, l, n, delay k # ds)
               else Retryer_loop c delay before during fn (Suc k) (Some err) k)"
  by pat_completeness auto
termination
  by (relation "measure (\<lambda>(c, delay, before, during, fn, k, lastErr, attempts). Suc (nat (RetryerConfig_MaxAttempts c)) - k)") auto

declare Retryer_loop.simps [simp del]

definition Retryer_run ::
  "gotime \<Rightarrow> string ranger \<Rightarrow> int \<Rightarrow> (nat \<Rightarrow> bool) \<Rightarrow> (nat \<Rightarrow> bool) \<Rightarrow> (nat \<Rightarrow> 'e + 'a) \<Rightarrow> ('e, 'a) Retryer \<Rightarrow>
    ('e, 'a) RetryerResult \<times> ('e, 'a) Retryer" where
  "Retryer_run now rng ovf before during fn r =
     (let c = Retryer_config r;
          set = (\<lambda>val err. r\<lparr>Retryer_cache := map_option (\<lambda>ca. cache_Set now rng cacheKey val err (resultCache_ttl ca) ca) (Retryer_cache r)\<rparr>)
      in case Retryer_loop c (retryer_delay c ovf) before during fn 1 None 0 of
           (Some (Inr v), _, n, _) \<Rightarrow>
             (\<lparr>RetryerResult_Value = Some v, RetryerResult_Err = None, RetryerResult_Attempts = int n\<rparr>, set (Some v) None)
         | (Some (Inl e), _, n, _) \<Rightarrow>
             (\<lparr>RetryerResult_Value = None, RetryerResult_Err = Some e, RetryerResult_Attempts = int n\<rparr>, r)
         | (None, l, n, _) \<Rightarrow>
             (\<lparr>RetryerResult_Value = None, RetryerResult_Err = Some (ErrRetryFailed l), RetryerResult_Attempts = int n\<rparr>,
              set None (Some (ErrRetryFailed l))))"

definition Retryer_Do ::
  "gotime \<Rightarrow> gotime \<Rightarrow> string ranger \<Rightarrow> int \<Rightarrow> (nat \<Rightarrow> bool) \<Rightarrow> (nat \<Rightarrow> bool) \<Rightarrow> (nat \<Rightarrow> 'e + 'a) \<Rightarrow> ('e, 'a) Retryer \<Rightarrow>
    ('e, 'a) RetryerResult \<times> ('e, 'a) Retryer" where
  "Retryer_Do now now' rng ovf before during fn r =
     (case Retryer_cache r of
        None \<Rightarrow> Retryer_run now' rng ovf before during fn r
      | Some ca \<Rightarrow>
          (let (hit, ca') = cache_Get now cacheKey ca; r' = r\<lparr>Retryer_cache := Some ca'\<rparr>
           in case hit of
                Some (val, err) \<Rightarrow>
                  (\<lparr>RetryerResult_Value = val, RetryerResult_Err = err, RetryerResult_Attempts = 0\<rparr>, r')
              | None \<Rightarrow> Retryer_run now' rng ovf before during fn r'))"

definition ResetCache :: "('e, 'a) Retryer \<Rightarrow> ('e, 'a) Retryer" where
  "ResetCache r = r\<lparr>Retryer_cache := map_option (\<lambda>ca. ca\<lparr>resultCache_entries := gm_empty\<rparr>) (Retryer_cache r)\<rparr>"

section \<open>Definitions for the statements\<close>

fun fib :: "nat \<Rightarrow> int" where
  "fib 0 = 0"
| "fib (Suc 0) = 1"
| "fib (Suc (Suc n)) = fib n + fib (Suc n)"

definition cache_inv :: "('e, 'a) resultCache \<Rightarrow> bool" where
  "cache_inv c \<longleftrightarrow> gm_inv (resultCache_entries c) \<and> 0 < resultCache_capacity c \<and>
     int (gm_len (resultCache_entries c)) \<le> resultCache_capacity c"

definition two_attempts :: "(string, int) Retryer" where
  "two_attempts = NewRetryer \<lparr>RetryerConfig_MaxAttempts = 2, RetryerConfig_BaseDelay = 0, RetryerConfig_MaxDelay = 0,
     RetryerConfig_Strategy = RetryerFibonacci, RetryerConfig_Jitter = 0, RetryerConfig_RetryableErr = None\<rparr>"

section \<open>Lemmas\<close>

lemma newResultCache_inv: "cache_inv (newResultCache ttl cap)"
  by (simp add: cache_inv_def newResultCache_def gomap)

lemma cache_Get_inv: "cache_inv c \<Longrightarrow> cache_inv (snd (cache_Get now key c))"
  by (auto simp: cache_inv_def cache_Get_def gm.inv_del gm.len_del split: option.splits)

lemma cache_Set_inv:
  assumes "ranger_ok rng" and "cache_inv c"
  shows "cache_inv (cache_Set now rng key v err ttl c)"
proof -
  let ?m = "resultCache_entries c"
  have inv: "gm_inv ?m" and cap: "0 < resultCache_capacity c" "int (gm_len ?m) \<le> resultCache_capacity c"
    using assms(2) by (simp_all add: cache_inv_def)
  have iter: "set (range_over rng 0 ?m) = set (gm_keys ?m)"
    using range_over_iter [OF assms(1) inv, of 0] by (simp add: gm_iter_def)
  have "gm_inv (evict rng c) \<and> int (gm_len (evict rng c)) < resultCache_capacity c"
  proof (cases "range_over rng 0 ?m")
    case Nil
    then have "gm_len ?m = 0" using iter by (simp add: gm_keys_def gm_len_def)
    then show ?thesis using inv cap Nil by (simp add: evict_def)
  next
    case (Cons k ks)
    then have "k \<in> set (gm_keys ?m)" using iter by force
    then have "gm_len (gm_del k ?m) = gm_len ?m - 1" "0 < gm_len ?m"
      using gm.len_del [OF inv, of k] gm_get_keys [of ?m k] by (auto simp: gm_keys_def gm_len_def)
    then show ?thesis using inv cap Cons by (auto simp: evict_def gm.inv_del)
  qed
  then show ?thesis
    using cap by (simp add: cache_Set_def Let_def cache_inv_def gm.inv_put gm.len_put)
qed

lemma fib_mono: "fib n \<le> fib (Suc n)" and fib_nonneg: "0 \<le> fib n"
  by (induction n rule: fib.induct) auto

lemma fib_mono': "m \<le> n \<Longrightarrow> fib m \<le> fib n"
  by (induction rule: dec_induct) (auto intro: order_trans [OF _ fib_mono])

lemma fib_loop_exact:
  assumes "fib (n + Suc m) < 2 ^ 63"
  shows "fib_loop n (fib m, fib (Suc m)) = (fib (n + m), fib (n + Suc m))"
  using assms
proof (induction n arbitrary: m)
  case (Suc n)
  have "fib (Suc (Suc m)) \<le> fib (Suc n + Suc m)" by (rule fib_mono') simp
  with Suc.prems have "i64 (fib m + fib (Suc m)) = fib (Suc (Suc m))"
    using fib_nonneg [of "Suc (Suc m)"] by (simp add: i64_id_nonneg)
  with Suc.IH [of "Suc m"] Suc.prems show ?case by simp
qed simp

lemma fibonacciDelay_exact:
  assumes "1 \<le> attempt" and "fib attempt < 2 ^ 63" and "0 \<le> fib attempt * base" and "fib attempt * base < 2 ^ 63"
  shows "fibonacciDelay attempt base = fib attempt * base"
proof (cases "attempt = 1")
  case True
  then show ?thesis using assms(3,4) by (simp add: fibonacciDelay_def i64_id_nonneg)
next
  case False
  then have "2 \<le> attempt" using assms(1) by simp
  then obtain m where m: "attempt = Suc (Suc m)" using le_Suc_ex [of 2 attempt] by auto
  with fib_loop_exact [of m 1] assms(2) have "snd (fib_loop m (1, 1)) = fib attempt" by simp
  then show ?thesis using assms(3,4) m by (simp add: fibonacciDelay_def i64_id_nonneg)
qed

text \<open>The state of the loop is the last error with the number of attempts.\<close>

interpretation retryer_loop: attempt_loop "\<lambda>k (l, n). Retryer_loop c delay before during fn k l n"
  "\<lambda>i. int i \<le> RetryerConfig_MaxAttempts c \<and> (\<exists>e. fn i = Inl e \<and> retryable c e) \<and> \<not> before i \<and> \<not> during i"
  "\<lambda>i. (case fn i of Inl e \<Rightarrow> Some e | Inr _ \<Rightarrow> None, i)"
  "\<lambda>i (r, l, n, ds). (r, l, n, (if int i < RetryerConfig_MaxAttempts c then [delay i] else []) @ ds)"
  for c delay before during fn
proof (unfold_locales, goal_cases)
  case (1 i s)
  then show ?case
    by (cases s) (auto simp: Retryer_loop.simps [of c delay before during fn i] Let_def split: prod.splits)
qed

lemma foldr_delays: "\<exists>ds'. foldr (\<lambda>i (r, l, n, ds). (r, l, n, f i @ ds)) is (r, l, n, ds) = (r, l, n, ds' @ ds)"
  by (induction "is") auto

lemma Retryer_loop_fails:
  assumes "int k \<le> RetryerConfig_MaxAttempts c"
    and "\<And>i. 1 \<le> i \<Longrightarrow> i \<le> k \<Longrightarrow> fn i = Inl (e i) \<and> retryable c (e i) \<and> \<not> before i \<and> \<not> during i"
  shows "\<exists>ds. Retryer_loop c delay before during fn 1 None 0 =
    (let (r, l', n', ds') = Retryer_loop c delay before during fn (Suc k) (if k = 0 then None else Some (e k)) k
     in (r, l', n', ds @ ds'))"
proof (cases "k = 0")
  case True
  then show ?thesis by (intro exI [of _ "[]"]) (simp split: prod.splits)
next
  case False
  let ?s = "(Some (e k), k)"
  have "(case (None, 0) of (l, n) \<Rightarrow> Retryer_loop c delay before during fn 1 l n) =
      foldr (\<lambda>i (r, l, n, ds). (r, l, n, (if int i < RetryerConfig_MaxAttempts c then [delay i] else []) @ ds)) [1..<Suc k]
        (case if 1 = Suc k then (None, 0) else (case fn (Suc k - 1) of Inl e \<Rightarrow> Some e | Inr _ \<Rightarrow> None, Suc k - 1) of
           (l, n) \<Rightarrow> Retryer_loop c delay before during fn (Suc k) l n)"
    by (rule retryer_loop.run_fails) (use assms in force)+
  also have "(if 1 = Suc k then (None, 0) else (case fn (Suc k - 1) of Inl e \<Rightarrow> Some e | Inr _ \<Rightarrow> None, Suc k - 1)) = ?s"
    using assms(2) [of k] False by auto
  finally show ?thesis
    using foldr_delays [of "\<lambda>i. if int i < RetryerConfig_MaxAttempts c then [delay i] else []" "[1..<Suc k]"]
    using False by (cases "Retryer_loop c delay before during fn (Suc k) (Some (e k)) k") auto
qed

lemma Retryer_loop_error:
  "Retryer_loop c delay before during fn k l n = (Some (Inl x), rest) \<Longrightarrow> x = ErrContextCanceled"
proof (induction c delay before during fn k l n arbitrary: rest rule: Retryer_loop.induct)
  case (1 c delay before during fn k l n)
  from 1(3) show ?case
    by (subst (asm) Retryer_loop.simps) (auto simp: Let_def split: if_splits sum.splits prod.splits,
      metis 1(1) less_imp_le, metis 1(2) order_refl less_irrefl)
qed

section \<open>Properties\<close>



text \<open>
  All functions share one entry of the cache: once a retryer with a cache has run one function to the end,
  successfully or not, every later call of \<open>Do\<close> before the entry expires returns that
  result without calling its own function.
\<close>

theorem Retryer_cache_shared:
  fixes fn fn' :: "nat \<Rightarrow> 'e + 'a"
  assumes "Retryer_cache r = Some c" and "fst (cache_Get t0 cacheKey c) = None"
    and "Retryer_Do t0 t1 rng ovf before during fn r = (res, r')" and "RetryerResult_Err res \<noteq> Some ErrContextCanceled"
    and "resultCache_ttl c \<le> 0 \<or> t2 \<le> t1 + resultCache_ttl c"
  shows "fst (Retryer_Do t2 t3 rng ovf before' during' fn' r') = res\<lparr>RetryerResult_Attempts := 0\<rparr>"
proof -
  let ?c1 = "snd (cache_Get t0 cacheKey c)"
  let ?r1 = "r\<lparr>Retryer_cache := Some ?c1\<rparr>"
  have ttl: "resultCache_ttl ?c1 = resultCache_ttl c" by (simp add: cache_Get_def split: option.splits)
  have "Retryer_run t1 rng ovf before during fn ?r1 = (res, r')"
    using assms(1-3) by (simp add: Retryer_Do_def split: prod.splits)
  with assms(4) have r': "Retryer_cache r' = Some (cache_Set t1 rng cacheKey (RetryerResult_Value res) (RetryerResult_Err res) (resultCache_ttl ?c1) ?c1)"
    by (auto simp: Retryer_run_def Let_def dest: Retryer_loop_error split: prod.splits option.splits sum.splits)
  show ?thesis
    unfolding Retryer_Do_def r' using assms(5) ttl
    by (auto simp: cache_Get_def cache_Set_def Let_def gomap gm.get_put time_IsZero_def)
qed

theorem Retryer_cache_shared_witness:
  "RetryerResult_Value (fst (Retryer_Do 5 5 (\<lambda>i ks. ks) 0 (\<lambda>k. False) (\<lambda>k. False) (\<lambda>k. Inr 8)
    (snd (Retryer_Do 0 0 (\<lambda>i ks. ks) 0 (\<lambda>k. False) (\<lambda>k. False) (\<lambda>k. Inr 7) (WithCache Second 10 two_attempts))))) = Some 7"
proof -
  let ?r = "WithCache Second 10 two_attempts"
  let ?run = "Retryer_Do 0 0 (\<lambda>i ks. ks) 0 (\<lambda>k. False) (\<lambda>k. False) (\<lambda>k. Inr 7) ?r"
  have c: "Retryer_cache ?r = Some (newResultCache Second 10)" by (simp add: WithCache_def)
  have m: "fst (cache_Get 0 cacheKey (newResultCache Second 10)) = None" by (simp add: cache_Get_def newResultCache_def gomap)
  have run: "?run = (\<lparr>RetryerResult_Value = Some 7, RetryerResult_Err = None, RetryerResult_Attempts = 1\<rparr>, snd ?run)"
    by (rule prod_eqI) (code_simp, simp)
  show ?thesis
    using Retryer_cache_shared [OF c m run, of 5 5 "\<lambda>k. False" "\<lambda>k. False" "\<lambda>k. Inr 8"]
    by (simp add: newResultCache_def time_units)
qed

text \<open>
  The cache never holds more entries than its capacity: a new cache holds none, and both of its
  operations keep the bound, whichever entry an eviction removes.
\<close>

theorem cache_bounded:
  assumes "ranger_ok rng"
  shows "cache_inv (newResultCache ttl cap :: ('e, 'a) resultCache) \<and>
    (cache_inv c \<longrightarrow> cache_inv (snd (cache_Get now key c)) \<and> cache_inv (cache_Set now rng key v err ttl c))"
  using newResultCache_inv cache_Get_inv cache_Set_inv [OF assms] by blast

theorem cache_bounded_witness:
  "cache_inv (cache_Set 0 (\<lambda>i ks. ks) ''k'' (Some (1::int)) (None :: string RetryerError option) 0 (newResultCache 0 1))"
  using cache_bounded [OF ranger_ok_id] by blast

text \<open>
  The delay of the Fibonacci strategy is the base delay times the Fibonacci number of the attempt, as long
  as neither leaves 64 bits.
\<close>

theorem fibonacciDelay_fib:
  assumes "1 \<le> attempt" and "fib attempt < 2 ^ 63" and "0 \<le> base" and "fib attempt * base < 2 ^ 63"
  shows "fibonacciDelay attempt base = fib attempt * base"
  using fibonacciDelay_exact [OF assms(1,2) _ assms(4)] assms(3) fib_nonneg by simp

theorem fibonacciDelay_fib_witness: "fibonacciDelay 10 (100 * Millisecond) = 5500 * Millisecond"
proof -
  have "fib 10 = 55" by code_simp
  then show ?thesis using fibonacciDelay_fib [of 10 "100 * Millisecond"] by (simp add: time_units)
qed

end
