(* ===== verification/Models.thy ===== *)
theory Models
  imports Prelude Complex_Main
begin

text \<open>
  The data model of \<^verbatim>\<open>internal/models\<close>: pipelines, tasks, events and schedules, with their statuses,
  constructors and checks. A status or a type is a string in the code; here it is a datatype with the
  declared constants and one constructor for every other string. Raw JSON is a string. Two
  things come from outside: the cron library, a function from an expression to the
  function that gives the next instant in a location, and the time zone database, a
  test for the names it knows. Fresh identifiers and readings of the clock are arguments.
\<close>

section \<open>Pipelines\<close>

datatype PipelineStatus =
    PipelineStatusActive | PipelineStatusInactive | PipelineStatusPaused
  | PipelineStatusArchived | PipelineStatusDraft | PipelineStatusFailed
  | PipelineStatusOther string

definition PipelineStatus_IsValid :: "PipelineStatus \<Rightarrow> bool" where
  "PipelineStatus_IsValid s = (case s of PipelineStatusOther _ \<Rightarrow> False | _ \<Rightarrow> True)"

record PipelineConfig =
  PipelineConfig_MaxRetries :: int
  PipelineConfig_TimeoutSeconds :: int
  PipelineConfig_Concurrency :: int
  PipelineConfig_Priority :: int
  PipelineConfig_QueueName :: string
  PipelineConfig_ExchangeName :: string
  PipelineConfig_RoutingKey :: string
  PipelineConfig_ErrorHandler :: string
  PipelineConfig_SuccessHandler :: string
  PipelineConfig_DLQEnabled :: bool
  PipelineConfig_DLQName :: string
  PipelineConfig_RetryBackoffMS :: int
  PipelineConfig_MaxBackoffMS :: int
  PipelineConfig_BackoffMultiplier :: rat
  PipelineConfig_Environment :: string
  PipelineConfig_Metadata :: "(string, string) gmap"

record Pipeline =
  Pipeline_ID :: uuid
  Pipeline_Name :: string
  Pipeline_Description :: string
  Pipeline_Status :: PipelineStatus
  Pipeline_Version :: int
  Pipeline_Config :: PipelineConfig
  Pipeline_Tags :: "(string, string) gmap"
  Pipeline_CreatedBy :: uuid
  Pipeline_CreatedAt :: gotime
  Pipeline_UpdatedAt :: gotime
  Pipeline_DeletedAt :: "gotime option"

definition DefaultPipelineConfig :: PipelineConfig where
  "DefaultPipelineConfig = \<lparr>
     PipelineConfig_MaxRetries = 3, PipelineConfig_TimeoutSeconds = 300, PipelineConfig_Concurrency = 1,
     PipelineConfig_Priority = 0, PipelineConfig_QueueName = ''nexuspipe.pipelines.default'',
     PipelineConfig_ExchangeName = ''nexuspipe.events'', PipelineConfig_RoutingKey = ''pipeline.execute'',
     PipelineConfig_ErrorHandler = [], PipelineConfig_SuccessHandler = [], PipelineConfig_DLQEnabled = True,
     PipelineConfig_DLQName = ''nexuspipe.pipelines.dlq'', PipelineConfig_RetryBackoffMS = 1000,
     PipelineConfig_MaxBackoffMS = 60000, PipelineConfig_BackoffMultiplier = 2,
     PipelineConfig_Environment = ''production'', PipelineConfig_Metadata = gm_empty\<rparr>"

definition NewPipeline :: "uuid \<Rightarrow> gotime \<Rightarrow> string \<Rightarrow> uuid \<Rightarrow> Pipeline" where
  "NewPipeline fresh now name createdBy = \<lparr>
     Pipeline_ID = fresh, Pipeline_Name = name, Pipeline_Description = [], Pipeline_Status = PipelineStatusDraft,
     Pipeline_Version = 1, Pipeline_Config = DefaultPipelineConfig, Pipeline_Tags = gm_empty,
     Pipeline_CreatedBy = createdBy, Pipeline_CreatedAt = now, Pipeline_UpdatedAt = now, Pipeline_DeletedAt = None\<rparr>"

record PipelineFilter =
  PipelineFilter_Status :: "PipelineStatus list"
  PipelineFilter_Search :: string
  PipelineFilter_Tags :: "(string, string) gmap"
  PipelineFilter_Limit :: int
  PipelineFilter_Offset :: int
  PipelineFilter_OrderBy :: string

definition DefaultPipelineFilter :: PipelineFilter where
  "DefaultPipelineFilter = \<lparr>PipelineFilter_Status = [], PipelineFilter_Search = [], PipelineFilter_Tags = gm_empty,
     PipelineFilter_Limit = 20, PipelineFilter_Offset = 0, PipelineFilter_OrderBy = ''created_at DESC''\<rparr>"

section \<open>Tasks\<close>

datatype TaskType =
    TaskTypeHTTP | TaskTypeGRPC | TaskTypeScript | TaskTypeSQL | TaskTypeShell | TaskTypeWebhook
  | TaskTypeTransform | TaskTypeNotification | TaskTypeCustom | TaskTypeOther string

definition TaskType_IsValid :: "TaskType \<Rightarrow> bool" where
  "TaskType_IsValid t = (case t of TaskTypeOther _ \<Rightarrow> False | _ \<Rightarrow> True)"

datatype TaskStatus =
    TaskStatusPending | TaskStatusScheduled | TaskStatusRunning | TaskStatusCompleted | TaskStatusFailed
  | TaskStatusCancelled | TaskStatusRetrying | TaskStatusPaused | TaskStatusTimedOut | TaskStatusSkipped
  | TaskStatusOther string

definition TaskStatus_IsValid :: "TaskStatus \<Rightarrow> bool" where
  "TaskStatus_IsValid s = (case s of TaskStatusOther _ \<Rightarrow> False | _ \<Rightarrow> True)"

definition TaskStatus_IsTerminal :: "TaskStatus \<Rightarrow> bool" where
  "TaskStatus_IsTerminal s \<longleftrightarrow> s = TaskStatusCompleted \<or> s = TaskStatusFailed \<or> s = TaskStatusCancelled \<or>
     s = TaskStatusTimedOut \<or> s = TaskStatusSkipped"

record TaskConfig =
  TaskConfig_Method :: string
  TaskConfig_URL :: string
  TaskConfig_Headers :: "(string, string) gmap"
  TaskConfig_QueryParams :: "(string, string) gmap"
  TaskConfig_Body :: string
  TaskConfig_Script :: string
  TaskConfig_Command :: string
  TaskConfig_SQL :: string
  TaskConfig_ServiceName :: string
  TaskConfig_Endpoint :: string
  TaskConfig_ProtoFile :: string
  TaskConfig_Retryable :: bool
  TaskConfig_RetryBackoffMS :: int
  TaskConfig_Condition :: string
  TaskConfig_Transform :: string
  TaskConfig_OutputMapping :: "(string, string) gmap"
  TaskConfig_NotifyOnFailure :: bool
  TaskConfig_NotifyChannel :: string

definition zero_TaskConfig :: TaskConfig where
  "zero_TaskConfig = \<lparr>
     TaskConfig_Method = [], TaskConfig_URL = [], TaskConfig_Headers = gm_empty, TaskConfig_QueryParams = gm_empty,
     TaskConfig_Body = [], TaskConfig_Script = [], TaskConfig_Command = [], TaskConfig_SQL = [],
     TaskConfig_ServiceName = [], TaskConfig_Endpoint = [], TaskConfig_ProtoFile = [], TaskConfig_Retryable = False,
     TaskConfig_RetryBackoffMS = 0, TaskConfig_Condition = [], TaskConfig_Transform = [],
     TaskConfig_OutputMapping = gm_empty, TaskConfig_NotifyOnFailure = False, TaskConfig_NotifyChannel = []\<rparr>"

definition DefaultTaskConfig :: TaskConfig where
  "DefaultTaskConfig = zero_TaskConfig\<lparr>TaskConfig_Retryable := True, TaskConfig_RetryBackoffMS := 1000\<rparr>"

record Task =
  Task_ID :: uuid
  Task_PipelineID :: uuid
  Task_EventID :: "uuid option"
  Task_ParentTaskID :: "uuid option"
  Task_Name :: string
  Task_Type :: TaskType
  Task_Status :: TaskStatus
  Task_Priority :: int
  Task_Sequence :: int
  Task_Input :: string
  Task_Output :: string
  Task_Error :: string
  Task_Config :: TaskConfig
  Task_RetryCount :: int
  Task_MaxRetries :: int
  Task_Timeout :: int
  Task_WorkerID :: string
  Task_StartedAt :: "gotime option"
  Task_CompletedAt :: "gotime option"
  Task_DurationMS :: int
  Task_ScheduledAt :: "gotime option"
  Task_CreatedAt :: gotime
  Task_UpdatedAt :: gotime

definition NewTask :: "uuid \<Rightarrow> gotime \<Rightarrow> uuid \<Rightarrow> string \<Rightarrow> TaskType \<Rightarrow> Task" where
  "NewTask fresh now pipelineID name taskType = \<lparr>
     Task_ID = fresh, Task_PipelineID = pipelineID, Task_EventID = None, Task_ParentTaskID = None, Task_Name = name,
     Task_Type = taskType, Task_Status = TaskStatusPending, Task_Priority = 0, Task_Sequence = 0, Task_Input = [],
     Task_Output = [], Task_Error = [], Task_Config = DefaultTaskConfig, Task_RetryCount = 0, Task_MaxRetries = 3,
     Task_Timeout = 60, Task_WorkerID = [], Task_StartedAt = None, Task_CompletedAt = None, Task_DurationMS = 0,
     Task_ScheduledAt = None, Task_CreatedAt = now, Task_UpdatedAt = now\<rparr>"

record TaskFilter =
  TaskFilter_PipelineID :: "uuid option"
  TaskFilter_Status :: "TaskStatus list"
  TaskFilter_Types :: "TaskType list"
  TaskFilter_WorkerID :: string
  TaskFilter_From :: "gotime option"
  TaskFilter_To :: "gotime option"
  TaskFilter_Search :: string
  TaskFilter_Limit :: int
  TaskFilter_Offset :: int
  TaskFilter_OrderBy :: string

definition DefaultTaskFilter :: TaskFilter where
  "DefaultTaskFilter = \<lparr>TaskFilter_PipelineID = None, TaskFilter_Status = [], TaskFilter_Types = [],
     TaskFilter_WorkerID = [], TaskFilter_From = None, TaskFilter_To = None, TaskFilter_Search = [],
     TaskFilter_Limit = 50, TaskFilter_Offset = 0, TaskFilter_OrderBy = ''created_at DESC''\<rparr>"

section \<open>Schedules\<close>

datatype ScheduleStatus =
    ScheduleStatusActive | ScheduleStatusPaused | ScheduleStatusFailed | ScheduleStatusDeleted
  | ScheduleStatusOther string

definition ScheduleStatus_IsValid :: "ScheduleStatus \<Rightarrow> bool" where
  "ScheduleStatus_IsValid s = (case s of ScheduleStatusOther _ \<Rightarrow> False | _ \<Rightarrow> True)"

record Schedule =
  Schedule_ID :: string
  Schedule_PipelineID :: string
  Schedule_CronExpression :: string
  Schedule_Timezone :: string
  Schedule_Status :: ScheduleStatus
  Schedule_Enabled :: bool
  Schedule_Priority :: int
  Schedule_MaxConcurrentRuns :: int
  Schedule_Tags :: "string list"
  Schedule_Metadata :: string
  Schedule_NextRunTimeValue :: gotime
  Schedule_LastRunTime :: "gotime option"
  Schedule_CreatedBy :: string
  Schedule_CreatedAt :: gotime
  Schedule_UpdatedAt :: gotime

text \<open>A parsed cron expression: the next instant after a given one, for a location.\<close>

type_synonym cron_schedule = "string \<Rightarrow> gotime \<Rightarrow> gotime"
type_synonym cron_parser = "string \<Rightarrow> cron_schedule option"
type_synonym tz_database = "string \<Rightarrow> bool"

datatype ScheduleError =
    CronExpressionEmpty
  | InvalidTimezone string
  | InvalidCronExpression string
  | ScheduleIDRequired
  | PipelineIDRequired
  | CronExpressionRequired
  | InvalidScheduleStatus ScheduleStatus
  | PriorityNegative
  | MaxConcurrentRunsNotPositive

definition Schedule_NextRunTime :: "cron_parser \<Rightarrow> tz_database \<Rightarrow> gotime \<Rightarrow> Schedule \<Rightarrow> ScheduleError + gotime" where
  "Schedule_NextRunTime parse tz now s =
     (if Schedule_CronExpression s = [] then Inl CronExpressionEmpty
      else if \<not> tz (Schedule_Timezone s) then Inl (InvalidTimezone (Schedule_Timezone s))
      else case parse (Schedule_CronExpression s) of
             None \<Rightarrow> Inl (InvalidCronExpression (Schedule_CronExpression s))
           | Some next \<Rightarrow> Inr (next (Schedule_Timezone s) now))"

definition Schedule_Validate :: "cron_parser \<Rightarrow> tz_database \<Rightarrow> Schedule \<Rightarrow> ScheduleError option" where
  "Schedule_Validate parse tz s =
     (if Schedule_ID s = [] then Some ScheduleIDRequired
      else if Schedule_PipelineID s = [] then Some PipelineIDRequired
      else if Schedule_CronExpression s = [] then Some CronExpressionRequired
      else if \<not> ScheduleStatus_IsValid (Schedule_Status s) then Some (InvalidScheduleStatus (Schedule_Status s))
      else if Schedule_Priority s < 0 then Some PriorityNegative
      else if Schedule_MaxConcurrentRuns s \<le> 0 then Some MaxConcurrentRunsNotPositive
      else if \<not> tz (Schedule_Timezone s) then Some (InvalidTimezone (Schedule_Timezone s))
      else case parse (Schedule_CronExpression s) of
             None \<Rightarrow> Some (InvalidCronExpression (Schedule_CronExpression s))
           | Some _ \<Rightarrow> None)"

text \<open>The two readings of the clock of \<^verbatim>\<open>ShouldRunNow\<close>.\<close>

definition ShouldRunNow :: "gotime \<Rightarrow> gotime \<Rightarrow> Schedule \<Rightarrow> bool" where
  "ShouldRunNow now now' s =
     (if \<not> Schedule_Enabled s then False
      else if Schedule_Status s \<noteq> ScheduleStatusActive then False
      else if time_IsZero (Schedule_NextRunTimeValue s) then False
      else now > Schedule_NextRunTimeValue s \<or> now' = Schedule_NextRunTimeValue s)"

definition ParseCronExpression :: "cron_parser \<Rightarrow> string \<Rightarrow> ScheduleError + cron_schedule" where
  "ParseCronExpression parse expr =
     (if expr = [] then Inl CronExpressionEmpty
      else case parse expr of None \<Rightarrow> Inl (InvalidCronExpression expr) | Some sch \<Rightarrow> Inr sch)"

definition NextRunFromCron :: "cron_parser \<Rightarrow> gotime \<Rightarrow> string \<Rightarrow> string option \<Rightarrow> ScheduleError + gotime" where
  "NextRunFromCron parse now expr loc =
     (let loc' = (case loc of None \<Rightarrow> ''UTC'' | Some l \<Rightarrow> l)
      in case ParseCronExpression parse expr of
           Inl e \<Rightarrow> Inl e
         | Inr sch \<Rightarrow> Inr (sch loc' now))"

record ScheduleStats =
  ScheduleStats_TotalSchedules :: int
  ScheduleStats_ActiveSchedules :: int
  ScheduleStats_PausedSchedules :: int
  ScheduleStats_FailedSchedules :: int
  ScheduleStats_DueNow :: int
  ScheduleStats_ByStatus :: "(ScheduleStatus, int) gmap"

section \<open>Events\<close>

datatype EventStatus =
    EventStatusPending | EventStatusProcessing | EventStatusCompleted | EventStatusFailed | EventStatusRetrying
  | EventStatusCancelled | EventStatusDelayed | EventStatusDeadLetter | EventStatusOther string

definition EventStatus_IsValid :: "EventStatus \<Rightarrow> bool" where
  "EventStatus_IsValid s = (case s of EventStatusOther _ \<Rightarrow> False | _ \<Rightarrow> True)"

definition EventStatus_IsTerminal :: "EventStatus \<Rightarrow> bool" where
  "EventStatus_IsTerminal s \<longleftrightarrow> s = EventStatusCompleted \<or> s = EventStatusFailed \<or> s = EventStatusCancelled \<or>
     s = EventStatusDeadLetter"

record EventMetadata =
  EventMetadata_ContentType :: string
  EventMetadata_Encoding :: string
  EventMetadata_SchemaVersion :: string
  EventMetadata_TraceID :: string
  EventMetadata_SpanID :: string
  EventMetadata_UserAgent :: string
  EventMetadata_IPAddress :: string
  EventMetadata_IdempotencyKey :: string
  EventMetadata_Custom :: "(string, string) gmap"

record Event =
  Event_ID :: uuid
  Event_PipelineID :: "uuid option"
  Event_EventType :: string
  Event_Source :: string
  Event_Status :: EventStatus
  Event_Priority :: int
  Event_Body :: string
  Event_Headers :: EventMetadata
  Event_RetryCount :: int
  Event_MaxRetries :: int
  Event_CorrelationID :: string
  Event_CausationID :: string
  Event_CreatedAt :: gotime
  Event_UpdatedAt :: gotime
  Event_ProcessedAt :: "gotime option"
  Event_ScheduledAt :: "gotime option"
  Event_TTL :: "int option"

definition NewEvent :: "uuid \<Rightarrow> gotime \<Rightarrow> string \<Rightarrow> string \<Rightarrow> string \<Rightarrow> Event" where
  "NewEvent fresh now eventType source body = \<lparr>
     Event_ID = fresh, Event_PipelineID = None, Event_EventType = eventType, Event_Source = source,
     Event_Status = EventStatusPending, Event_Priority = 0, Event_Body = body,
     Event_Headers = \<lparr>EventMetadata_ContentType = [], EventMetadata_Encoding = [], EventMetadata_SchemaVersion = [],
       EventMetadata_TraceID = [], EventMetadata_SpanID = [], EventMetadata_UserAgent = [], EventMetadata_IPAddress = [],
       EventMetadata_IdempotencyKey = [], EventMetadata_Custom = gm_empty\<rparr>,
     Event_RetryCount = 0, Event_MaxRetries = 3, Event_CorrelationID = [], Event_CausationID = [], Event_CreatedAt = now,
     Event_UpdatedAt = now, Event_ProcessedAt = None, Event_ScheduledAt = None, Event_TTL = None\<rparr>"

section \<open>Lemmas\<close>

lemma Schedule_Validate_None:
  "Schedule_Validate parse tz s = None \<longleftrightarrow>
    Schedule_ID s \<noteq> [] \<and> Schedule_PipelineID s \<noteq> [] \<and> Schedule_CronExpression s \<noteq> [] \<and>
    ScheduleStatus_IsValid (Schedule_Status s) \<and> 0 \<le> Schedule_Priority s \<and> 0 < Schedule_MaxConcurrentRuns s \<and>
    tz (Schedule_Timezone s) \<and> parse (Schedule_CronExpression s) \<noteq> None"
  by (auto simp: Schedule_Validate_def split: if_splits option.splits)

lemma Validate_NextRunTime:
  assumes "Schedule_Validate parse tz s = None"
  shows "\<exists>sch. parse (Schedule_CronExpression s) = Some sch \<and>
    Schedule_NextRunTime parse tz now s = Inr (sch (Schedule_Timezone s) now)"
  using assms by (auto simp: Schedule_Validate_None Schedule_NextRunTime_def)

end
