(* ===== verification/Pipeline_Executor.thy ===== *)
theory Pipeline_Executor
  imports Models Attempts
begin

text \<open>
  The stage executor of \<^verbatim>\<open>internal/pipeline/executor.go\<close>. A handler is a function of the number of the
  call, the stage and the input, and answers an error or an output; the number stands for
  everything outside that may make two calls differ. What the context says at the head of an attempt
  and whether it ends the wait before it are arguments. Logging, metrics and measured durations
  are left out; an error message is the value it renders.
\<close>

section \<open>Data\<close>

record Stage =
  Stage_ID :: uuid
  Stage_Name :: string
  Stage_Type :: TaskType
  Stage_Config :: TaskConfig
  Stage_Sequence :: int
  Stage_Optional :: bool
  Stage_DependsOn :: "string list"
  Stage_Timeout :: dur
  Stage_MaxRetry :: int

type_synonym ('i, 'o) StageHandler = "nat \<Rightarrow> Stage \<Rightarrow> 'i \<Rightarrow> string + 'o option"

datatype StageError =
    NoStageError
  | NoHandlerRegistered TaskType
  | StageTimedOut dur
  | StageCancelled
  | CancelledDuringBackoff
  | StageFailedAfter int "string option"

record 'o StageResult =
  StageResult_StageName :: string
  StageResult_Status :: TaskStatus
  StageResult_Output :: "'o option"
  StageResult_Error :: StageError

record ('i, 'o) PipelineExecutor =
  PipelineExecutor_handlers :: "(TaskType, ('i, 'o) StageHandler) gmap"
  PipelineExecutor_timeout :: dur

datatype CtxErr = CtxCanceled | CtxDeadlineExceeded

record StageCtx =
  StageCtx_head :: "nat \<Rightarrow> CtxErr option"
  StageCtx_wait :: "nat \<Rightarrow> bool"

section \<open>Operations\<close>

definition executeHTTPStage :: "('i, 'o) StageHandler" where
  "executeHTTPStage = (\<lambda>n stage input. Inl ''http stage not implemented'')"
definition executeScriptStage :: "('i, 'o) StageHandler" where
  "executeScriptStage = (\<lambda>n stage input. Inl ''script stage not implemented'')"
definition executeSQLStage :: "('i, 'o) StageHandler" where
  "executeSQLStage = (\<lambda>n stage input. Inl ''sql stage not implemented'')"
definition executeShellStage :: "('i, 'o) StageHandler" where
  "executeShellStage = (\<lambda>n stage input. Inl ''shell stage not implemented'')"
definition executeTransformStage :: "('i, 'o) StageHandler" where
  "executeTransformStage = (\<lambda>n stage input. Inl ''transform stage not implemented'')"
definition executeWebhookStage :: "('i, 'o) StageHandler" where
  "executeWebhookStage = (\<lambda>n stage input. Inl ''webhook stage not implemented'')"
definition executeNotificationStage :: "('i, 'o) StageHandler" where
  "executeNotificationStage = (\<lambda>n stage input. Inl ''notification stage not implemented'')"
definition executeCustomStage :: "('i, 'o) StageHandler" where
  "executeCustomStage = (\<lambda>n stage input. Inl ''custom stage not implemented'')"

definition RegisterStageHandler ::
  "TaskType \<Rightarrow> ('i, 'o) StageHandler \<Rightarrow> ('i, 'o) PipelineExecutor \<Rightarrow> ('i, 'o) PipelineExecutor" where
  "RegisterStageHandler t h e = e\<lparr>PipelineExecutor_handlers := gm_set t h (PipelineExecutor_handlers e)\<rparr>"

definition registerDefaultHandlers :: "('i, 'o) PipelineExecutor \<Rightarrow> ('i, 'o) PipelineExecutor" where
  "registerDefaultHandlers e =
     fold (\<lambda>(t, h). RegisterStageHandler t h)
       [(TaskTypeHTTP, executeHTTPStage), (TaskTypeScript, executeScriptStage), (TaskTypeSQL, executeSQLStage),
        (TaskTypeShell, executeShellStage), (TaskTypeTransform, executeTransformStage),
        (TaskTypeWebhook, executeWebhookStage), (TaskTypeNotification, executeNotificationStage),
        (TaskTypeCustom, executeCustomStage)] e"

definition NewPipelineExecutor :: "('i, 'o) PipelineExecutor" where
  "NewPipelineExecutor =
     registerDefaultHandlers \<lparr>PipelineExecutor_handlers = gm_empty, PipelineExecutor_timeout = 300 * Second\<rparr>"

definition getHandler :: "('i, 'o) PipelineExecutor \<Rightarrow> TaskType \<Rightarrow> StageError + ('i, 'o) StageHandler" where
  "getHandler e t = (case gm_get (PipelineExecutor_handlers e) t of
     None \<Rightarrow> Inl (NoHandlerRegistered t) | Some h \<Rightarrow> Inr h)"

definition stage_resolveTimeout :: "('i, 'o) PipelineExecutor \<Rightarrow> Stage \<Rightarrow> dur" where
  "stage_resolveTimeout e s = (if Stage_Timeout s > 0 then Stage_Timeout s else PipelineExecutor_timeout e)"

definition resolveMaxRetries :: "Stage \<Rightarrow> int" where
  "resolveMaxRetries s = (if Stage_MaxRetry s > 0 then Stage_MaxRetry s else 2)"

definition calculateBackoff :: "nat \<Rightarrow> dur" where
  "calculateBackoff attempt =
     (let backoff = i64 (i64 (i64 (int attempt * int attempt) * 500) * Millisecond)
      in if backoff > 30 * Second then 30 * Second else backoff)"

definition mkStageResult :: "Stage \<Rightarrow> TaskStatus \<Rightarrow> 'o option \<Rightarrow> StageError \<Rightarrow> 'o StageResult" where
  "mkStageResult s st out err = \<lparr>StageResult_StageName = Stage_Name s, StageResult_Status = st,
     StageResult_Output = out, StageResult_Error = err\<rparr>"

text \<open>The loop over the attempts. The second component has the waits and the third the number of calls.\<close>

function ExecuteStage_loop ::
  "('i, 'o) StageHandler \<Rightarrow> Stage \<Rightarrow> 'i \<Rightarrow> StageCtx \<Rightarrow> dur \<Rightarrow> nat \<Rightarrow> string option \<Rightarrow> 'o StageResult \<times> dur list \<times> nat" where
  "ExecuteStage_loop handler stage input ctx timeout attempt lastErr =
     (if \<not> int attempt \<le> resolveMaxRetries stage
      then (mkStageResult stage TaskStatusFailed None (StageFailedAfter (resolveMaxRetries stage) lastErr), [], 0)
      else case StageCtx_head ctx attempt of
             Some CtxCanceled \<Rightarrow> (mkStageResult stage TaskStatusCancelled None StageCancelled, [], 0)
           | Some CtxDeadlineExceeded \<Rightarrow> (mkStageResult stage TaskStatusTimedOut None (StageTimedOut timeout), [], 0)
           | None \<Rightarrow>
               if attempt > 0 \<and> StageCtx_wait ctx attempt
               then (mkStageResult stage TaskStatusCancelled None CancelledDuringBackoff, [], 0)
               else let waited = (if attempt > 0 then [calculateBackoff attempt] else [])
                    in case handler attempt stage input of
                         Inr output \<Rightarrow> (mkStageResult stage TaskStatusCompleted output NoStageError, waited, 1)
                       | Inl err \<Rightarrow>
                           (let (r, ws, n) = ExecuteStage_loop handler stage input ctx timeout (Suc attempt) (Some err)
                            in (r, waited @ ws, Suc n)))"
  by pat_completeness auto
termination
  by (relation "measure (\<lambda>(h, stage, i, c, t, attempt, l). Suc (nat (resolveMaxRetries stage)) - attempt)") auto

declare ExecuteStage_loop.simps [simp del]

definition ExecuteStage ::
  "('i, 'o) PipelineExecutor \<Rightarrow> StageCtx \<Rightarrow> Stage \<Rightarrow> 'i \<Rightarrow> 'o StageResult \<times> dur list \<times> nat" where
  "ExecuteStage e ctx stage input =
     (let timeout = stage_resolveTimeout e stage
      in case getHandler e (Stage_Type stage) of
           Inl err \<Rightarrow> (mkStageResult stage TaskStatusFailed None err, [], 0)
         | Inr handler \<Rightarrow> ExecuteStage_loop handler stage input ctx timeout 0 None)"

fun ExecutePipelineStages ::
  "('i, 'o) PipelineExecutor \<Rightarrow> (Stage \<Rightarrow> StageCtx) \<Rightarrow> Stage list \<Rightarrow> 'i \<Rightarrow> 'o StageResult list" where
  "ExecutePipelineStages e ctx [] input = []"
| "ExecutePipelineStages e ctx (stage # stages) input =
     (let result = fst (ExecuteStage e (ctx stage) stage input)
      in if StageResult_Status result = TaskStatusFailed \<and> \<not> Stage_Optional stage then [result]
         else result # ExecutePipelineStages e ctx stages input)"

definition GetStagesFromPipeline :: "Pipeline \<Rightarrow> Stage list" where
  "GetStagesFromPipeline p = []"

text \<open>An example: an HTTP stage that asks for no retry, and a context that never ends.\<close>

definition http_stage :: Stage where
  "http_stage = \<lparr>Stage_ID = 1, Stage_Name = ''fetch'', Stage_Type = TaskTypeHTTP, Stage_Config = zero_TaskConfig,
     Stage_Sequence = 0, Stage_Optional = False, Stage_DependsOn = [], Stage_Timeout = 0, Stage_MaxRetry = 0\<rparr>"

definition open_ctx :: StageCtx where
  "open_ctx = \<lparr>StageCtx_head = \<lambda>k. None, StageCtx_wait = \<lambda>k. False\<rparr>"

section \<open>Lemmas\<close>

lemma resolveMaxRetries_pos: "0 < resolveMaxRetries s"
  by (simp add: resolveMaxRetries_def)

interpretation stage_loop: attempt_loop "ExecuteStage_loop handler stage input ctx timeout"
  "\<lambda>i. int i \<le> resolveMaxRetries stage \<and> isl (handler i stage input) \<and> StageCtx_head ctx i = None \<and>
    \<not> (0 < i \<and> StageCtx_wait ctx i)"
  "\<lambda>i. Some (projl (handler i stage input))" "add_wait (backoff_waits calculateBackoff)"
  for handler stage input ctx timeout
  by unfold_locales (subst ExecuteStage_loop.simps,
    auto simp: add_wait_def backoff_waits_def Let_def isl_def split: prod.splits)

lemma ExecuteStage_loop_fails:
  assumes "int k \<le> resolveMaxRetries stage + 1"
    and "\<And>i. i < k \<Longrightarrow> handler i stage input = Inl (e i) \<and> StageCtx_head ctx i = None \<and> (0 < i \<longrightarrow> \<not> StageCtx_wait ctx i)"
  shows "ExecuteStage_loop handler stage input ctx timeout 0 None =
    (let (r, ws, n) = ExecuteStage_loop handler stage input ctx timeout k (if k = 0 then None else Some (e (k - 1)))
     in (r, map calculateBackoff [1..<k] @ ws, k + n))"
proof -
  let ?l = "if k = 0 then None else Some (e (k - 1))"
  have "ExecuteStage_loop handler stage input ctx timeout 0 None =
      foldr (add_wait (backoff_waits calculateBackoff)) [0..<k]
        (ExecuteStage_loop handler stage input ctx timeout k (if 0 = k then None else Some (projl (handler (k - 1) stage input))))"
    by (rule stage_loop.run_fails) (use assms in \<open>force simp: isl_def\<close>)+
  also have "(if 0 = k then None else Some (projl (handler (k - 1) stage input))) = ?l"
    using assms(2) [of "k - 1"] by auto
  finally show ?thesis
    by (cases "ExecuteStage_loop handler stage input ctx timeout k ?l")
      (simp only: foldr_add_wait concat_backoff_waits Let_def prod.case length_upt diff_zero)
qed

section \<open>Properties\<close>



end
