(* ===== verification/Pipeline_Validator.thy ===== *)
theory Pipeline_Validator
  imports Pipeline_Executor Go_Strings
begin

text \<open>
  The pipeline validator of \<^verbatim>\<open>internal/pipeline/validator.go\<close>. An error has its field, with the index
  of the stage where the field has one, and its message, which for a message with arguments is the format.
  The regular expression for names is a predicate; strings are ASCII. The recursive closure \<^verbatim>\<open>dfs\<close> of
  \<^verbatim>\<open>detectCycles\<close> is a machine whose stack has, for every call that has not returned, the node and the
  successors its loop has still to visit.
\<close>

section \<open>Data\<close>

datatype field = Field string | StageField nat string

record PValidationError =
  PVE_Field :: field
  PVE_Message :: string

record PValidationResult =
  PVR_Valid :: bool
  PVR_Errors :: "PValidationError list"

record PipelineValidator =
  PV_maxStages :: nat
  PV_maxConcurrency :: int
  PV_maxTimeout :: dur
  PV_forbiddenTypes :: "(TaskType, bool) gmap"

definition NewPipelineValidator :: PipelineValidator where
  "NewPipelineValidator = \<lparr>PV_maxStages = 50, PV_maxConcurrency = 10, PV_maxTimeout = 3600 * Second,
     PV_forbiddenTypes = gm_empty\<rparr>"

definition perr :: "field \<Rightarrow> string \<Rightarrow> PValidationError" where
  "perr f m = \<lparr>PVE_Field = f, PVE_Message = m\<rparr>"

section \<open>Names and configuration\<close>

definition namePattern :: "string \<Rightarrow> bool" where
  "namePattern s =
     (case s of
        [] \<Rightarrow> False
      | c # cs \<Rightarrow> (is_lower c \<or> is_upper c) \<and> 1 \<le> length cs \<and> length cs \<le> 63 \<and>
          list_all (\<lambda>x. is_lower x \<or> is_upper x \<or> is_digit x \<or> x = CHR ''_'' \<or> x = CHR ''-'' \<or> x = CHR ''.'') cs)"

definition validateName :: "string \<Rightarrow> PValidationError list" where
  "validateName name =
     (if TrimSpace name = [] then [perr (Field ''name'') ''pipeline name must not be empty'']
      else if length name > 64 then [perr (Field ''name'') ''pipeline name must be at most 64 characters'']
      else if \<not> namePattern name
      then [perr (Field ''name'') ''pipeline name must start with a letter and contain only alphanumeric, underscore, hyphen, or dot characters (2-64 chars)'']
      else [])"

definition check :: "bool \<Rightarrow> PValidationError \<Rightarrow> PValidationError list" where
  "check b e = (if b then [e] else [])"

definition validateConfig :: "PipelineValidator \<Rightarrow> PipelineConfig \<Rightarrow> PValidationError list" where
  "validateConfig v c =
     check (PipelineConfig_TimeoutSeconds c \<le> 0) (perr (Field ''config.timeout_seconds'') ''timeout must be positive'') @
     check (PipelineConfig_TimeoutSeconds c > PV_maxTimeout v div Second)
       (perr (Field ''config.timeout_seconds'') ''timeout must not exceed %v'') @
     check (PipelineConfig_Concurrency c \<le> 0) (perr (Field ''config.concurrency'') ''concurrency must be positive'') @
     check (PipelineConfig_Concurrency c > PV_maxConcurrency v) (perr (Field ''config.concurrency'') ''concurrency must not exceed %d'') @
     check (PipelineConfig_MaxRetries c < 0) (perr (Field ''config.max_retries'') ''max retries must not be negative'') @
     check (PipelineConfig_MaxRetries c > 25) (perr (Field ''config.max_retries'') ''max retries must not exceed 25'') @
     check (PipelineConfig_Priority c < 0 \<or> PipelineConfig_Priority c > 100)
       (perr (Field ''config.priority'') ''priority must be between 0 and 100'') @
     check (TrimSpace (PipelineConfig_QueueName c) = []) (perr (Field ''config.queue_name'') ''queue name must not be empty'') @
     check (PipelineConfig_RetryBackoffMS c < 0) (perr (Field ''config.retry_backoff_ms'') ''retry backoff must not be negative'') @
     check (PipelineConfig_BackoffMultiplier c \<le> 0) (perr (Field ''config.backoff_multiplier'') ''backoff multiplier must be positive'')"

section \<open>Stages\<close>

definition validateStage :: "PipelineValidator \<Rightarrow> nat \<Rightarrow> Stage \<Rightarrow> PValidationError list" where
  "validateStage v i s =
     check (TrimSpace (Stage_Name s) = []) (perr (StageField i ''name'') ''stage name must not be empty'') @
     check (\<not> TaskType_IsValid (Stage_Type s)) (perr (StageField i ''type'') ''invalid stage type: %s'') @
     check (gm_getd False (PV_forbiddenTypes v) (Stage_Type s)) (perr (StageField i ''type'') ''forbidden stage type: %s'') @
     check (Stage_Timeout s < 0) (perr (StageField i ''timeout'') ''stage timeout must not be negative'') @
     check (Stage_MaxRetry s < 0) (perr (StageField i ''max_retry'') ''max retry must not be negative'') @
     check (Stage_MaxRetry s > 10) (perr (StageField i ''max_retry'') ''max retry must not exceed 10'')"

definition validateStages :: "PipelineValidator \<Rightarrow> Stage list \<Rightarrow> PValidationError list" where
  "validateStages v stages =
     (if length stages = 0 then [perr (Field ''stages'') ''pipeline must have at least one stage'']
      else if length stages > PV_maxStages v then [perr (Field ''stages'') ''pipeline must not exceed %d stages'']
      else concat (map (\<lambda>(i, s). validateStage v i s) (enumerate 0 stages)))"

text \<open>The maps \<^verbatim>\<open>stageNames\<close> and \<^verbatim>\<open>stageIndex\<close>: the last index under a name wins.\<close>

definition stageIndex :: "Stage list \<Rightarrow> (string, nat) gmap" where
  "stageIndex stages = fold (\<lambda>(i, s). gm_set (Stage_Name s) i) (enumerate 0 stages) gm_empty"

definition validateStageDependencies :: "Stage list \<Rightarrow> PValidationError list" where
  "validateStageDependencies stages =
     concat (map (\<lambda>(i, s). concat (map (\<lambda>dep.
       check (\<not> gm_has (stageIndex stages) dep) (perr (StageField i ''depends_on'') ''stage %q depends on non-existent stage %q''))
       (Stage_DependsOn s))) (enumerate 0 stages))"

definition dep_graph :: "Stage list \<Rightarrow> nat list list" where
  "dep_graph stages = map (\<lambda>s. List.map_filter (gm_get (stageIndex stages)) (Stage_DependsOn s)) stages"

type_synonym frames = "(nat \<times> nat list) list"

definition white :: "nat list \<Rightarrow> nat" where
  "white color = card {v. v < length color \<and> color ! v = 0}"

definition frames_size :: "frames \<Rightarrow> nat" where
  "frames_size fs = length fs + sum_list (map (\<lambda>(u, vs). length vs) fs)"

lemma white_set_update:
  "{x. x < length (color[v := Suc c]) \<and> color[v := Suc c] ! x = 0} = {x. x < length color \<and> color ! x = 0} - {v}"
  by (auto simp: nth_update split: if_splits)

lemma white_update: "white (color[v := Suc c]) \<le> white color"
  unfolding white_def white_set_update by (rule card_mono) auto

lemma white_update_less: "v < length color \<Longrightarrow> color ! v = 0 \<Longrightarrow> white (color[v := Suc c]) < white color"
  unfolding white_def white_set_update by (rule card_Diff1_less) auto

text \<open>
  The machine: the stack, the colours (0 not visited, 1 on the stack, 2 finished) and \<^verbatim>\<open>hasCycle\<close>. An
  index outside the colours, which the graph does not contain, is a panic.
\<close>

function dfs_run :: "nat list list \<Rightarrow> frames \<Rightarrow> nat list \<Rightarrow> bool \<Rightarrow> (nat list \<times> bool) option" where
  "dfs_run g [] color hasCycle = Some (color, hasCycle)"
| "dfs_run g ((u, []) # fs) color hasCycle = dfs_run g fs (color[u := 2]) hasCycle"
| "dfs_run g ((u, v # vs) # fs) color hasCycle =
     (if v \<ge> length color \<or> v \<ge> length g then None
      else if color ! v = 1 then dfs_run g fs color True
      else if color ! v = 0 then dfs_run g ((v, g ! v) # (u, vs) # fs) (color[v := 1]) hasCycle
      else dfs_run g ((u, vs) # fs) color hasCycle)"
  by pat_completeness auto
termination
proof (relation "measures [\<lambda>(g, fs, color, h). white color, \<lambda>(g, fs, color, h). frames_size fs]", goal_cases)
  case (2 g u fs color h)
  then show ?case using white_update [of color u 1] by (simp add: frames_size_def numeral_2_eq_2 le_eq_less_or_eq)
next
  case (3 g u v vs fs color h)
  then show ?case by (simp add: frames_size_def)
next
  case (4 g u v vs fs color h)
  then show ?case using white_update_less [of v color 0] by simp
next
  case (5 g u v vs fs color h)
  then show ?case by (simp add: frames_size_def)
qed simp

definition dfs :: "nat list list \<Rightarrow> nat \<Rightarrow> nat list \<Rightarrow> bool \<Rightarrow> (nat list \<times> bool) option" where
  "dfs g u color hasCycle = dfs_run g [(u, g ! u)] (color[u := 1]) hasCycle"

fun detect_loop :: "nat list list \<Rightarrow> nat list \<Rightarrow> nat list \<Rightarrow> bool option" where
  "detect_loop g [] color = Some False"
| "detect_loop g (i # is) color =
     (if color ! i = 0
      then (case dfs g i color False of
              None \<Rightarrow> None
            | Some (color', hasCycle) \<Rightarrow> if hasCycle then Some True else detect_loop g is color')
      else detect_loop g is color)"

definition detectCycles :: "Stage list \<Rightarrow> PValidationError list option" where
  "detectCycles stages =
     map_option (\<lambda>c. if c then [perr (Field ''stages'') ''circular dependency detected in stage graph''] else [])
       (detect_loop (dep_graph stages) [0..<length stages] (replicate (length stages) 0))"

fun stage_names_loop :: "(nat \<times> Stage) list \<Rightarrow> (string, nat) gmap \<Rightarrow> PValidationError list" where
  "stage_names_loop [] seen = []"
| "stage_names_loop ((i, s) # rest) seen =
     check (gm_has seen (Stage_Name s)) (perr (StageField i ''name'') ''duplicate stage name %q (also at index %d)'') @
     stage_names_loop rest (gm_set (Stage_Name s) i seen)"

definition validateStageNames :: "Stage list \<Rightarrow> PValidationError list" where
  "validateStageNames stages = stage_names_loop (enumerate 0 stages) gm_empty"

definition validateResourceLimits :: "PipelineValidator \<Rightarrow> Stage list \<Rightarrow> PValidationError list" where
  "validateResourceLimits v stages =
     concat (map (\<lambda>(i, s). check (Stage_Timeout s > PV_maxTimeout v)
       (perr (StageField i ''timeout'') ''stage timeout %v exceeds maximum %v'')) (enumerate 0 stages))"

text \<open>The checks of the stages, in the order of \<^verbatim>\<open>ValidatePipeline\<close>, which runs them on the stages of the pipeline.\<close>

definition stage_checks :: "PipelineValidator \<Rightarrow> Stage list \<Rightarrow> PValidationError list option" where
  "stage_checks v stages =
     (case detectCycles stages of
        None \<Rightarrow> None
      | Some cycleErrs \<Rightarrow>
          Some (validateStages v stages @ validateStageDependencies stages @ cycleErrs @
            validateStageNames stages @ validateResourceLimits v stages))"

definition ValidatePipeline :: "PipelineValidator \<Rightarrow> Pipeline option \<Rightarrow> PValidationResult option" where
  "ValidatePipeline v mp =
     (case mp of
        None \<Rightarrow> Some \<lparr>PVR_Valid = False, PVR_Errors = [perr (Field ''pipeline'') ''pipeline must not be nil'']\<rparr>
      | Some p \<Rightarrow>
          (case stage_checks v (GetStagesFromPipeline p) of
             None \<Rightarrow> None
           | Some stageErrs \<Rightarrow>
               (let errors = validateName (Pipeline_Name p) @ validateConfig v (Pipeline_Config p) @ stageErrs
                in Some \<lparr>PVR_Valid = (errors = []), PVR_Errors = errors\<rparr>)))"

definition ForbidType :: "TaskType \<Rightarrow> PipelineValidator \<Rightarrow> PipelineValidator" where
  "ForbidType t v = v\<lparr>PV_forbiddenTypes := gm_set t True (PV_forbiddenTypes v)\<rparr>"

definition AllowType :: "TaskType \<Rightarrow> PipelineValidator \<Rightarrow> PipelineValidator" where
  "AllowType t v = v\<lparr>PV_forbiddenTypes := gm_del t (PV_forbiddenTypes v)\<rparr>"

section \<open>The depth first search\<close>

definition graph_ok :: "nat list list \<Rightarrow> bool" where
  "graph_ok g \<longleftrightarrow> (\<forall>u < length g. \<forall>v \<in> set (g ! u). v < length g)"

definition edges :: "nat list list \<Rightarrow> (nat \<times> nat) set" where
  "edges g = {(u, v). u < length g \<and> v \<in> set (g ! u)}"

text \<open>The finished nodes are closed under successors and on no cycle.\<close>

definition black_ok :: "nat list list \<Rightarrow> nat list \<Rightarrow> bool" where
  "black_ok g color \<longleftrightarrow> length color = length g \<and>
     (\<forall>u < length g. color ! u = 2 \<longrightarrow> (\<forall>v \<in> set (g ! u). color ! v = 2) \<and> (u, u) \<notin> (edges g)\<^sup>+)"

text \<open>
  The stack is a path of the nodes with colour 1, given from its top; a successor that a loop has passed is
  finished or is the node of the next call.
\<close>

fun stack_ok :: "nat list list \<Rightarrow> nat list \<Rightarrow> nat option \<Rightarrow> frames \<Rightarrow> bool" where
  "stack_ok g color callee [] \<longleftrightarrow> True"
| "stack_ok g color callee ((u, vs) # fs) \<longleftrightarrow>
     u < length g \<and> color ! u = 1 \<and> u \<notin> fst ` set fs \<and> set vs \<subseteq> set (g ! u) \<and>
     (\<forall>v. callee = Some v \<longrightarrow> v \<in> set (g ! u)) \<and>
     (\<forall>v \<in> set (g ! u) - set vs. color ! v = 2 \<or> callee = Some v) \<and> stack_ok g color (Some u) fs"

definition dfs_inv :: "nat list list \<Rightarrow> frames \<Rightarrow> nat list \<Rightarrow> bool" where
  "dfs_inv g fs color \<longleftrightarrow> graph_ok g \<and> black_ok g color \<and> stack_ok g color None fs \<and>
     (\<forall>v < length g. color ! v \<in> {0, 1, 2} \<and> (color ! v = 1 \<longrightarrow> v \<in> fst ` set fs))"

lemma stack_path: "stack_ok g color callee ((u, vs) # fs) \<Longrightarrow> w \<in> fst ` set ((u, vs) # fs) \<Longrightarrow> (w, u) \<in> (edges g)\<^sup>*"
proof (induction fs arbitrary: u vs callee)
  case (Cons f fs)
  obtain u' vs' where f: "f = (u', vs')" by (cases f)
  have edge: "(u', u) \<in> edges g" using Cons.prems(1) by (simp add: f edges_def)
  show ?case
  proof (cases "w = u")
    case False
    then have "w \<in> fst ` set ((u', vs') # fs)" using Cons.prems(2) by (simp add: f)
    then have "(w, u') \<in> (edges g)\<^sup>*" using Cons.IH [of "Some u" u' vs'] Cons.prems(1) by (simp add: f)
    then show ?thesis using edge by (rule rtrancl_into_rtrancl)
  qed simp
qed simp

lemma stack_ok_cong:
  "stack_ok g color callee fs \<Longrightarrow> length color = length g \<Longrightarrow> graph_ok g \<Longrightarrow>
    (\<And>v. v < length g \<Longrightarrow> color ! v \<noteq> 0 \<Longrightarrow> v \<notin> X \<Longrightarrow> color' ! v = color ! v) \<Longrightarrow> X \<inter> fst ` set fs = {} \<Longrightarrow>
    (\<And>v. v \<in> X \<Longrightarrow> color' ! v = 2) \<Longrightarrow> stack_ok g color' callee fs"
proof (induction fs arbitrary: callee)
  case (Cons f fs)
  obtain u vs where f: "f = (u, vs)" by (cases f)
  have IH: "stack_ok g color' (Some u) fs" by (rule Cons.IH) (use Cons.prems f in auto)
  have u: "u < length g" "color ! u = 1" "u \<notin> X" using Cons.prems f by auto
  then have "color' ! u = 1" using Cons.prems(4) [of u] by simp
  moreover have "color' ! v = 2 \<or> callee = Some v" if "v \<in> set (g ! u)" "v \<notin> set vs" for v
  proof -
    have "v < length g" using that(1) u(1) Cons.prems(3) by (auto simp: graph_ok_def)
    moreover have "color ! v = 2 \<or> callee = Some v" using Cons.prems(1) that by (auto simp: f)
    ultimately show ?thesis using Cons.prems(4) [of v] Cons.prems(6) [of v] by (cases "v \<in> X") auto
  qed
  ultimately show ?case using Cons.prems(1) IH by (simp add: f)
qed simp

lemma black_closed_reach:
  assumes "black_ok g color" "graph_ok g" "(u, w) \<in> (edges g)\<^sup>*" "u < length g" "color ! u = 2"
  shows "w < length g \<and> color ! w = 2"
  using assms(3)
proof induction
  case (step y z)
  then show ?case using assms(1,2) by (auto simp: black_ok_def graph_ok_def edges_def)
qed (simp add: assms)

lemma black_finish:
  assumes "black_ok g color" "graph_ok g" "u < length g" "color ! u \<noteq> 2" "\<forall>v \<in> set (g ! u). color ! v = 2"
  shows "black_ok g (color[u := 2])"
proof -
  have len: "length color = length g" using assms(1) by (simp add: black_ok_def)
  have bound: "v < length g" if "w < length g" "v \<in> set (g ! w)" for v w using that assms(2) by (simp add: graph_ok_def)
  have "(u, u) \<notin> (edges g)\<^sup>+"
  proof
    assume "(u, u) \<in> (edges g)\<^sup>+"
    then obtain v where v: "(u, v) \<in> edges g" "(v, u) \<in> (edges g)\<^sup>*" by (meson tranclD)
    have gu: "v \<in> set (g ! u)" using v(1) by (simp add: edges_def)
    from black_closed_reach [OF assms(1,2) v(2) bound [OF assms(3) gu]] show False using assms(4,5) gu by simp
  qed
  then have "\<forall>v \<in> set (g ! w). color[u := 2] ! v = 2" "(w, w) \<notin> (edges g)\<^sup>+"
    if "w < length g" "color[u := 2] ! w = 2" for w
    using that assms(1,5) bound [OF that(1)] len by (auto simp: nth_update black_ok_def split: if_splits)
  then show ?thesis using len by (simp add: black_ok_def)
qed

lemma stack_frame:
  "stack_ok g color callee fs \<Longrightarrow> f \<in> set fs \<Longrightarrow> fst f < length g \<and> color ! fst f = 1 \<and> set (snd f) \<subseteq> set (g ! fst f)"
  by (induction g color callee fs rule: stack_ok.induct) auto

lemma stack_frame_bounded:
  "graph_ok g \<Longrightarrow> stack_ok g color callee fs \<Longrightarrow> \<forall>f \<in> set fs. \<forall>v \<in> set (snd f). v < length g"
  unfolding graph_ok_def by (meson stack_frame subsetD)

text \<open>Once a cycle is flagged the search only unwinds.\<close>

lemma dfs_run_flagged:
  "graph_ok g \<Longrightarrow> length color = length g \<Longrightarrow> \<forall>f \<in> set fs. \<forall>v \<in> set (snd f). v < length g \<Longrightarrow>
    \<exists>color'. dfs_run g fs color True = Some (color', True)"
proof (induction g fs color True rule: dfs_run.induct)
  case (3 g u v vs fs color)
  have v: "v < length g" using 3(6) by simp
  have gv: "\<forall>w \<in> set (g ! v). w < length g" using v 3(4) by (simp add: graph_ok_def)
  consider (grey) "color ! v = 1" | (white) "color ! v = 0" | (black) "color ! v \<noteq> 0" "color ! v \<noteq> 1" by blast
  then show ?case
  proof cases
    case grey
    then show ?thesis using 3(1) [OF _ _ 3(4,5)] 3(5,6) v by simp
  next
    case white
    then show ?thesis using 3(2) [OF _ _ _ 3(4)] 3(5,6) v gv by simp
  next
    case black
    then show ?thesis using 3(3) [OF _ _ _ 3(4,5)] 3(5,6) v by simp
  qed
qed simp_all

definition dfs_post :: "nat list list \<Rightarrow> nat list \<Rightarrow> nat list \<times> bool \<Rightarrow> bool" where
  "dfs_post g color r \<longleftrightarrow>
     (if snd r then \<not> acyclic (edges g)
      else dfs_inv g [] (fst r) \<and> (\<forall>v < length g. color ! v \<noteq> 0 \<longrightarrow> fst r ! v \<noteq> 0))"

lemma dfs_post_mono:
  "dfs_post g color2 r \<Longrightarrow> (\<And>v. v < length g \<Longrightarrow> color ! v \<noteq> 0 \<Longrightarrow> color2 ! v \<noteq> 0) \<Longrightarrow> dfs_post g color r"
  by (auto simp: dfs_post_def split: if_splits)

lemma stack_ok_return: "stack_ok g color (Some u) fs \<Longrightarrow> color ! u = 2 \<Longrightarrow> stack_ok g color None fs"
  by (cases fs) (simp, fastforce)

lemma dfs_inv_pop:
  assumes "dfs_inv g ((u, []) # fs) color"
  shows "dfs_inv g fs (color[u := 2])"
proof -
  have inv: "black_ok g color" "graph_ok g" "stack_ok g color None ((u, []) # fs)" using assms by (auto simp: dfs_inv_def)
  have len: "length color = length g" using inv(1) by (simp add: black_ok_def)
  have u: "u < length g" "color ! u = 1" "u \<notin> fst ` set fs" using inv(3) by auto
  have "black_ok g (color[u := 2])" by (rule black_finish [OF inv(1,2)]) (use inv(3) in auto)
  moreover have "stack_ok g (color[u := 2]) (Some u) fs"
    by (rule stack_ok_cong [where X = "{u}" and color = color]) (use inv u len in auto)
  then have "stack_ok g (color[u := 2]) None fs" by (rule stack_ok_return) (use u len in simp)
  ultimately show ?thesis using assms u len by (auto simp: dfs_inv_def nth_update)
qed

lemma black_ok_paint:
  assumes "black_ok g color" "graph_ok g" "v < length g" "color ! v = 0"
  shows "black_ok g (color[v := 1])"
proof -
  have len: "length color = length g" using assms(1) by (simp add: black_ok_def)
  have "\<forall>x \<in> set (g ! w). color[v := 1] ! x = 2" "(w, w) \<notin> (edges g)\<^sup>+"
    if w: "w < length g" "color[v := 1] ! w = 2" for w
  proof -
    have col: "color ! w = 2" using w len by (simp add: nth_update split: if_splits)
    then have "x < length g" "color ! x = 2" if "x \<in> set (g ! w)" for x
      using that w(1) assms(1,2) by (auto simp: graph_ok_def black_ok_def)
    then show "\<forall>x \<in> set (g ! w). color[v := 1] ! x = 2" using len assms(4) by (fastforce simp: nth_update)
    show "(w, w) \<notin> (edges g)\<^sup>+" using assms(1) w(1) col by (simp add: black_ok_def)
  qed
  then show ?thesis using len by (simp add: black_ok_def)
qed

lemma dfs_inv_push:
  assumes "dfs_inv g fs color" "v < length g" "color ! v = 0" "stack_ok g color (Some v) fs'" "fst ` set fs' = fst ` set fs"
  shows "dfs_inv g ((v, g ! v) # fs') (color[v := 1])"
proof -
  have inv: "graph_ok g" "black_ok g color" using assms by (auto simp: dfs_inv_def)
  have len: "length color = length g" using inv(2) by (simp add: black_ok_def)
  have notin: "v \<notin> fst ` set fs'" using stack_frame [OF assms(4)] assms(3) by fastforce
  have upd: "color[v := 1] ! w = (if w = v then 1 else color ! w)" if "w < length g" for w
    using that len by (simp add: nth_update)
  have "stack_ok g (color[v := 1]) (Some v) fs'"
    by (rule stack_ok_cong [OF assms(4), where X = "{}"]) (use inv len assms(3) in \<open>auto simp: upd simp del: One_nat_def\<close>)
  moreover have "color[v := 1] ! w \<in> {0, 1, 2} \<and> (color[v := 1] ! w = 1 \<longrightarrow> w \<in> fst ` set ((v, g ! v) # fs'))"
    if "w < length g" for w
    using upd [OF that] assms(1,5) that by (simp add: dfs_inv_def)
  ultimately show ?thesis using inv(1) black_ok_paint [OF inv(2,1) assms(2,3)] assms(2) notin len
    by (simp add: dfs_inv_def del: One_nat_def)
qed

lemma dfs_run_correct: "dfs_inv g fs color \<Longrightarrow> \<exists>r. dfs_run g fs color False = Some r \<and> dfs_post g color r"
proof (induction g fs color False rule: dfs_run.induct)
  case (2 g u fs color)
  have "u < length g" "length color = length g" using 2(2) by (auto simp: dfs_inv_def black_ok_def)
  then have "v < length g \<Longrightarrow> color ! v \<noteq> 0 \<Longrightarrow> color[u := 2] ! v \<noteq> 0" for v by (simp add: nth_update)
  then show ?case using 2(1) [OF dfs_inv_pop [OF 2(2)]] dfs_post_mono by (metis dfs_run.simps(2))
next
  case (3 g u v vs fs color)
  note inv = 3(4)
  have g: "graph_ok g" "length color = length g" "stack_ok g color None ((u, v # vs) # fs)"
    using inv by (auto simp: dfs_inv_def black_ok_def)
  have v: "v < length g" "v \<in> set (g ! u)" "u < length g" using g by (auto simp: graph_ok_def)
  have col: "color ! v \<in> {0, 1, 2}" using inv v(1) by (auto simp: dfs_inv_def)
  consider (grey) "color ! v = 1" | (white) "color ! v = 0" | (black) "color ! v = 2" using col by auto
  then show ?case
  proof cases
    case grey
    have "v \<in> fst ` set ((u, v # vs) # fs)" using inv v(1) grey by (auto simp: dfs_inv_def)
    from stack_path [OF g(3) this] have "(v, u) \<in> (edges g)\<^sup>*" .
    moreover have "(u, v) \<in> edges g" using v by (simp add: edges_def)
    ultimately have "\<not> acyclic (edges g)" by (meson acyclic_def rtrancl_into_trancl1)
    moreover have "\<forall>f \<in> set fs. \<forall>w \<in> set (snd f). w < length g" using stack_frame_bounded [OF g(1,3)] by simp
    ultimately show ?thesis using dfs_run_flagged [OF g(1,2), of fs] v g(2) grey by (auto simp: dfs_post_def)
  next
    case white
    have "stack_ok g color (Some v) ((u, vs) # fs)" using g(3) v by auto
    from dfs_inv_push [OF inv v(1) white this] have "dfs_inv g ((v, g ! v) # (u, vs) # fs) (color[v := 1])" by simp
    then obtain r where r: "dfs_run g ((v, g ! v) # (u, vs) # fs) (color[v := 1]) False = Some r" "dfs_post g (color[v := 1]) r"
      using 3(2) v(1) g(2) white by auto
    have "dfs_post g color r" by (rule dfs_post_mono [OF r(2)]) (auto simp: nth_update g(2) white split: if_splits)
    then show ?thesis using r(1) v(1) g(2) white by simp
  next
    case black
    have "dfs_inv g ((u, vs) # fs) color" using inv black by (auto simp: dfs_inv_def)
    then show ?thesis using 3(3) v(1) g(2) black by simp
  qed
qed (simp add: dfs_post_def)

lemma dfs_inv_finished:
  assumes "dfs_inv g [] color" "\<forall>v < length g. color ! v \<noteq> 0"
  shows "acyclic (edges g)"
proof -
  have "color ! v = 2" if "v < length g" for v using assms that by (auto simp: dfs_inv_def)
  moreover have "v < length g" if "(v, v) \<in> (edges g)\<^sup>+" for v using that by (auto simp: edges_def dest: tranclD)
  ultimately show ?thesis using assms(1) by (auto simp: acyclic_def dfs_inv_def black_ok_def)
qed

lemma detect_loop_correct:
  "dfs_inv g [] color \<Longrightarrow> set is \<subseteq> {..<length g} \<Longrightarrow> \<forall>v < length g. v \<in> set is \<or> color ! v \<noteq> 0 \<Longrightarrow>
    detect_loop g is color = Some (\<not> acyclic (edges g))"
proof (induction "is" arbitrary: color)
  case Nil
  then show ?case using dfs_inv_finished by simp
next
  case (Cons i "is")
  have i: "i < length g" using Cons.prems(2) by simp
  show ?case
  proof (cases "color ! i = 0")
    case True
    have "dfs_inv g [(i, g ! i)] (color[i := 1])" by (rule dfs_inv_push [OF Cons.prems(1) i True]) simp_all
    then obtain color' h where r: "dfs g i color False = Some (color', h)" "dfs_post g (color[i := 1]) (color', h)"
      using dfs_run_correct unfolding dfs_def by (metis surj_pair)
    have "length color = length g" using Cons.prems(1) by (simp add: dfs_inv_def black_ok_def)
    then have rest: "\<forall>v < length g. v \<in> set is \<or> color[i := 1] ! v \<noteq> 0" using Cons.prems(3) by (auto simp: nth_update)
    show ?thesis
    proof (cases h)
      case True
      then show ?thesis using r \<open>color ! i = 0\<close> by (simp add: dfs_post_def)
    next
      case False
      then have "dfs_inv g [] color'" "\<forall>v < length g. v \<in> set is \<or> color' ! v \<noteq> 0"
        using r(2) rest unfolding dfs_post_def fst_conv snd_conv by (metis)+
      then show ?thesis using Cons.IH [of color'] Cons.prems(2) r(1) True False by simp
    qed
  next
    case False
    then have "\<forall>v < length g. v \<in> set is \<or> color ! v \<noteq> 0" using Cons.prems(3) by (metis set_ConsD)
    then show ?thesis using Cons.IH [OF Cons.prems(1)] Cons.prems(2) False by simp
  qed
qed

section \<open>The stage graph\<close>

text \<open>
  The edge from a stage to a stage it depends on: the last stage with the name, since a later stage replaces an
  earlier one in the index.
\<close>

definition stage_dep :: "Stage list \<Rightarrow> (nat \<times> nat) set" where
  "stage_dep stages = {(i, j). i < length stages \<and> j < length stages \<and>
     Stage_Name (stages ! j) \<in> set (Stage_DependsOn (stages ! i)) \<and>
     (\<forall>k < length stages. j < k \<longrightarrow> Stage_Name (stages ! k) \<noteq> Stage_Name (stages ! j))}"

lemma stageIndex_get:
  "gm_get (stageIndex stages) nm = Some j \<longleftrightarrow> j < length stages \<and> Stage_Name (stages ! j) = nm \<and>
    (\<forall>k < length stages. j < k \<longrightarrow> Stage_Name (stages ! k) \<noteq> nm)"
proof (induction stages arbitrary: j rule: rev_induct)
  case Nil
  then show ?case by (simp add: stageIndex_def gm.get_empty)
next
  case (snoc s stages)
  have "stageIndex (stages @ [s]) = gm_set (Stage_Name s) (length stages) (stageIndex stages)"
    by (simp add: stageIndex_def enumerate_append_eq)
  then have get: "gm_get (stageIndex (stages @ [s])) nm = (if nm = Stage_Name s then Some (length stages) else gm_get (stageIndex stages) nm)"
    by (simp add: gm.get_put)
  have all: "(\<forall>k < length (stages @ [s]). P k) \<longleftrightarrow> (\<forall>k < length stages. P k) \<and> P (length stages)" for P
    by (simp add: All_less_Suc2 less_Suc_eq) blast
  show ?case
  proof (cases "nm = Stage_Name s")
    case True
    show ?thesis unfolding get all using True by (simp add: nth_append less_Suc_eq) auto
  next
    case False
    show ?thesis unfolding get all using False snoc by (simp add: nth_append less_Suc_eq)
  qed
qed

lemma mem_map_filter: "y \<in> set (List.map_filter f xs) \<longleftrightarrow> (\<exists>x \<in> set xs. f x = Some y)"
  by (induction xs) (auto simp: List.map_filter_simps split: option.splits)

lemma dep_graph_ok: "length (dep_graph stages) = length stages \<and> graph_ok (dep_graph stages)"
  by (auto simp: dep_graph_def graph_ok_def mem_map_filter stageIndex_get)

lemma dep_graph_edges: "edges (dep_graph stages) = stage_dep stages"
  by (auto simp: edges_def dep_graph_def stage_dep_def mem_map_filter stageIndex_get)

lemma detectCycles_acyclic:
  "detectCycles stages = Some (if acyclic (stage_dep stages) then []
     else [perr (Field ''stages'') ''circular dependency detected in stage graph''])"
proof -
  have "dfs_inv (dep_graph stages) [] (replicate (length stages) 0)"
    using dep_graph_ok [of stages] by (simp add: dfs_inv_def black_ok_def)
  then show ?thesis using detect_loop_correct [of "dep_graph stages" _ "[0..<length stages]"] dep_graph_ok [of stages]
    by (simp add: detectCycles_def dep_graph_edges atLeast0LessThan)
qed

section \<open>What the stage checks accept\<close>

lemma check_Nil [simp]: "check b e = [] \<longleftrightarrow> \<not> b"
  by (simp add: check_def)

lemma concat_enumerate_Nil:
  "(\<And>i x. f (i, x) = [] \<longleftrightarrow> P x) \<Longrightarrow> concat (map f (enumerate k xs)) = [] \<longleftrightarrow> (\<forall>x \<in> set xs. P x)"
  by (induction xs arbitrary: k) auto

lemma stage_names_loop_Nil:
  "stage_names_loop xs seen = [] \<longleftrightarrow>
    distinct (map (Stage_Name \<circ> snd) xs) \<and> (Stage_Name \<circ> snd) ` set xs \<inter> set (gm_keys seen) = {}"
  by (induction xs seen rule: stage_names_loop.induct) (auto simp: gm_has_keys)

lemma validateStageNames_Nil: "validateStageNames stages = [] \<longleftrightarrow> distinct (map Stage_Name stages)"
  by (simp add: validateStageNames_def stage_names_loop_Nil flip: map_map)

lemma stageIndex_has: "gm_has (stageIndex stages) nm \<longleftrightarrow> nm \<in> Stage_Name ` set stages"
proof -
  have "set (gm_keys (fold (\<lambda>(i, s). gm_set (Stage_Name s) i) xs m)) = Stage_Name ` snd ` set xs \<union> set (gm_keys m)"
    for xs :: "(nat \<times> Stage) list" and m
    by (induction xs arbitrary: m) auto
  moreover have "snd ` set (enumerate 0 stages) = set stages" by (metis map_snd_enumerate set_map)
  ultimately show ?thesis by (simp add: gm_has_keys stageIndex_def)
qed

lemma validateStageDependencies_Nil:
  "validateStageDependencies stages = [] \<longleftrightarrow> (\<forall>s \<in> set stages. set (Stage_DependsOn s) \<subseteq> Stage_Name ` set stages)"
  unfolding validateStageDependencies_def by (rule concat_enumerate_Nil) (auto simp: stageIndex_has)

lemma acyclic_inj_image:
  assumes "inj_on f A" "R \<subseteq> A \<times> A"
  shows "acyclic (map_prod f f ` R) \<longleftrightarrow> acyclic R"
proof -
  have fwd: "(a, b) \<in> R\<^sup>+ \<Longrightarrow> (f a, f b) \<in> (map_prod f f ` R)\<^sup>+" for a b
    by (induction rule: trancl_induct) (force intro: trancl_into_trancl)+
  have bwd: "(x, y) \<in> (map_prod f f ` R)\<^sup>+ \<Longrightarrow> \<exists>a b. x = f a \<and> y = f b \<and> (a, b) \<in> R\<^sup>+" for x y
  proof (induction rule: trancl_induct)
    case (step y z)
    then obtain a b c d where "x = f a" "y = f b" "(a, b) \<in> R\<^sup>+" "y = f c" "z = f d" "(c, d) \<in> R" by auto
    moreover from this have "b \<in> A" "c \<in> A" using assms(2) by (auto dest: tranclD2)
    ultimately show ?case using assms(1) by (metis inj_onD trancl_into_trancl)
  qed auto
  have dom: "(a, b) \<in> R\<^sup>+ \<Longrightarrow> a \<in> A \<and> b \<in> A" for a b using assms(2) by (auto dest: tranclD tranclD2)
  show ?thesis unfolding acyclic_def using fwd bwd dom assms(1) by (metis inj_onD)
qed

definition name_dep :: "Stage list \<Rightarrow> (string \<times> string) set" where
  "name_dep stages = (\<Union>s \<in> set stages. Pair (Stage_Name s) ` set (Stage_DependsOn s))"

lemma name_dep_acyclic:
  assumes "distinct (map Stage_Name stages)" "\<forall>s \<in> set stages. set (Stage_DependsOn s) \<subseteq> Stage_Name ` set stages"
  shows "acyclic (name_dep stages) \<longleftrightarrow> acyclic (stage_dep stages)"
proof -
  let ?f = "\<lambda>i. Stage_Name (stages ! i)"
  have inj: "inj_on ?f {..<length stages}" using assms(1) by (auto simp: inj_on_def distinct_conv_nth)
  have "(x, d) \<in> map_prod ?f ?f ` stage_dep stages" if "(x, d) \<in> name_dep stages" for x d
  proof -
    from that obtain s where s: "s \<in> set stages" "x = Stage_Name s" "d \<in> set (Stage_DependsOn s)" by (auto simp: name_dep_def)
    then obtain i where i: "i < length stages" "x = ?f i" "d \<in> set (Stage_DependsOn (stages ! i))"
      by (metis in_set_conv_nth)
    then have "d \<in> Stage_Name ` set stages" using assms(2) nth_mem by blast
    then obtain j where j: "j < length stages" "d = ?f j" by (auto simp: in_set_conv_nth)
    have "(i, j) \<in> stage_dep stages" using i j inj by (auto simp: stage_dep_def inj_on_def)
    then show ?thesis using i(2) j(2) by force
  qed
  moreover have "(x, d) \<in> name_dep stages" if "(x, d) \<in> map_prod ?f ?f ` stage_dep stages" for x d
    using that by (auto simp: name_dep_def stage_dep_def)
  ultimately have "name_dep stages = map_prod ?f ?f ` stage_dep stages" by (intro subset_antisym subrelI)
  then show ?thesis using acyclic_inj_image [OF inj, of "stage_dep stages"] by (auto simp: stage_dep_def)
qed

text \<open>(C30)
  The stage checks of the validator are total and accept exactly the well-formed stage lists: between one and
  \<^verbatim>\<open>maxStages\<close> stages; every stage with a name that is not blank, a known type that is not forbidden, a
  timeout between 0 and \<^verbatim>\<open>maxTimeout\<close> and at most 10 retries; no name twice; every dependency the name of a
  stage; and no cycle among the dependencies, which is what the depth first search of
  \<^verbatim>\<open>detectCycles\<close> has to find.
\<close>

theorem stage_checks_correct:
  "stage_checks v stages \<noteq> None \<and>
   (stage_checks v stages = Some [] \<longleftrightarrow>
     stages \<noteq> [] \<and> length stages \<le> PV_maxStages v \<and>
     (\<forall>s \<in> set stages. \<not> list_all is_space (Stage_Name s) \<and> TaskType_IsValid (Stage_Type s) \<and>
        \<not> gm_getd False (PV_forbiddenTypes v) (Stage_Type s) \<and>
        0 \<le> Stage_Timeout s \<and> Stage_Timeout s \<le> PV_maxTimeout v \<and> 0 \<le> Stage_MaxRetry s \<and> Stage_MaxRetry s \<le> 10) \<and>
     distinct (map Stage_Name stages) \<and>
     (\<forall>s \<in> set stages. set (Stage_DependsOn s) \<subseteq> Stage_Name ` set stages) \<and> acyclic (name_dep stages))"
proof -
  have stages: "validateStages v stages = [] \<longleftrightarrow> stages \<noteq> [] \<and> length stages \<le> PV_maxStages v \<and>
      (\<forall>s \<in> set stages. \<not> list_all is_space (Stage_Name s) \<and> TaskType_IsValid (Stage_Type s) \<and>
        \<not> gm_getd False (PV_forbiddenTypes v) (Stage_Type s) \<and>
        0 \<le> Stage_Timeout s \<and> 0 \<le> Stage_MaxRetry s \<and> Stage_MaxRetry s \<le> 10)"
  proof -
    have "concat (map (\<lambda>(i, s). validateStage v i s) (enumerate 0 stages)) = [] \<longleftrightarrow>
      (\<forall>s \<in> set stages. \<not> list_all is_space (Stage_Name s) \<and> TaskType_IsValid (Stage_Type s) \<and>
        \<not> gm_getd False (PV_forbiddenTypes v) (Stage_Type s) \<and>
        0 \<le> Stage_Timeout s \<and> 0 \<le> Stage_MaxRetry s \<and> Stage_MaxRetry s \<le> 10)"
      by (rule concat_enumerate_Nil) (simp add: validateStage_def TrimSpace_empty linorder_not_less)
    then show ?thesis by (simp add: validateStages_def linorder_not_less)
  qed
  have limits: "validateResourceLimits v stages = [] \<longleftrightarrow> (\<forall>s \<in> set stages. Stage_Timeout s \<le> PV_maxTimeout v)"
    unfolding validateResourceLimits_def by (rule concat_enumerate_Nil) (simp add: linorder_not_less)
  show ?thesis
    by (simp add: stage_checks_def detectCycles_acyclic stages limits validateStageNames_Nil validateStageDependencies_Nil)
      (use name_dep_acyclic in blast)
qed

definition two_stages :: "Stage list" where
  "two_stages = [http_stage\<lparr>Stage_Name := ''load'', Stage_DependsOn := [''fetch'']\<rparr>, http_stage]"

theorem stage_checks_correct_witness: "stage_checks NewPipelineValidator two_stages = Some []"
proof -
  have "name_dep two_stages = {(''load'', ''fetch'')}" by (simp add: name_dep_def two_stages_def http_stage_def)
  then have "acyclic (name_dep two_stages)" by (simp add: acyclic_insert wf_acyclic)
  then show ?thesis using stage_checks_correct [of NewPipelineValidator two_stages]
    by (simp add: two_stages_def http_stage_def NewPipelineValidator_def is_space_def time_units TaskType_IsValid_def)
qed


end
