(* ===== verification/Pipeline_Builder.thy ===== *)
theory Pipeline_Builder
  imports Pipeline_Validator
begin

text \<open>
  The pipeline builder of \<^verbatim>\<open>internal/pipeline/builder.go\<close>. The ids that \<^verbatim>\<open>uuid.New\<close> returns and the clock are
  arguments. The builder is passed by value, so that sharing of the pipeline between a builder and a
  pipeline it built is left out.
\<close>

section \<open>Data\<close>

datatype BuilderError =
    NameEmpty | InvalidStatus PipelineStatus | RetriesNegative | TimeoutNotPositive | ConcurrencyNotPositive | PriorityRange

datatype BuildError = BuildFailed "BuilderError list" | NameRequired | StageRequired

record PipelineBuilder =
  PipelineBuilder_pipeline :: Pipeline
  PipelineBuilder_stages :: "Stage list"
  PipelineBuilder_errors :: "BuilderError list"

section \<open>Operations\<close>

definition NewPipelineBuilder :: "uuid \<Rightarrow> gotime \<Rightarrow> string \<Rightarrow> PipelineBuilder" where
  "NewPipelineBuilder fresh now name = \<lparr>PipelineBuilder_pipeline = NewPipeline fresh now name 0,
     PipelineBuilder_stages = [], PipelineBuilder_errors = []\<rparr>"

definition NewPipelineBuilderFromExisting :: "Pipeline \<Rightarrow> PipelineBuilder" where
  "NewPipelineBuilderFromExisting p = \<lparr>PipelineBuilder_pipeline = p, PipelineBuilder_stages = GetStagesFromPipeline p,
     PipelineBuilder_errors = []\<rparr>"

definition builder_error :: "BuilderError \<Rightarrow> PipelineBuilder \<Rightarrow> PipelineBuilder" where
  "builder_error err b = b\<lparr>PipelineBuilder_errors := PipelineBuilder_errors b @ [err]\<rparr>"

definition on_pipeline :: "(Pipeline \<Rightarrow> Pipeline) \<Rightarrow> PipelineBuilder \<Rightarrow> PipelineBuilder" where
  "on_pipeline f b = b\<lparr>PipelineBuilder_pipeline := f (PipelineBuilder_pipeline b)\<rparr>"

definition on_config :: "(PipelineConfig \<Rightarrow> PipelineConfig) \<Rightarrow> PipelineBuilder \<Rightarrow> PipelineBuilder" where
  "on_config f = on_pipeline (\<lambda>p. p\<lparr>Pipeline_Config := f (Pipeline_Config p)\<rparr>)"

definition SetName :: "string \<Rightarrow> PipelineBuilder \<Rightarrow> PipelineBuilder" where
  "SetName name b = (if name = [] then builder_error NameEmpty b else on_pipeline (\<lambda>p. p\<lparr>Pipeline_Name := name\<rparr>) b)"

definition SetDescription :: "string \<Rightarrow> PipelineBuilder \<Rightarrow> PipelineBuilder" where
  "SetDescription desc = on_pipeline (\<lambda>p. p\<lparr>Pipeline_Description := desc\<rparr>)"

definition SetStatus :: "PipelineStatus \<Rightarrow> PipelineBuilder \<Rightarrow> PipelineBuilder" where
  "SetStatus st b = (if \<not> PipelineStatus_IsValid st then builder_error (InvalidStatus st) b
     else on_pipeline (\<lambda>p. p\<lparr>Pipeline_Status := st\<rparr>) b)"

definition WithConfig :: "PipelineConfig \<Rightarrow> PipelineBuilder \<Rightarrow> PipelineBuilder" where
  "WithConfig cfg = on_config (\<lambda>_. cfg)"

definition WithConfigModifier :: "(PipelineConfig \<Rightarrow> PipelineConfig) \<Rightarrow> PipelineBuilder \<Rightarrow> PipelineBuilder" where
  "WithConfigModifier fn = on_config fn"

definition SetMaxRetries :: "int \<Rightarrow> PipelineBuilder \<Rightarrow> PipelineBuilder" where
  "SetMaxRetries n b = (if n < 0 then builder_error RetriesNegative b
     else on_config (\<lambda>c. c\<lparr>PipelineConfig_MaxRetries := n\<rparr>) b)"

definition SetTimeout :: "int \<Rightarrow> PipelineBuilder \<Rightarrow> PipelineBuilder" where
  "SetTimeout n b = (if n \<le> 0 then builder_error TimeoutNotPositive b
     else on_config (\<lambda>c. c\<lparr>PipelineConfig_TimeoutSeconds := n\<rparr>) b)"

definition SetConcurrency :: "int \<Rightarrow> PipelineBuilder \<Rightarrow> PipelineBuilder" where
  "SetConcurrency n b = (if n \<le> 0 then builder_error ConcurrencyNotPositive b
     else on_config (\<lambda>c. c\<lparr>PipelineConfig_Concurrency := n\<rparr>) b)"

definition SetPriority :: "int \<Rightarrow> PipelineBuilder \<Rightarrow> PipelineBuilder" where
  "SetPriority n b = (if n < 0 \<or> n > 100 then builder_error PriorityRange b
     else on_config (\<lambda>c. c\<lparr>PipelineConfig_Priority := n\<rparr>) b)"

definition SetQueueName :: "string \<Rightarrow> PipelineBuilder \<Rightarrow> PipelineBuilder" where
  "SetQueueName name = on_config (\<lambda>c. c\<lparr>PipelineConfig_QueueName := name\<rparr>)"

definition SetCreatedBy :: "uuid \<Rightarrow> PipelineBuilder \<Rightarrow> PipelineBuilder" where
  "SetCreatedBy u = on_pipeline (\<lambda>p. p\<lparr>Pipeline_CreatedBy := u\<rparr>)"

definition AddTag :: "string \<Rightarrow> string \<Rightarrow> PipelineBuilder \<Rightarrow> PipelineBuilder" where
  "AddTag key value = on_pipeline (\<lambda>p. p\<lparr>Pipeline_Tags := gm_set key value (Pipeline_Tags p)\<rparr>)"

definition AddStage :: "uuid \<Rightarrow> Stage \<Rightarrow> PipelineBuilder \<Rightarrow> PipelineBuilder" where
  "AddStage fresh stage b =
     (let n = length (PipelineBuilder_stages b);
          pname = Pipeline_Name (PipelineBuilder_pipeline b);
          name = (if Stage_Name stage = []
                  then (if pname \<noteq> [] then pname @ ''-stage-'' @ show_nat (n + 1) else ''stage-'' @ show_nat (n + 1))
                  else Stage_Name stage);
          id = (if Stage_ID stage = 0 then fresh else Stage_ID stage)
      in b\<lparr>PipelineBuilder_stages := PipelineBuilder_stages b @
             [stage\<lparr>Stage_Name := name, Stage_ID := id, Stage_Sequence := int n\<rparr>]\<rparr>)"

definition mkStage :: "string \<Rightarrow> TaskType \<Rightarrow> TaskConfig \<Rightarrow> dur \<Rightarrow> int \<Rightarrow> Stage" where
  "mkStage name t cfg timeout retries = \<lparr>Stage_ID = 0, Stage_Name = name, Stage_Type = t, Stage_Config = cfg,
     Stage_Sequence = 0, Stage_Optional = False, Stage_DependsOn = [], Stage_Timeout = timeout, Stage_MaxRetry = retries\<rparr>"

definition builder_timeout :: "PipelineBuilder \<Rightarrow> dur" where
  "builder_timeout b = i64 (PipelineConfig_TimeoutSeconds (Pipeline_Config (PipelineBuilder_pipeline b)) * Second)"

definition builder_retries :: "PipelineBuilder \<Rightarrow> int" where
  "builder_retries b = PipelineConfig_MaxRetries (Pipeline_Config (PipelineBuilder_pipeline b))"

definition AddHTTPStage :: "uuid \<Rightarrow> string \<Rightarrow> string \<Rightarrow> string \<Rightarrow> PipelineBuilder \<Rightarrow> PipelineBuilder" where
  "AddHTTPStage fresh name url meth b =
     AddStage fresh (mkStage name TaskTypeHTTP (zero_TaskConfig\<lparr>TaskConfig_URL := url, TaskConfig_Method := meth\<rparr>)
       (builder_timeout b) (builder_retries b)) b"

definition AddSQLStage :: "uuid \<Rightarrow> string \<Rightarrow> string \<Rightarrow> PipelineBuilder \<Rightarrow> PipelineBuilder" where
  "AddSQLStage fresh name query b =
     AddStage fresh (mkStage name TaskTypeSQL (zero_TaskConfig\<lparr>TaskConfig_SQL := query\<rparr>)
       (builder_timeout b) (builder_retries b)) b"

definition AddTransformStage :: "uuid \<Rightarrow> string \<Rightarrow> string \<Rightarrow> PipelineBuilder \<Rightarrow> PipelineBuilder" where
  "AddTransformStage fresh name transform b =
     AddStage fresh (mkStage name TaskTypeTransform (zero_TaskConfig\<lparr>TaskConfig_Transform := transform\<rparr>)
       (builder_timeout b) 0) b"

definition AddScriptStage :: "uuid \<Rightarrow> string \<Rightarrow> string \<Rightarrow> PipelineBuilder \<Rightarrow> PipelineBuilder" where
  "AddScriptStage fresh name script b =
     AddStage fresh (mkStage name TaskTypeScript (zero_TaskConfig\<lparr>TaskConfig_Script := script\<rparr>)
       (builder_timeout b) (builder_retries b)) b"

definition AddNotificationStage :: "uuid \<Rightarrow> string \<Rightarrow> string \<Rightarrow> PipelineBuilder \<Rightarrow> PipelineBuilder" where
  "AddNotificationStage fresh name channel b =
     AddStage fresh (mkStage name TaskTypeNotification
       (zero_TaskConfig\<lparr>TaskConfig_NotifyChannel := channel, TaskConfig_NotifyOnFailure := True\<rparr>) (30 * Second) 3) b"

definition SetStages :: "Stage list \<Rightarrow> PipelineBuilder \<Rightarrow> PipelineBuilder" where
  "SetStages stages b =
     b\<lparr>PipelineBuilder_stages := map (\<lambda>(i, s). s\<lparr>Stage_Sequence := int i\<rparr>) (enumerate 0 stages)\<rparr>"

fun add_dependency :: "string \<Rightarrow> string list \<Rightarrow> Stage list \<Rightarrow> Stage list" where
  "add_dependency nm deps [] = []"
| "add_dependency nm deps (s # ss) =
     (if Stage_Name s = nm then s\<lparr>Stage_DependsOn := Stage_DependsOn s @ deps\<rparr> # ss else s # add_dependency nm deps ss)"

definition WithStageDependency :: "string \<Rightarrow> string list \<Rightarrow> PipelineBuilder \<Rightarrow> PipelineBuilder" where
  "WithStageDependency nm deps b = b\<lparr>PipelineBuilder_stages := add_dependency nm deps (PipelineBuilder_stages b)\<rparr>"

definition Build :: "PipelineBuilder \<Rightarrow> BuildError + Pipeline" where
  "Build b =
     (if length (PipelineBuilder_errors b) > 0 then Inl (BuildFailed (PipelineBuilder_errors b))
      else if Pipeline_Name (PipelineBuilder_pipeline b) = [] then Inl NameRequired
      else if length (PipelineBuilder_stages b) = 0 then Inl StageRequired
      else Inr (PipelineBuilder_pipeline b))"

definition BuildWithStages :: "PipelineBuilder \<Rightarrow> BuildError + Pipeline \<times> Stage list" where
  "BuildWithStages b = (case Build b of Inl err \<Rightarrow> Inl err | Inr p \<Rightarrow> Inr (p, PipelineBuilder_stages b))"

definition builder_Reset :: "uuid \<Rightarrow> gotime \<Rightarrow> PipelineBuilder \<Rightarrow> PipelineBuilder" where
  "builder_Reset fresh now b = NewPipelineBuilder fresh now []"

definition builder_Clone :: "PipelineBuilder \<Rightarrow> PipelineBuilder" where
  "builder_Clone b = \<lparr>PipelineBuilder_pipeline = PipelineBuilder_pipeline b, PipelineBuilder_stages = PipelineBuilder_stages b,
     PipelineBuilder_errors = PipelineBuilder_errors b\<rparr>"

section \<open>What a builder can build\<close>

text \<open>The builders reached by the operations that check what they set.\<close>

inductive builder_reach :: "PipelineBuilder \<Rightarrow> bool" where
  "builder_reach (NewPipelineBuilder fresh now name)"
| "builder_reach b \<Longrightarrow> builder_reach (SetName name b)"
| "builder_reach b \<Longrightarrow> builder_reach (SetDescription desc b)"
| "builder_reach b \<Longrightarrow> builder_reach (SetStatus st b)"
| "builder_reach b \<Longrightarrow> builder_reach (SetMaxRetries n b)"
| "builder_reach b \<Longrightarrow> builder_reach (SetTimeout n b)"
| "builder_reach b \<Longrightarrow> builder_reach (SetConcurrency n b)"
| "builder_reach b \<Longrightarrow> builder_reach (SetPriority n b)"
| "builder_reach b \<Longrightarrow> builder_reach (SetQueueName name b)"
| "builder_reach b \<Longrightarrow> builder_reach (SetCreatedBy u b)"
| "builder_reach b \<Longrightarrow> builder_reach (AddTag key val b)"
| "builder_reach b \<Longrightarrow> fresh \<noteq> 0 \<Longrightarrow> builder_reach (AddStage fresh stage b)"
| "builder_reach b \<Longrightarrow> fresh \<noteq> 0 \<Longrightarrow> builder_reach (AddHTTPStage fresh name url meth b)"
| "builder_reach b \<Longrightarrow> fresh \<noteq> 0 \<Longrightarrow> builder_reach (AddSQLStage fresh name query b)"
| "builder_reach b \<Longrightarrow> fresh \<noteq> 0 \<Longrightarrow> builder_reach (AddTransformStage fresh name transform b)"
| "builder_reach b \<Longrightarrow> fresh \<noteq> 0 \<Longrightarrow> builder_reach (AddScriptStage fresh name script b)"
| "builder_reach b \<Longrightarrow> fresh \<noteq> 0 \<Longrightarrow> builder_reach (AddNotificationStage fresh name channel b)"
| "builder_reach b \<Longrightarrow> builder_reach (WithStageDependency nm deps b)"
| "builder_reach b \<Longrightarrow> builder_reach (builder_Reset fresh now b)"
| "builder_reach b \<Longrightarrow> builder_reach (builder_Clone b)"

definition config_inv :: "PipelineConfig \<Rightarrow> bool" where
  "config_inv c \<longleftrightarrow> 0 \<le> PipelineConfig_MaxRetries c \<and> 0 < PipelineConfig_TimeoutSeconds c \<and>
     0 < PipelineConfig_Concurrency c \<and> 0 \<le> PipelineConfig_Priority c \<and> PipelineConfig_Priority c \<le> 100"

definition stages_inv :: "Stage list \<Rightarrow> bool" where
  "stages_inv stages \<longleftrightarrow> (\<forall>i < length stages. Stage_Sequence (stages ! i) = int i \<and> Stage_Name (stages ! i) \<noteq> [] \<and> Stage_ID (stages ! i) \<noteq> 0)"

definition builder_inv :: "PipelineBuilder \<Rightarrow> bool" where
  "builder_inv b \<longleftrightarrow> config_inv (Pipeline_Config (PipelineBuilder_pipeline b)) \<and>
     PipelineStatus_IsValid (Pipeline_Status (PipelineBuilder_pipeline b)) \<and> stages_inv (PipelineBuilder_stages b)"

lemma stages_inv_Nil [simp]: "stages_inv []"
  by (simp add: stages_inv_def)

lemma stages_inv_snoc:
  "stages_inv (ss @ [s]) \<longleftrightarrow> stages_inv ss \<and> Stage_Sequence s = int (length ss) \<and> Stage_Name s \<noteq> [] \<and> Stage_ID s \<noteq> 0"
  by (auto simp: stages_inv_def nth_append less_Suc_eq)

lemma add_dependency_nth:
  "length (add_dependency nm deps ss) = length ss"
  "i < length ss \<Longrightarrow> Stage_Sequence (add_dependency nm deps ss ! i) = Stage_Sequence (ss ! i)"
  "i < length ss \<Longrightarrow> Stage_Name (add_dependency nm deps ss ! i) = Stage_Name (ss ! i)"
  "i < length ss \<Longrightarrow> Stage_ID (add_dependency nm deps ss ! i) = Stage_ID (ss ! i)"
  by (induction ss arbitrary: i) (auto simp: nth_Cons split: nat.splits)

lemma stages_inv_dependency [simp]: "stages_inv (add_dependency nm deps ss) \<longleftrightarrow> stages_inv ss"
  by (simp add: stages_inv_def add_dependency_nth)

lemma AddStage_pipeline [simp]: "PipelineBuilder_pipeline (AddStage fresh stage b) = PipelineBuilder_pipeline b"
  by (simp add: AddStage_def Let_def)

lemma AddStage_stages [simp]:
  "fresh \<noteq> 0 \<Longrightarrow> stages_inv (PipelineBuilder_stages (AddStage fresh stage b)) \<longleftrightarrow> stages_inv (PipelineBuilder_stages b)"
  by (simp add: AddStage_def stages_inv_snoc Let_def)

lemmas builder_defs = NewPipelineBuilder_def NewPipeline_def DefaultPipelineConfig_def
  SetName_def SetDescription_def SetStatus_def SetMaxRetries_def SetTimeout_def
  SetConcurrency_def SetPriority_def SetQueueName_def SetCreatedBy_def AddTag_def AddHTTPStage_def AddSQLStage_def
  AddTransformStage_def AddScriptStage_def AddNotificationStage_def WithStageDependency_def builder_Reset_def
  builder_Clone_def builder_error_def on_pipeline_def on_config_def

lemma builder_reach_inv: "builder_reach b \<Longrightarrow> builder_inv b"
  by (induction rule: builder_reach.induct) (simp_all add: builder_inv_def config_inv_def PipelineStatus_IsValid_def builder_defs)

text \<open>(C38)
  What the builder builds after any sequence of its checked operations: a pipeline with a name and a valid status whose
  numbers are in range, and a list of at least one stage in which the sequence number of every stage is its
  index and every stage has a name and an id. If an operation was refused, nothing is built.
\<close>

theorem BuildWithStages_valid:
  assumes "builder_reach b" "BuildWithStages b = Inr (p, stages)"
  shows "PipelineBuilder_errors b = [] \<and> Pipeline_Name p \<noteq> [] \<and> PipelineStatus_IsValid (Pipeline_Status p) \<and>
    0 \<le> PipelineConfig_MaxRetries (Pipeline_Config p) \<and> 0 < PipelineConfig_TimeoutSeconds (Pipeline_Config p) \<and>
    0 < PipelineConfig_Concurrency (Pipeline_Config p) \<and>
    0 \<le> PipelineConfig_Priority (Pipeline_Config p) \<and> PipelineConfig_Priority (Pipeline_Config p) \<le> 100 \<and>
    stages \<noteq> [] \<and>
    (\<forall>i < length stages. Stage_Sequence (stages ! i) = int i \<and> Stage_Name (stages ! i) \<noteq> [] \<and> Stage_ID (stages ! i) \<noteq> 0)"
  using builder_reach_inv [OF assms(1)] assms(2)
  by (auto simp: BuildWithStages_def Build_def builder_inv_def config_inv_def stages_inv_def split: if_splits)

definition etl_builder :: PipelineBuilder where
  "etl_builder = AddSQLStage 8 [] ''select 1'' (AddHTTPStage 7 ''fetch'' ''http://x'' ''GET'' (SetPriority 100 (NewPipelineBuilder 1 0 ''etl'')))"

theorem BuildWithStages_valid_witness:
  "\<exists>p stages. BuildWithStages etl_builder = Inr (p, stages) \<and> Pipeline_Name p = ''etl'' \<and>
    map Stage_Name stages = [''fetch'', ''etl-stage-2''] \<and> (\<forall>i < length stages. Stage_Sequence (stages ! i) = int i)"
proof -
  have reach: "builder_reach etl_builder" unfolding etl_builder_def by (intro builder_reach.intros) simp_all
  have "show_nat 2 = ''2''" "show_nat (Suc (Suc 0)) = ''2''" by code_simp+
  then obtain p stages where build: "BuildWithStages etl_builder = Inr (p, stages)" "Pipeline_Name p = ''etl''"
      "map Stage_Name stages = [''fetch'', ''etl-stage-2'']"
    by (simp add: etl_builder_def builder_defs AddStage_def mkStage_def BuildWithStages_def Build_def Let_def)
  then show ?thesis using BuildWithStages_valid [OF reach build(1)]
    by (intro exI [of _ p] exI [of _ stages]) simp
qed

end
