(* ===== verification/Go_Chan.thy ===== *)
theory Go_Chan
  imports Prelude
begin

text \<open>
  Buffered channels, as far as the program uses them: a send in a \<^verbatim>\<open>select\<close> with a \<^verbatim>\<open>default\<close>, which
  never waits, a receive, and closing. A send on a closed channel and a second close panic. The locale is
  the contract that the queues of the program share; its lemmas are about any sequence of sends and receives.
\<close>

section \<open>Channels\<close>

record 'a chan =
  chan_buf :: "'a list"
  chan_cap :: nat
  chan_closed :: bool

datatype 'a received = Received 'a | Closed | Blocked

definition chan_make :: "int \<Rightarrow> 'a chan" where
  "chan_make n = \<lparr>chan_buf = [], chan_cap = nat n, chan_closed = False\<rparr>"

text \<open>The flag of the result is whether the value was taken.\<close>

definition chan_try_send :: "'a \<Rightarrow> 'a chan \<Rightarrow> ('e, bool \<times> 'a chan) outcome" where
  "chan_try_send x c =
     (if chan_closed c then Panic
      else if length (chan_buf c) < chan_cap c then Return (True, c\<lparr>chan_buf := chan_buf c @ [x]\<rparr>)
      else Return (False, c))"

definition chan_recv :: "'a chan \<Rightarrow> 'a received \<times> 'a chan" where
  "chan_recv c =
     (case chan_buf c of
        x # xs \<Rightarrow> (Received x, c\<lparr>chan_buf := xs\<rparr>)
      | [] \<Rightarrow> (if chan_closed c then Closed else Blocked, c))"

definition chan_close :: "'a chan \<Rightarrow> ('e, 'a chan) outcome" where
  "chan_close c = (if chan_closed c then Panic else Return (c\<lparr>chan_closed := True\<rparr>))"

section \<open>The contract of a bounded queue\<close>

datatype 'a qop = Send 'a | Recv

text \<open>A run of sends and receives, with the values taken and the values handed out, in order.\<close>

fun queue_run :: "('a \<Rightarrow> 'q \<Rightarrow> 'q option) \<Rightarrow> ('q \<Rightarrow> ('a \<times> 'q) option) \<Rightarrow> 'a qop list \<Rightarrow> 'q \<Rightarrow> 'a list \<times> 'a list \<times> 'q" where
  "queue_run push pop [] q = ([], [], q)"
| "queue_run push pop (Send x # ops) q =
     (case push x q of
        None \<Rightarrow> queue_run push pop ops q
      | Some q' \<Rightarrow> (let (ins, outs, q'') = queue_run push pop ops q' in (x # ins, outs, q'')))"
| "queue_run push pop (Recv # ops) q =
     (case pop q of
        None \<Rightarrow> queue_run push pop ops q
      | Some (x, q') \<Rightarrow> (let (ins, outs, q'') = queue_run push pop ops q' in (ins, x # outs, q'')))"

locale bounded_queue =
  fixes items :: "'q \<Rightarrow> 'a list"
    and capacity :: "'q \<Rightarrow> nat"
    and push :: "'a \<Rightarrow> 'q \<Rightarrow> 'q option"
    and pop :: "'q \<Rightarrow> ('a \<times> 'q) option"
  assumes push_None: "push x q = None \<Longrightarrow> capacity q \<le> length (items q)"
    and push_Some: "push x q = Some q' \<Longrightarrow> items q' = items q @ [x] \<and> capacity q' = capacity q \<and> length (items q) < capacity q"
    and pop_None: "pop q = None \<Longrightarrow> items q = []"
    and pop_Some: "pop q = Some (x, q') \<Longrightarrow> items q = x # items q' \<and> capacity q' = capacity q"
begin

text \<open>Nothing taken is lost, reordered or handed out twice, and the bound is kept.\<close>

lemma run_fifo: "queue_run push pop ops q = (ins, outs, q') \<Longrightarrow> items q @ ins = outs @ items q' \<and> capacity q' = capacity q"
proof (induction ops arbitrary: q ins outs)
  case (Cons p ops)
  show ?case
  proof (cases p)
    case (Send x)
    then show ?thesis using Cons push_Some [of x q] by (fastforce split: option.splits prod.splits)
  next
    case Recv
    then show ?thesis using Cons pop_Some [of q] by (fastforce split: option.splits prod.splits)
  qed
qed simp

lemma run_bounded:
  "queue_run push pop ops q = (ins, outs, q') \<Longrightarrow> length (items q) \<le> capacity q \<Longrightarrow> length (items q') \<le> capacity q'"
proof (induction ops arbitrary: q ins outs)
  case (Cons p ops)
  show ?case
  proof (cases p)
    case (Send x)
    then show ?thesis using Cons push_Some [of x q] by (fastforce split: option.splits prod.splits)
  next
    case Recv
    then show ?thesis using Cons pop_Some [of q] by (fastforce split: option.splits prod.splits)
  qed
qed simp

end

definition chan_push :: "'a \<Rightarrow> 'a chan \<Rightarrow> 'a chan option" where
  "chan_push x c = (if length (chan_buf c) < chan_cap c then Some (c\<lparr>chan_buf := chan_buf c @ [x]\<rparr>) else None)"

definition chan_pop :: "'a chan \<Rightarrow> ('a \<times> 'a chan) option" where
  "chan_pop c = (case chan_recv c of (Received x, c') \<Rightarrow> Some (x, c') | _ \<Rightarrow> None)"

interpretation ch: bounded_queue chan_buf chan_cap chan_push chan_pop
  by unfold_locales (auto simp: chan_push_def chan_pop_def chan_recv_def split: if_splits list.splits)

end
