(* ===== verification/Event_Bus.thy ===== *)
theory Event_Bus
  imports Go_Chan
begin

text \<open>
  The event bus of \<^verbatim>\<open>internal/pipeline/events.go\<close>. A handler is a function on the state of the world outside
  the bus and says whether it panicked; what it did before the panic stays. The dispatcher goroutine of an
  asynchronous bus is a step of its own.
\<close>

section \<open>Events\<close>

datatype BusEventType =
    EventPipelineStarted | EventPipelineCompleted | EventPipelineFailed | EventPipelineRetrying
  | EventPipelineCancelled | EventPipelinePaused | EventStageStarted | EventStageCompleted | EventStageFailed
  | EventStageRetrying | EventStageSkipped | EventRunCreated | EventRunFinished | EventTypeOther string

record BusEvent =
  BusEvent_Type :: BusEventType
  BusEvent_PipelineID :: uuid
  BusEvent_RunID :: uuid
  BusEvent_StageName :: string
  BusEvent_Error :: string
  BusEvent_Metadata :: "(string, string) gmap"

definition mkBusEvent :: "BusEventType \<Rightarrow> uuid \<Rightarrow> uuid \<Rightarrow> string \<Rightarrow> string \<Rightarrow> BusEvent" where
  "mkBusEvent t p r stage err = \<lparr>BusEvent_Type = t, BusEvent_PipelineID = p, BusEvent_RunID = r,
     BusEvent_StageName = stage, BusEvent_Error = err, BusEvent_Metadata = gm_empty\<rparr>"

definition NewStartedEvent :: "uuid \<Rightarrow> uuid \<Rightarrow> BusEvent" where
  "NewStartedEvent p r = mkBusEvent EventPipelineStarted p r [] []"
definition NewCompletedEvent :: "uuid \<Rightarrow> uuid \<Rightarrow> BusEvent" where
  "NewCompletedEvent p r = mkBusEvent EventPipelineCompleted p r [] []"
definition NewFailedEvent :: "uuid \<Rightarrow> uuid \<Rightarrow> string \<Rightarrow> BusEvent" where
  "NewFailedEvent p r err = mkBusEvent EventPipelineFailed p r [] err"
definition NewRetryingEvent :: "uuid \<Rightarrow> uuid \<Rightarrow> string \<Rightarrow> string \<Rightarrow> BusEvent" where
  "NewRetryingEvent p r stage err = mkBusEvent EventPipelineRetrying p r stage err"
definition NewStageStartedEvent :: "uuid \<Rightarrow> uuid \<Rightarrow> string \<Rightarrow> BusEvent" where
  "NewStageStartedEvent p r stage = mkBusEvent EventStageStarted p r stage []"
definition NewStageCompletedEvent :: "uuid \<Rightarrow> uuid \<Rightarrow> string \<Rightarrow> BusEvent" where
  "NewStageCompletedEvent p r stage = mkBusEvent EventStageCompleted p r stage []"
definition NewStageFailedEvent :: "uuid \<Rightarrow> uuid \<Rightarrow> string \<Rightarrow> string \<Rightarrow> BusEvent" where
  "NewStageFailedEvent p r stage err = mkBusEvent EventStageFailed p r stage err"

section \<open>The bus\<close>

type_synonym 'w EventHandler = "BusEvent \<Rightarrow> 'w \<Rightarrow> 'w \<times> bool"

record 'w EventBus =
  EventBus_handlers :: "(BusEventType, 'w EventHandler list) gmap"
  EventBus_async :: bool
  EventBus_bufferSize :: int
  EventBus_eventCh :: "BusEvent chan"
  EventBus_stopCh :: "unit chan"
  EventBus_running :: bool

definition NewEventBus :: "'w EventBus" where
  "NewEventBus = \<lparr>EventBus_handlers = gm_empty, EventBus_async = False, EventBus_bufferSize = 256,
     EventBus_eventCh = chan_make 0, EventBus_stopCh = chan_make 0, EventBus_running = False\<rparr>"

definition startDispatcher :: "'w EventBus \<Rightarrow> 'w EventBus" where
  "startDispatcher b = b\<lparr>EventBus_running := True\<rparr>"

definition NewAsyncEventBus :: "int \<Rightarrow> 'w EventBus" where
  "NewAsyncEventBus bufferSize =
     (let bufferSize = (if bufferSize \<le> 0 then 256 else bufferSize)
      in startDispatcher \<lparr>EventBus_handlers = gm_empty, EventBus_async = True, EventBus_bufferSize = bufferSize,
           EventBus_eventCh = chan_make bufferSize, EventBus_stopCh = chan_make 0, EventBus_running = False\<rparr>)"

definition add_handler :: "BusEventType \<Rightarrow> 'w EventHandler \<Rightarrow> 'w EventBus \<Rightarrow> 'w EventBus" where
  "add_handler t h b = b\<lparr>EventBus_handlers := gm_set t (gm_getd [] (EventBus_handlers b) t @ [h]) (EventBus_handlers b)\<rparr>"

definition Subscribe :: "BusEventType \<Rightarrow> 'w EventHandler \<Rightarrow> 'w EventBus \<Rightarrow> 'w EventBus" where
  "Subscribe t h b = add_handler t h b"

text \<open>
  The loop compares the address of its variable with the address of the parameter. They are different
  variables, whatever functions they hold, so no handler is found.
\<close>

definition same_address :: "'w EventHandler \<Rightarrow> 'w EventHandler \<Rightarrow> bool" where
  "same_address h handler = False"

fun remove_first :: "('w EventHandler \<Rightarrow> bool) \<Rightarrow> 'w EventHandler list \<Rightarrow> 'w EventHandler list option" where
  "remove_first p [] = None"
| "remove_first p (h # hs) = (if p h then Some hs else map_option ((#) h) (remove_first p hs))"

definition Unsubscribe :: "BusEventType \<Rightarrow> 'w EventHandler \<Rightarrow> 'w EventBus \<Rightarrow> 'w EventBus" where
  "Unsubscribe t handler b =
     (case remove_first (\<lambda>h. same_address h handler) (gm_getd [] (EventBus_handlers b) t) of
        None \<Rightarrow> b
      | Some hs \<Rightarrow> b\<lparr>EventBus_handlers := gm_set t hs (EventBus_handlers b)\<rparr>)"

text \<open>The order in which a range visits the types does not matter, so the model takes the order of the keys.\<close>

definition SubscribeAll :: "'w EventHandler \<Rightarrow> 'w EventBus \<Rightarrow> 'w EventBus" where
  "SubscribeAll h b = fold (\<lambda>t. add_handler t h) (gm_keys (EventBus_handlers b)) b"

definition SubscribeMany :: "'w EventHandler \<Rightarrow> BusEventType list \<Rightarrow> 'w EventBus \<Rightarrow> 'w EventBus" where
  "SubscribeMany h ts b = fold (\<lambda>t. add_handler t h) ts b"

definition dispatch :: "'w EventBus \<Rightarrow> BusEvent \<Rightarrow> 'w \<Rightarrow> 'w" where
  "dispatch b ev w =
     (case gm_get (EventBus_handlers b) (BusEvent_Type ev) of
        None \<Rightarrow> w
      | Some handlers \<Rightarrow> fold (\<lambda>handler w. fst (handler ev w)) handlers w)"

definition Publish :: "BusEvent \<Rightarrow> 'w EventBus \<times> 'w \<Rightarrow> (unit, 'w EventBus \<times> 'w) outcome" where
  "Publish ev bw =
     (case bw of (b, w) \<Rightarrow>
        if EventBus_async b
        then (case chan_try_send ev (EventBus_eventCh b) of
                Return (taken, ch) \<Rightarrow> Return (b\<lparr>EventBus_eventCh := ch\<rparr>, w)
              | Error e \<Rightarrow> Error e
              | Panic \<Rightarrow> Panic)
        else Return (b, dispatch b ev w))"

text \<open>One turn of the goroutine's loop that receives an event, while the goroutine runs.\<close>

definition dispatcher_event :: "'w EventBus \<times> 'w \<Rightarrow> ('w EventBus \<times> 'w) option" where
  "dispatcher_event bw =
     (case bw of (b, w) \<Rightarrow>
        if \<not> EventBus_running b then None
        else (case chan_recv (EventBus_eventCh b) of
                (Received ev, ch) \<Rightarrow> Some (b\<lparr>EventBus_eventCh := ch\<rparr>, dispatch b ev w)
              | _ \<Rightarrow> None))"

function drainRemaining :: "'w EventBus \<times> 'w \<Rightarrow> 'w EventBus \<times> 'w" where
  "drainRemaining (b, w) =
     (case chan_recv (EventBus_eventCh b) of
        (Received ev, ch) \<Rightarrow> drainRemaining (b\<lparr>EventBus_eventCh := ch\<rparr>, dispatch b ev w)
      | _ \<Rightarrow> (b, w))"
  by pat_completeness auto
termination
  by (relation "measure (\<lambda>(b, w). length (chan_buf (EventBus_eventCh b)))")
    (auto simp: chan_recv_def split: list.splits if_splits)

declare drainRemaining.simps [simp del]

definition Stop :: "'w EventBus \<times> 'w \<Rightarrow> (unit, 'w EventBus \<times> 'w) outcome" where
  "Stop bw =
     (case bw of (b, w) \<Rightarrow>
        if EventBus_async b
        then (case chan_close (EventBus_stopCh b) of
                Return ch \<Rightarrow>
                  Return (let (b', w') = drainRemaining (b\<lparr>EventBus_stopCh := ch\<rparr>, w) in (b'\<lparr>EventBus_running := False\<rparr>, w'))
              | Error e \<Rightarrow> Error e
              | Panic \<Rightarrow> Panic)
        else Return (b, w))"

definition HasHandlers :: "BusEventType \<Rightarrow> 'w EventBus \<Rightarrow> bool" where
  "HasHandlers t b = (case gm_get (EventBus_handlers b) t of None \<Rightarrow> False | Some hs \<Rightarrow> length hs > 0)"

definition HandlerCount :: "BusEventType \<Rightarrow> 'w EventBus \<Rightarrow> nat" where
  "HandlerCount t b = length (gm_getd [] (EventBus_handlers b) t)"

definition ClearHandlers :: "'w EventBus \<Rightarrow> 'w EventBus" where
  "ClearHandlers b = b\<lparr>EventBus_handlers := gm_empty\<rparr>"

definition ClearHandlersForType :: "BusEventType \<Rightarrow> 'w EventBus \<Rightarrow> 'w EventBus" where
  "ClearHandlersForType t b = b\<lparr>EventBus_handlers := gm_del t (EventBus_handlers b)\<rparr>"

text \<open>
  Publishers and the dispatcher interleaved: every \<open>Send\<close> is a call of \<^verbatim>\<open>Publish\<close>, every \<open>Recv\<close> a turn of the
  dispatcher. The result has the events the channel took, the events dispatched, and the state; \<open>None\<close> is a
  panic.
\<close>

fun bus_run :: "BusEvent qop list \<Rightarrow> 'w EventBus \<times> 'w \<Rightarrow> (BusEvent list \<times> BusEvent list \<times> 'w EventBus \<times> 'w) option" where
  "bus_run [] bw = Some ([], [], bw)"
| "bus_run (Send ev # ops) bw =
     (case Publish ev bw of
        Return bw' \<Rightarrow>
          map_option (\<lambda>(ins, outs, r). (if EventBus_eventCh (fst bw') = EventBus_eventCh (fst bw) then ins else ev # ins, outs, r))
            (bus_run ops bw')
      | _ \<Rightarrow> None)"
| "bus_run (Recv # ops) bw =
     (case dispatcher_event bw of
        None \<Rightarrow> bus_run ops bw
      | Some bw' \<Rightarrow>
          map_option (\<lambda>(ins, outs, r). (ins, hd (chan_buf (EventBus_eventCh (fst bw))) # outs, r)) (bus_run ops bw'))"

section \<open>Delivery\<close>

definition bus_live :: "'w EventBus \<Rightarrow> bool" where
  "bus_live b \<longleftrightarrow> EventBus_async b \<and> EventBus_running b \<and> \<not> chan_closed (EventBus_eventCh b) \<and>
     \<not> chan_closed (EventBus_stopCh b)"

lemma dispatch_cong: "EventBus_handlers b' = EventBus_handlers b \<Longrightarrow> dispatch b' = dispatch b"
  by (simp add: dispatch_def fun_eq_iff)

lemma chan_push_neq: "chan_push x c = Some c' \<Longrightarrow> c' \<noteq> c"
  by (auto simp: chan_push_def split: if_splits dest: arg_cong [where f = chan_buf])

lemma Publish_live:
  "bus_live b \<Longrightarrow> Publish ev (b, w) =
    Return (case chan_push ev (EventBus_eventCh b) of None \<Rightarrow> b | Some ch \<Rightarrow> b\<lparr>EventBus_eventCh := ch\<rparr>, w)"
  by (simp add: Publish_def chan_try_send_def chan_push_def bus_live_def)

lemma dispatcher_event_live:
  "bus_live b \<Longrightarrow> dispatcher_event (b, w) =
    map_option (\<lambda>(ev, ch). (b\<lparr>EventBus_eventCh := ch\<rparr>, dispatch b ev w)) (chan_pop (EventBus_eventCh b))"
  by (auto simp: dispatcher_event_def chan_pop_def bus_live_def split: prod.splits received.splits)

lemma bus_live_chan: "bus_live b \<Longrightarrow> chan_closed ch = chan_closed (EventBus_eventCh b) \<Longrightarrow> bus_live (b\<lparr>EventBus_eventCh := ch\<rparr>)"
  by (simp add: bus_live_def)

lemma chan_ops_closed:
  "chan_push x c = Some c' \<Longrightarrow> chan_closed c' = chan_closed c"
  "chan_pop c = Some (x, c') \<Longrightarrow> chan_closed c' = chan_closed c \<and> chan_buf c = x # chan_buf c'"
  by (auto simp: chan_push_def chan_pop_def chan_recv_def split: if_splits list.splits)

text \<open>The bus and its dispatcher refine the bounded queue.\<close>

lemma bus_run_queue:
  "bus_live b \<Longrightarrow> queue_run chan_push chan_pop ops (EventBus_eventCh b) = (ins, outs, ch) \<Longrightarrow>
    bus_run ops (b, w) = Some (ins, outs, b\<lparr>EventBus_eventCh := ch\<rparr>, fold (dispatch b) outs w) \<and> \<not> chan_closed ch"
proof (induction ops arbitrary: b w ins outs)
  case Nil
  then show ?case by (simp add: bus_live_def)
next
  case (Cons p ops)
  show ?case
  proof (cases p)
    case (Send ev)
    show ?thesis
    proof (cases "chan_push ev (EventBus_eventCh b)")
      case None
      then show ?thesis using Cons Send by (simp add: Publish_live)
    next
      case (Some c)
      note c = Some
      obtain ins' where q: "queue_run chan_push chan_pop ops c = (ins', outs, ch)" "ins = ev # ins'"
        using Cons.prems(2) Send Some by (auto split: prod.splits)
      have live: "bus_live (b\<lparr>EventBus_eventCh := c\<rparr>)" using bus_live_chan [OF Cons.prems(1)] chan_ops_closed(1) [OF Some] by blast
      show ?thesis using Cons.IH [OF live, of ins' outs w] q Send c chan_push_neq [OF c] Cons.prems(1)
          dispatch_cong [of "b\<lparr>EventBus_eventCh := c\<rparr>" b]
        by (simp add: Publish_live)
    qed
  next
    case Recv
    show ?thesis
    proof (cases "chan_pop (EventBus_eventCh b)")
      case None
      then show ?thesis using Cons Recv by (simp add: dispatcher_event_live)
    next
      case (Some r)
      obtain ev c where r: "r = (ev, c)" by (cases r)
      obtain outs' where q: "queue_run chan_push chan_pop ops c = (ins, outs', ch)" "outs = ev # outs'"
        using Cons.prems(2) Recv Some r by (auto split: prod.splits)
      note pop = chan_ops_closed(2) [OF Some [unfolded r]]
      have live: "bus_live (b\<lparr>EventBus_eventCh := c\<rparr>)" using bus_live_chan [OF Cons.prems(1)] pop by blast
      show ?thesis using Cons.IH [OF live, of ins outs' "dispatch b ev w"] q Recv Some r pop Cons.prems(1)
          dispatch_cong [of "b\<lparr>EventBus_eventCh := c\<rparr>" b]
        by (simp add: dispatcher_event_live)
    qed
  qed
qed

lemma drainRemaining_all:
  "drainRemaining (b, w) = (b\<lparr>EventBus_eventCh := (EventBus_eventCh b)\<lparr>chan_buf := []\<rparr>\<rparr>, fold (dispatch b) (chan_buf (EventBus_eventCh b)) w)"
proof (induction "chan_buf (EventBus_eventCh b)" arbitrary: b w)
  case Nil
  then show ?case by (simp add: drainRemaining.simps [of b] chan_recv_def flip: Nil)
next
  case (Cons ev evs)
  let ?b = "b\<lparr>EventBus_eventCh := (EventBus_eventCh b)\<lparr>chan_buf := evs\<rparr>\<rparr>"
  have "drainRemaining (b, w) = drainRemaining (?b, dispatch b ev w)"
    using Cons(2) [symmetric] by (simp add: drainRemaining.simps [of b] chan_recv_def)
  also have "\<dots> = (?b\<lparr>EventBus_eventCh := (EventBus_eventCh ?b)\<lparr>chan_buf := []\<rparr>\<rparr>, fold (dispatch ?b) (chan_buf (EventBus_eventCh ?b)) (dispatch b ev w))"
    by (rule Cons(1)) simp
  finally show ?case using dispatch_cong [of ?b b] by (simp flip: Cons(2))
qed

lemma Stop_live:
  assumes "bus_live b"
  shows "\<exists>b'. Stop (b, w) = Return (b', fold (dispatch b) (chan_buf (EventBus_eventCh b)) w) \<and>
    \<not> EventBus_running b' \<and> EventBus_async b' \<and> chan_closed (EventBus_stopCh b') \<and> chan_buf (EventBus_eventCh b') = []"
  using assms dispatch_cong [of "b\<lparr>EventBus_stopCh := x\<rparr>" b for x]
  by (auto simp: Stop_def chan_close_def drainRemaining_all bus_live_def)

text \<open>(C36)
  Delivery by the asynchronous bus, for every interleaving of publishers and dispatcher: no call panics, the
  buffer keeps its bound, and the events taken are dispatched once each, in the order of the channel, even when
  handlers panic. \<^verbatim>\<open>Stop\<close> then dispatches what is left, so that the handlers have seen exactly the events
  taken; a second \<^verbatim>\<open>Stop\<close> panics.
\<close>

theorem bus_delivery:
  assumes "bus_live b" "chan_buf (EventBus_eventCh b) = []"
  shows "\<exists>ins outs b' w' b''. bus_run ops (b, w) = Some (ins, outs, b', w') \<and>
    ins = outs @ chan_buf (EventBus_eventCh b') \<and>
    length (chan_buf (EventBus_eventCh b')) \<le> chan_cap (EventBus_eventCh b) \<and>
    w' = fold (dispatch b) outs w \<and>
    Stop (b', w') = Return (b'', fold (dispatch b) ins w) \<and> Stop (b'', fold (dispatch b) ins w) = Panic"
proof -
  obtain ins outs ch where q: "queue_run chan_push chan_pop ops (EventBus_eventCh b) = (ins, outs, ch)"
    using prod_cases3 by blast
  note run = bus_run_queue [OF assms(1) q, of w]
  let ?b = "b\<lparr>EventBus_eventCh := ch\<rparr>"
  have live: "bus_live ?b" using run assms(1) by (simp add: bus_live_def)
  have fifo: "ins = outs @ chan_buf ch" "chan_cap ch = chan_cap (EventBus_eventCh b)" using ch.run_fifo [OF q] assms(2) by simp_all
  have bound: "length (chan_buf ch) \<le> chan_cap ch" using ch.run_bounded [OF q] assms(2) by simp
  obtain b'' where stop: "Stop (?b, fold (dispatch b) outs w) = Return (b'', fold (dispatch b) ins w)"
    "EventBus_async b''" "chan_closed (EventBus_stopCh b'')"
    using Stop_live [OF live, of "fold (dispatch b) outs w"] fifo dispatch_cong [of ?b b] by auto
  have "Stop (b'', fold (dispatch b) ins w) = Panic" using stop(2,3) by (simp add: Stop_def chan_close_def)
  then show ?thesis using run fifo bound stop(1)
    by - (rule exI [of _ ins], rule exI [of _ outs], rule exI [of _ ?b], rule exI [of _ "fold (dispatch b) outs w"],
      rule exI [of _ b''], simp)
qed

text \<open>An example: a bus with room for one event and a handler that counts and panics.\<close>

definition counting_bus :: "nat EventBus" where
  "counting_bus = Subscribe EventRunCreated (\<lambda>ev n. (Suc n, True)) (NewAsyncEventBus 1)"

definition run_created :: "uuid \<Rightarrow> BusEvent" where
  "run_created r = mkBusEvent EventRunCreated 0 r [] []"

theorem bus_delivery_witness:
  "\<exists>b' w'. bus_run [Send (run_created 1), Send (run_created 2), Recv, Send (run_created 3)] (counting_bus, 0) =
      Some ([run_created 1, run_created 3], [run_created 1], b', w') \<and> w' = 1 \<and>
    (\<exists>b''. Stop (b', w') = Return (b'', 2))"
proof -
  let ?ops = "[Send (run_created 1), Send (run_created 2), Recv, Send (run_created 3)]"
  have live: "bus_live counting_bus" "chan_buf (EventBus_eventCh counting_bus) = []"
    by (simp_all add: bus_live_def counting_bus_def Subscribe_def add_handler_def NewAsyncEventBus_def
        startDispatcher_def chan_make_def Let_def)
  have run: "\<exists>b' w'. bus_run ?ops (counting_bus, 0) = Some ([run_created 1, run_created 3], [run_created 1], b', w')"
    by (simp add: counting_bus_def Subscribe_def add_handler_def NewAsyncEventBus_def startDispatcher_def chan_make_def
        Let_def Publish_def chan_try_send_def dispatcher_event_def chan_recv_def)
  have disp: "dispatch counting_bus (run_created r) n = Suc n" for r n
    by (simp add: dispatch_def counting_bus_def Subscribe_def add_handler_def gm.get_put run_created_def mkBusEvent_def
        NewAsyncEventBus_def startDispatcher_def Let_def)
  from bus_delivery [OF live, of ?ops 0] show ?thesis using run by (auto simp: disp numeral_2_eq_2)
qed

end
