(* ===== verification/Pipeline_Engine.thy ===== *)
theory Pipeline_Engine
  imports Pipeline_Executor Event_Bus
begin

text \<open>
  The engine of \<^verbatim>\<open>internal/pipeline/engine.go\<close>, over the stage executor and the event bus. The run id that
  \<^verbatim>\<open>uuid.New\<close> returns, what the context says at the head of each stage and within it, and the text of an error
  are arguments; the runs of the table of active runs are named by their id. Metrics, logging and
  durations are left out.
\<close>

section \<open>Data\<close>

datatype RunError =
    NoRunError
  | ContextError CtxErr
  | StageFailedError string StageError

datatype RunErrorText = NoText | Cancelled | ErrorText RunError

record 'o PipelineRunResult =
  PipelineRunResult_RunID :: uuid
  PipelineRunResult_PipelineID :: uuid
  PipelineRunResult_Status :: PipelineStatus
  PipelineRunResult_StageResults :: "'o StageResult list"
  PipelineRunResult_Error :: RunErrorText

record ('i, 'o, 'w) PipelineEngine =
  PipelineEngine_executor :: "('i, 'o) PipelineExecutor"
  PipelineEngine_eventBus :: "'w EventBus"
  PipelineEngine_active :: "(uuid, unit) gmap"
  PipelineEngine_cancelled :: "uuid list"

record RunCtx =
  RunCtx_done :: "nat \<Rightarrow> CtxErr option"
  RunCtx_stage :: "nat \<Rightarrow> StageCtx"

definition NewPipelineEngine :: "('i, 'o) PipelineExecutor \<Rightarrow> 'w EventBus \<Rightarrow> ('i, 'o, 'w) PipelineEngine" where
  "NewPipelineEngine ex bus = \<lparr>PipelineEngine_executor = ex, PipelineEngine_eventBus = bus,
     PipelineEngine_active = gm_empty, PipelineEngine_cancelled = []\<rparr>"

section \<open>Operations\<close>

definition engine_publish :: "BusEvent \<Rightarrow> ('i, 'o, 'w) PipelineEngine \<times> 'w \<Rightarrow> (unit, ('i, 'o, 'w) PipelineEngine \<times> 'w) outcome" where
  "engine_publish ev ew =
     (case ew of (e, w) \<Rightarrow>
        (case Publish ev (PipelineEngine_eventBus e, w) of
           Return (b, w') \<Rightarrow> Return (e\<lparr>PipelineEngine_eventBus := b\<rparr>, w')
         | Error x \<Rightarrow> Error x
         | Panic \<Rightarrow> Panic))"

definition resolveStages :: "Pipeline option \<Rightarrow> (string, Stage list) sum" where
  "resolveStages mp = (case mp of None \<Rightarrow> Inl ''pipeline is nil'' | Some p \<Rightarrow> Inr (GetStagesFromPipeline p))"

definition stage_failed :: "'o StageResult \<Rightarrow> bool" where
  "stage_failed r \<longleftrightarrow> StageResult_Status r = TaskStatusFailed \<or> StageResult_Status r = TaskStatusTimedOut"

text \<open>The loop over the stages: the results in order and the error so far, or the context's error.\<close>

fun run_stages ::
  "('i, 'o) PipelineExecutor \<Rightarrow> RunCtx \<Rightarrow> 'i \<Rightarrow> nat \<Rightarrow> Stage list \<Rightarrow> RunError \<Rightarrow> 'o StageResult list \<times> (CtxErr + RunError)" where
  "run_stages ex ctx input i [] finalErr = ([], Inr finalErr)"
| "run_stages ex ctx input i (stage # stages) finalErr =
     (case RunCtx_done ctx i of
        Some err \<Rightarrow> ([], Inl err)
      | None \<Rightarrow>
          (let result = fst (ExecuteStage ex (RunCtx_stage ctx i) stage input);
               finalErr' = (if stage_failed result then StageFailedError (Stage_Name stage) (StageResult_Error result) else finalErr)
           in if stage_failed result \<and> \<not> Stage_Optional stage then ([result], Inr finalErr')
              else (let (rs, out) = run_stages ex ctx input (Suc i) stages finalErr' in (result # rs, out))))"

definition mkRunResult :: "uuid \<Rightarrow> uuid \<Rightarrow> PipelineStatus \<Rightarrow> 'o StageResult list \<Rightarrow> RunErrorText \<Rightarrow> 'o PipelineRunResult" where
  "mkRunResult r p st rs err = \<lparr>PipelineRunResult_RunID = r, PipelineRunResult_PipelineID = p,
     PipelineRunResult_Status = st, PipelineRunResult_StageResults = rs, PipelineRunResult_Error = err\<rparr>"

text \<open>How a run ends: its result, its error and its last event.\<close>

definition run_outcome ::
  "(RunError \<Rightarrow> string) \<Rightarrow> uuid \<Rightarrow> uuid \<Rightarrow> 'o StageResult list \<times> (CtxErr + RunError) \<Rightarrow> 'o PipelineRunResult \<times> RunError \<times> BusEvent" where
  "run_outcome text runID pid out =
     (case out of (rs, r) \<Rightarrow>
        (case r of
           Inl err \<Rightarrow> (mkRunResult runID pid PipelineStatusFailed rs Cancelled, ContextError err, NewFailedEvent pid runID ''cancelled'')
         | Inr NoRunError \<Rightarrow> (mkRunResult runID pid PipelineStatusActive rs NoText, NoRunError, NewCompletedEvent pid runID)
         | Inr finalErr \<Rightarrow>
             (mkRunResult runID pid PipelineStatusFailed rs (ErrorText finalErr), finalErr, NewFailedEvent pid runID (text finalErr))))"

text \<open>
  The part of \<^verbatim>\<open>ExecutePipeline\<close> after the stages are resolved: the run is in the table while the stages run and
  the last event is published, and the deferred function removes it.
\<close>

definition execute_stages ::
  "(RunError \<Rightarrow> string) \<Rightarrow> uuid \<Rightarrow> RunCtx \<Rightarrow> uuid \<Rightarrow> Stage list \<Rightarrow> 'i \<Rightarrow> ('i, 'o, 'w) PipelineEngine \<times> 'w \<Rightarrow>
    (unit, ('o PipelineRunResult \<times> RunError) \<times> ('i, 'o, 'w) PipelineEngine \<times> 'w) outcome" where
  "execute_stages text runID ctx pid stages input ew =
     (case ew of (e, w) \<Rightarrow>
        let e1 = e\<lparr>PipelineEngine_active := gm_set runID () (PipelineEngine_active e)\<rparr>;
            (result, err, ev) = run_outcome text runID pid (run_stages (PipelineEngine_executor e) ctx input 0 stages NoRunError)
        in case engine_publish ev (e1, w) of
             Return (e2, w2) \<Rightarrow> Return ((result, err), e2\<lparr>PipelineEngine_active := gm_del runID (PipelineEngine_active e2)\<rparr>, w2)
           | Error x \<Rightarrow> Error x
           | Panic \<Rightarrow> Panic)"

text \<open>
  The log statement before everything else reads the id of the pipeline, so that a nil pipeline panics
  before \<^verbatim>\<open>resolveStages\<close> can refuse it.
\<close>

definition handleFailure ::
  "uuid \<Rightarrow> uuid \<Rightarrow> string \<Rightarrow> ('i, 'o, 'w) PipelineEngine \<times> 'w \<Rightarrow> (unit, ('i, 'o, 'w) PipelineEngine \<times> 'w) outcome" where
  "handleFailure runID pid err ew = engine_publish (NewFailedEvent pid runID err) ew"

definition ExecutePipeline ::
  "(RunError \<Rightarrow> string) \<Rightarrow> uuid \<Rightarrow> RunCtx \<Rightarrow> Pipeline option \<Rightarrow> 'i \<Rightarrow> ('i, 'o, 'w) PipelineEngine \<times> 'w \<Rightarrow>
    (unit, (string + 'o PipelineRunResult \<times> RunError) \<times> ('i, 'o, 'w) PipelineEngine \<times> 'w) outcome" where
  "ExecutePipeline text runID ctx mp input ew =
     (case mp of
        None \<Rightarrow> Panic
      | Some p \<Rightarrow>
          (case engine_publish (NewStartedEvent (Pipeline_ID p) runID) ew of
             Panic \<Rightarrow> Panic
           | Error x \<Rightarrow> Error x
           | Return ew1 \<Rightarrow>
               (case resolveStages mp of
                  Inl err \<Rightarrow>
                    (case handleFailure runID (Pipeline_ID p) err ew1 of
                       Return ew2 \<Rightarrow> Return (Inl err, ew2)
                     | Error x \<Rightarrow> Error x
                     | Panic \<Rightarrow> Panic)
                | Inr stages \<Rightarrow>
                    (case execute_stages text runID ctx (Pipeline_ID p) stages input ew1 of
                       Return (r, ew2) \<Rightarrow> Return (Inr r, ew2)
                     | Error x \<Rightarrow> Error x
                     | Panic \<Rightarrow> Panic))))"

definition CancelRun :: "uuid \<Rightarrow> ('i, 'o, 'w) PipelineEngine \<Rightarrow> ('i, 'o, 'w) PipelineEngine" where
  "CancelRun runID e =
     (if gm_has (PipelineEngine_active e) runID
      then e\<lparr>PipelineEngine_cancelled := PipelineEngine_cancelled e @ [runID]\<rparr> else e)"

definition engine_shutdown :: "uuid ranger \<Rightarrow> nat \<Rightarrow> ('i, 'o, 'w) PipelineEngine \<Rightarrow> ('i, 'o, 'w) PipelineEngine" where
  "engine_shutdown rng n e =
     fold (\<lambda>id e. e\<lparr>PipelineEngine_cancelled := PipelineEngine_cancelled e @ [id],
                    PipelineEngine_active := gm_del id (PipelineEngine_active e)\<rparr>)
       (range_over rng n (PipelineEngine_active e)) e"

definition ActiveRuns :: "uuid ranger \<Rightarrow> nat \<Rightarrow> ('i, 'o, 'w) PipelineEngine \<Rightarrow> uuid list" where
  "ActiveRuns rng n e = range_over rng n (PipelineEngine_active e)"

definition IsRunning :: "uuid \<Rightarrow> ('i, 'o, 'w) PipelineEngine \<Rightarrow> bool" where
  "IsRunning runID e = gm_has (PipelineEngine_active e) runID"

section \<open>Lemmas\<close>

definition stage_result :: "('i, 'o) PipelineExecutor \<Rightarrow> RunCtx \<Rightarrow> 'i \<Rightarrow> Stage list \<Rightarrow> nat \<Rightarrow> 'o StageResult" where
  "stage_result ex ctx input stages i = fst (ExecuteStage ex (RunCtx_stage ctx i) (stages ! i) input)"

text \<open>Stage \<open>i\<close> runs when no earlier stage that is not optional failed and the context was open at every head.\<close>

definition stage_runs :: "('i, 'o) PipelineExecutor \<Rightarrow> RunCtx \<Rightarrow> 'i \<Rightarrow> Stage list \<Rightarrow> nat \<Rightarrow> bool" where
  "stage_runs ex ctx input stages i \<longleftrightarrow> i < length stages \<and> RunCtx_done ctx i = None \<and>
     (\<forall>j < i. RunCtx_done ctx j = None \<and> (stage_failed (stage_result ex ctx input stages j) \<longrightarrow> Stage_Optional (stages ! j)))"

definition ctx_tl :: "RunCtx \<Rightarrow> RunCtx" where
  "ctx_tl ctx = \<lparr>RunCtx_done = \<lambda>i. RunCtx_done ctx (Suc i), RunCtx_stage = \<lambda>i. RunCtx_stage ctx (Suc i)\<rparr>"

lemma run_stages_Suc: "run_stages ex ctx input (Suc k) stages err = run_stages ex (ctx_tl ctx) input k stages err"
  by (induction stages arbitrary: k err) (auto simp: ctx_tl_def Let_def split: option.splits)

lemma stage_result_Cons:
  "stage_result ex ctx input (s # stages) 0 = fst (ExecuteStage ex (RunCtx_stage ctx 0) s input)"
  "stage_result ex ctx input (s # stages) (Suc i) = stage_result ex (ctx_tl ctx) input stages i"
  by (simp_all add: stage_result_def ctx_tl_def)

lemma stage_runs_Cons:
  "stage_runs ex ctx input (s # stages) 0 \<longleftrightarrow> RunCtx_done ctx 0 = None"
  "stage_runs ex ctx input (s # stages) (Suc i) \<longleftrightarrow> RunCtx_done ctx 0 = None \<and>
     (stage_failed (stage_result ex ctx input (s # stages) 0) \<longrightarrow> Stage_Optional s) \<and> stage_runs ex (ctx_tl ctx) input stages i"
  by (auto simp: stage_runs_def stage_result_Cons ctx_tl_def All_less_Suc2)

lemma run_stages_correct:
  "run_stages ex ctx input 0 stages err = (rs, out) \<Longrightarrow>
    rs = map (stage_result ex ctx input stages) [0..<length rs] \<and>
    (\<forall>i. i < length rs \<longleftrightarrow> stage_runs ex ctx input stages i) \<and>
    (out = Inr NoRunError \<longleftrightarrow> err = NoRunError \<and> length rs = length stages \<and> (\<forall>r \<in> set rs. \<not> stage_failed r))"
proof (induction stages arbitrary: ctx err rs out)
  case Nil
  then show ?case by (auto simp: stage_runs_def)
next
  case (Cons s stages)
  let ?r = "stage_result ex ctx input (s # stages) 0"
  let ?err = "if stage_failed ?r then StageFailedError (Stage_Name s) (StageResult_Error ?r) else err"
  have sr: "map (stage_result ex ctx input (s # stages)) [0..<Suc n] = ?r # map (stage_result ex (ctx_tl ctx) input stages) [0..<n]" for n
    by (simp add: upt_conv_Cons stage_result_Cons(2) flip: map_Suc_upt del: upt_Suc)
  consider (closed) "RunCtx_done ctx 0 \<noteq> None"
    | (stop) "RunCtx_done ctx 0 = None" "stage_failed ?r" "\<not> Stage_Optional s"
    | (next_stage) "RunCtx_done ctx 0 = None" "stage_failed ?r \<longrightarrow> Stage_Optional s" by blast
  then show ?case
  proof cases
    case closed
    then have "\<not> stage_runs ex ctx input (s # stages) i" for i by (cases i) (auto simp: stage_runs_Cons)
    then show ?thesis using Cons.prems closed by auto
  next
    case stop
    have rs: "rs = [?r]" "out = Inr ?err" using Cons.prems stop by (simp_all add: stage_result_Cons(1) Let_def)
    have "i < length rs \<longleftrightarrow> stage_runs ex ctx input (s # stages) i" for i
      using stop by (cases i) (simp_all add: rs stage_runs_Cons)
    then show ?thesis using stop by (simp add: rs)
  next
    case next_stage
    obtain rs' where rec: "run_stages ex (ctx_tl ctx) input 0 stages ?err = (rs', out)" and rs: "rs = ?r # rs'"
      using Cons.prems next_stage by (auto simp: stage_result_Cons(1) run_stages_Suc Let_def split: prod.splits if_splits)
    note IH = Cons.IH [OF rec]
    have "rs = map (stage_result ex ctx input (s # stages)) [0..<length rs]" using IH sr [of "length rs'"] rs by simp
    moreover have "i < length rs \<longleftrightarrow> stage_runs ex ctx input (s # stages) i" for i
      using IH next_stage rs by (cases i) (simp_all add: stage_runs_Cons)
    moreover have "out = Inr NoRunError \<longleftrightarrow> err = NoRunError \<and> length rs = length (s # stages) \<and> (\<forall>r \<in> set rs. \<not> stage_failed r)"
      using IH rs by auto
    ultimately show ?thesis by blast
  qed
qed

text \<open>(C37)
  A run of any stages on a synchronous bus: the stages executed are the ones before which the context was open
  and no stage that is not optional failed or timed out, and the result has their results in order; the run is
  reported as completed if and only if every stage ran and none failed or timed out; exactly one event
  follows, which says the same; and the run is in the table of active runs only meanwhile.
\<close>

theorem execute_stages_correct:
  assumes "\<not> EventBus_async (PipelineEngine_eventBus e)" "\<not> IsRunning runID e" "gm_inv (PipelineEngine_active e)"
  shows "\<exists>result err e' w'. execute_stages text runID ctx pid stages input (e, w) = Return ((result, err), e', w') \<and>
    (let rs = PipelineRunResult_StageResults result; sr = stage_result (PipelineEngine_executor e) ctx input stages in
      rs = map sr [0..<length rs] \<and>
      (\<forall>i. i < length rs \<longleftrightarrow> stage_runs (PipelineEngine_executor e) ctx input stages i) \<and>
      (PipelineRunResult_Status result = PipelineStatusActive \<longleftrightarrow>
        length rs = length stages \<and> (\<forall>i < length stages. \<not> stage_failed (sr i))) \<and>
      (if PipelineRunResult_Status result = PipelineStatusActive
       then err = NoRunError \<and> w' = dispatch (PipelineEngine_eventBus e) (NewCompletedEvent pid runID) w
       else err \<noteq> NoRunError \<and> PipelineRunResult_Status result = PipelineStatusFailed \<and>
         (\<exists>msg. w' = dispatch (PipelineEngine_eventBus e) (NewFailedEvent pid runID msg) w))) \<and>
    (\<forall>r. IsRunning r e' \<longleftrightarrow> IsRunning r e)"
proof -
  obtain rs out where run: "run_stages (PipelineEngine_executor e) ctx input 0 stages NoRunError = (rs, out)" by fastforce
  note spec = run_stages_correct [OF run]
  have mem: "(\<forall>r \<in> set rs. P r) \<longleftrightarrow> (\<forall>i < length rs. P (stage_result (PipelineEngine_executor e) ctx input stages i))" for P
    using spec by (metis (no_types, lifting) atLeastLessThan_iff le0 image_iff set_map set_upt)
  let ?b = "PipelineEngine_eventBus e"
  obtain result err ev where out: "run_outcome text runID pid (rs, out) = (result, err, ev)" by (metis prod_cases3)
  have result: "PipelineRunResult_StageResults result = rs"
    "PipelineRunResult_Status result = PipelineStatusActive \<longleftrightarrow> out = Inr NoRunError"
    "if out = Inr NoRunError then err = NoRunError \<and> ev = NewCompletedEvent pid runID
     else err \<noteq> NoRunError \<and> PipelineRunResult_Status result = PipelineStatusFailed \<and> (\<exists>msg. ev = NewFailedEvent pid runID msg)"
    using out by (auto simp: run_outcome_def mkRunResult_def split: sum.splits RunError.splits)
  let ?e = "e\<lparr>PipelineEngine_active := gm_del runID (gm_set runID () (PipelineEngine_active e))\<rparr>"
  have exec: "execute_stages text runID ctx pid stages input (e, w) = Return ((result, err), ?e, dispatch ?b ev w)"
    using assms(1) by (simp add: execute_stages_def run out engine_publish_def Publish_def)
  have active: "\<forall>r. IsRunning r ?e \<longleftrightarrow> IsRunning r e"
    using assms(2,3) by (auto simp: IsRunning_def gm_has_keys)
  have status: "PipelineRunResult_Status result = PipelineStatusActive \<longleftrightarrow> length rs = length stages \<and>
      (\<forall>i < length stages. \<not> stage_failed (stage_result (PipelineEngine_executor e) ctx input stages i))"
    using result(2) spec mem [of "\<lambda>r. \<not> stage_failed r"] by auto
  have ends: "if PipelineRunResult_Status result = PipelineStatusActive
      then err = NoRunError \<and> dispatch ?b ev w = dispatch ?b (NewCompletedEvent pid runID) w
      else err \<noteq> NoRunError \<and> PipelineRunResult_Status result = PipelineStatusFailed \<and>
        (\<exists>msg. dispatch ?b ev w = dispatch ?b (NewFailedEvent pid runID msg) w)"
    using result(2,3) by (auto split: if_splits)
  show ?thesis
    by (rule exI [of _ result], rule exI [of _ err], rule exI [of _ ?e], rule exI [of _ "dispatch ?b ev w"], unfold Let_def result(1),
      intro conjI, rule exec, rule spec [THEN conjunct1], rule spec [THEN conjunct2, THEN conjunct1], rule status, rule ends, rule active)
qed

definition quiet_ctx :: RunCtx where
  "quiet_ctx = \<lparr>RunCtx_done = \<lambda>i. None, RunCtx_stage = \<lambda>i. open_ctx\<rparr>"

definition counting_engine :: "(unit, unit, nat) PipelineEngine" where
  "counting_engine = NewPipelineEngine NewPipelineExecutor (Subscribe EventPipelineFailed (\<lambda>ev n. (Suc n, False)) NewEventBus)"

definition unknown_stage :: Stage where
  "unknown_stage = http_stage\<lparr>Stage_Type := TaskTypeOther ''x''\<rparr>"

lemma unknown_stage_fails: "stage_failed (stage_result (NewPipelineExecutor :: (unit, unit) PipelineExecutor) quiet_ctx () [unknown_stage, http_stage] 0)"
proof -
  have "getHandler (NewPipelineExecutor :: (unit, unit) PipelineExecutor) (TaskTypeOther ''x'') = Inl (NoHandlerRegistered (TaskTypeOther ''x''))"
    by (simp add: getHandler_def NewPipelineExecutor_def registerDefaultHandlers_def RegisterStageHandler_def gm.get_put gm.get_empty)
  then show ?thesis by (simp add: stage_result_Cons ExecuteStage_def unknown_stage_def stage_failed_def mkStageResult_def)
qed

theorem execute_stages_correct_witness:
  "\<exists>result err e'. execute_stages (\<lambda>e. []) 7 quiet_ctx 1 [unknown_stage, http_stage] () (counting_engine, 0) =
      Return ((result, err), e', 1) \<and>
    length (PipelineRunResult_StageResults result) = 1 \<and> PipelineRunResult_Status result = PipelineStatusFailed \<and> \<not> IsRunning 7 e'"
proof -
  let ?stages = "[unknown_stage, http_stage]"
  have pre: "\<not> EventBus_async (PipelineEngine_eventBus counting_engine)" "\<not> IsRunning 7 counting_engine"
    "gm_inv (PipelineEngine_active counting_engine)"
    by (simp_all add: counting_engine_def NewPipelineEngine_def Subscribe_def add_handler_def NewEventBus_def IsRunning_def
        gm_has_keys gm.inv_empty)
  have ex: "PipelineEngine_executor counting_engine = NewPipelineExecutor" by (simp add: counting_engine_def NewPipelineEngine_def)
  have disp: "dispatch (PipelineEngine_eventBus counting_engine) (NewFailedEvent p r msg) 0 = 1" for p r msg
    by (simp add: dispatch_def counting_engine_def NewPipelineEngine_def Subscribe_def add_handler_def gm.get_put
        NewFailedEvent_def mkBusEvent_def NewEventBus_def)
  from execute_stages_correct [OF pre, of "\<lambda>e. []" quiet_ctx 1 ?stages "()" 0, unfolded ex Let_def]
  obtain result err e' w' where r:
    "execute_stages (\<lambda>e. []) 7 quiet_ctx 1 ?stages () (counting_engine, 0) = Return ((result, err), e', w')"
    "\<forall>i. i < length (PipelineRunResult_StageResults result) \<longleftrightarrow>
      stage_runs (NewPipelineExecutor :: (unit, unit) PipelineExecutor) quiet_ctx () ?stages i"
    "PipelineRunResult_Status result = PipelineStatusActive \<longrightarrow> length (PipelineRunResult_StageResults result) = length ?stages"
    "PipelineRunResult_Status result \<noteq> PipelineStatusActive \<longrightarrow> PipelineRunResult_Status result = PipelineStatusFailed \<and> w' = 1"
    "IsRunning 7 e' \<longleftrightarrow> IsRunning 7 counting_engine"
    by (auto simp: disp split: if_splits)
  have "0 < length (PipelineRunResult_StageResults result)" "\<not> 1 < length (PipelineRunResult_StageResults result)"
    using r(2) unknown_stage_fails by (simp_all add: stage_runs_Cons quiet_ctx_def unknown_stage_def http_stage_def)
  then have "length (PipelineRunResult_StageResults result) = 1" by linarith
  then show ?thesis using r pre(2) by auto
qed

text \<open>(C34)
  A stored pipeline has no stages, so a run of it executes nothing: on a synchronous bus it publishes that it
  started and that it completed and reports success with no stage result, whatever the pipeline contains and
  even when its context is cancelled. A nil pipeline panics.
\<close>

theorem ExecutePipeline_runs_nothing:
  assumes "\<not> EventBus_async (PipelineEngine_eventBus e)"
  shows "ExecutePipeline text runID ctx None input (e, w) = Panic \<and>
    (\<exists>e'. ExecutePipeline text runID ctx (Some p) input (e, w) =
      Return (Inr (mkRunResult runID (Pipeline_ID p) PipelineStatusActive [] NoText, NoRunError), e',
        dispatch (PipelineEngine_eventBus e) (NewCompletedEvent (Pipeline_ID p) runID)
          (dispatch (PipelineEngine_eventBus e) (NewStartedEvent (Pipeline_ID p) runID) w)))"
  using assms by (simp add: ExecutePipeline_def engine_publish_def Publish_def resolveStages_def GetStagesFromPipeline_def
      execute_stages_def run_outcome_def)

theorem ExecutePipeline_runs_nothing_witness:
  "\<exists>e'. ExecutePipeline (\<lambda>e. []) 7 quiet_ctx (Some (NewPipeline 1 0 ''etl'' 0)) () (counting_engine, 0) =
    Return (Inr (mkRunResult 7 1 PipelineStatusActive [] NoText, NoRunError), e', 0)"
proof -
  have pre: "\<not> EventBus_async (PipelineEngine_eventBus counting_engine)"
    by (simp add: counting_engine_def NewPipelineEngine_def Subscribe_def add_handler_def NewEventBus_def)
  have disp: "dispatch (PipelineEngine_eventBus counting_engine) (NewCompletedEvent p r) n = n"
    "dispatch (PipelineEngine_eventBus counting_engine) (NewStartedEvent p r) n = n" for p r n
    by (simp_all add: dispatch_def counting_engine_def NewPipelineEngine_def Subscribe_def add_handler_def gm.get_put
        NewCompletedEvent_def NewStartedEvent_def mkBusEvent_def NewEventBus_def gm.get_empty)
  show ?thesis
    using ExecutePipeline_runs_nothing [OF pre, of "\<lambda>e. []" 7 quiet_ctx "()" 0 "NewPipeline 1 0 ''etl'' 0"] disp
    by (simp add: NewPipeline_def)
qed

end
