(* ===== verification/Cron.thy ===== *)
theory Cron
  imports Models Go_Strings
begin

text \<open>
  The functions on cron expressions of \<^verbatim>\<open>internal/scheduler/cron.go\<close>. The parser of the cron library and the
  clock are arguments; a location that is nil is UTC. The loop of \<^verbatim>\<open>CountMissedRuns\<close> has no bound of its own, so
  that not returning is the value \<open>None\<close>.
\<close>

section \<open>Next runs\<close>

definition cron_ParseCronExpression :: "cron_parser \<Rightarrow> string \<Rightarrow> ScheduleError + cron_schedule" where
  "cron_ParseCronExpression parse expr =
     (if expr = [] then Inl CronExpressionEmpty
      else case parse expr of None \<Rightarrow> Inl (InvalidCronExpression expr) | Some sch \<Rightarrow> Inr sch)"

definition MustParseCronExpression :: "cron_parser \<Rightarrow> string \<Rightarrow> (unit, cron_schedule) outcome" where
  "MustParseCronExpression parse expr =
     (case cron_ParseCronExpression parse expr of Inl e \<Rightarrow> Panic | Inr sch \<Rightarrow> Return sch)"

definition location :: "string option \<Rightarrow> string" where
  "location loc = (case loc of None \<Rightarrow> ''UTC'' | Some l \<Rightarrow> l)"

definition NextRunTime :: "cron_parser \<Rightarrow> gotime \<Rightarrow> string \<Rightarrow> string option \<Rightarrow> ScheduleError + gotime" where
  "NextRunTime parse now expr loc =
     (case cron_ParseCronExpression parse expr of Inl e \<Rightarrow> Inl e | Inr sch \<Rightarrow> Inr (sch (location loc) now))"

definition NextRunTimeFrom :: "cron_parser \<Rightarrow> string \<Rightarrow> gotime \<Rightarrow> string option \<Rightarrow> ScheduleError + gotime" where
  "NextRunTimeFrom parse expr from loc =
     (case cron_ParseCronExpression parse expr of Inl e \<Rightarrow> Inl e | Inr sch \<Rightarrow> Inr (sch (location loc) from))"

datatype CronError = NotPositive int | SinceAfterUntil | CronSchedule ScheduleError

fun next_runs :: "(gotime \<Rightarrow> gotime) \<Rightarrow> nat \<Rightarrow> gotime \<Rightarrow> gotime list" where
  "next_runs nxt 0 t = []"
| "next_runs nxt (Suc n) t = (let t' = nxt t in t' # next_runs nxt n t')"

definition NextNRunTimes :: "cron_parser \<Rightarrow> gotime \<Rightarrow> string \<Rightarrow> int \<Rightarrow> string option \<Rightarrow> CronError + gotime list" where
  "NextNRunTimes parse now expr n loc =
     (if n \<le> 0 then Inl (NotPositive n)
      else case cron_ParseCronExpression parse expr of
             Inl e \<Rightarrow> Inl (CronSchedule e)
           | Inr sch \<Rightarrow> Inr (next_runs (sch (location loc)) (nat n) now))"

definition ValidateCronExpression :: "cron_parser \<Rightarrow> string \<Rightarrow> ScheduleError option" where
  "ValidateCronExpression parse expr = (case cron_ParseCronExpression parse expr of Inl e \<Rightarrow> Some e | Inr _ \<Rightarrow> None)"

definition TimeUntilNextRun :: "cron_parser \<Rightarrow> gotime \<Rightarrow> gotime \<Rightarrow> string \<Rightarrow> string option \<Rightarrow> ScheduleError + dur" where
  "TimeUntilNextRun parse now now' expr loc =
     (case NextRunTime parse now expr loc of Inl e \<Rightarrow> Inl e | Inr next \<Rightarrow> Inr (time_Sub next now'))"

definition IsCronDue :: "cron_parser \<Rightarrow> gotime \<Rightarrow> string \<Rightarrow> gotime \<Rightarrow> string option \<Rightarrow> ScheduleError + bool" where
  "IsCronDue parse now expr since loc =
     (case cron_ParseCronExpression parse expr of
        Inl e \<Rightarrow> Inl e
      | Inr sch \<Rightarrow> Inr (\<not> sch (location loc) since > now))"

partial_function (option) count_missed :: "(gotime \<Rightarrow> gotime) \<Rightarrow> gotime \<Rightarrow> int \<Rightarrow> gotime \<Rightarrow> (int \<times> gotime) option" where
  "count_missed nxt until count next =
     (let next' = nxt next
      in if next' > until then Some (count, next') else count_missed nxt until (count + 1) next')"

definition CountMissedRuns ::
  "cron_parser \<Rightarrow> string \<Rightarrow> gotime \<Rightarrow> gotime \<Rightarrow> string option \<Rightarrow> (CronError + int \<times> gotime) option" where
  "CountMissedRuns parse expr since until loc =
     (if since > until then Some (Inl SinceAfterUntil)
      else case cron_ParseCronExpression parse expr of
             Inl e \<Rightarrow> Some (Inl (CronSchedule e))
           | Inr sch \<Rightarrow> map_option Inr (count_missed (sch (location loc)) until 0 since))"

definition NearestFutureRun :: "cron_parser \<Rightarrow> gotime \<Rightarrow> gotime \<Rightarrow> string \<Rightarrow> string option \<Rightarrow> ScheduleError + gotime" where
  "NearestFutureRun parse now now' expr loc =
     (case NextRunTime parse now expr loc of
        Inl e \<Rightarrow> Inl e
      | Inr next \<Rightarrow> if next < now' then NextRunTimeFrom parse expr (next + Second) loc else Inr next)"

section \<open>Descriptions\<close>

definition describeDayOfWeek :: "string \<Rightarrow> string" where
  "describeDayOfWeek dow =
     Join (map (\<lambda>d0. let d = TrimSpace d0 in
        if d = ''0'' \<or> d = ''7'' then ''Sunday''
        else if d = ''1'' then ''Monday''
        else if d = ''2'' then ''Tuesday''
        else if d = ''3'' then ''Wednesday''
        else if d = ''4'' then ''Thursday''
        else if d = ''5'' then ''Friday''
        else if d = ''6'' then ''Saturday''
        else d) (Split (CHR '','') dow)) '', ''"

definition padField :: "string \<Rightarrow> string" where
  "padField f = (if length f = 1 then ''0'' @ f else f)"

definition describe_fields :: "string \<Rightarrow> string \<Rightarrow> string \<Rightarrow> string \<Rightarrow> string \<Rightarrow> string \<Rightarrow> string" where
  "describe_fields expr minute hour mday month dow =
     (if minute = ''*'' \<and> hour = ''*'' \<and> mday = ''*'' \<and> month = ''*'' \<and> dow = ''*'' then ''Every minute''
      else if minute = ''0'' \<and> hour = ''*'' \<and> mday = ''*'' \<and> month = ''*'' \<and> dow = ''*'' then ''Every hour''
      else if minute = ''0'' \<and> hour = ''0'' \<and> mday = ''*'' \<and> month = ''*'' \<and> dow = ''*'' then ''Daily at midnight''
      else if minute = ''0'' \<and> hour = ''12'' \<and> mday = ''*'' \<and> month = ''*'' \<and> dow = ''*'' then ''Daily at noon''
      else if minute = ''0'' \<and> hour = ''0'' \<and> mday = ''1'' \<and> month = ''*'' \<and> dow = ''*'' then ''First day of every month at midnight''
      else if minute = ''0'' \<and> hour = ''9'' \<and> mday = ''*'' \<and> month = ''*'' \<and> dow = ''1'' then ''Every Monday at 9:00 AM''
      else if minute = ''0'' \<and> hour = ''9'' \<and> mday = ''*'' \<and> month = ''*'' \<and> dow = ''5'' then ''Every Friday at 9:00 AM''
      else if mday = ''*'' \<and> month = ''*'' \<and> dow \<noteq> ''*'' \<and> hour \<noteq> ''*'' \<and> minute \<noteq> ''*''
      then ''Every '' @ describeDayOfWeek dow @ '' at '' @ padField hour @ '':'' @ padField minute
      else if mday = ''*'' \<and> month = ''*'' \<and> dow = ''*'' \<and> hour \<noteq> ''*'' \<and> minute \<noteq> ''*''
      then ''Daily at '' @ padField hour @ '':'' @ padField minute
      else if minute = ''*/5'' \<and> hour = ''*'' then ''Every 5 minutes''
      else if minute = ''*/10'' \<and> hour = ''*'' then ''Every 10 minutes''
      else if minute = ''*/15'' \<and> hour = ''*'' then ''Every 15 minutes''
      else if minute = ''*/30'' \<and> hour = ''*'' then ''Every 30 minutes''
      else if minute = ''0'' \<and> HasPrefix hour ''*/'' then ''Every '' @ TrimPrefix hour ''*/'' @ '' hours''
      else ''Cron: '' @ expr)"

definition describeSchedule :: "string \<Rightarrow> string" where
  "describeSchedule expr =
     (case Fields expr of
        [minute, hour, mday, month, dow] \<Rightarrow> describe_fields expr minute hour mday month dow
      | [second, minute, hour, mday, month, dow] \<Rightarrow> describe_fields expr minute hour mday month dow
      | _ \<Rightarrow> ''Custom schedule: '' @ expr)"

definition DescribeSchedule :: "cron_parser \<Rightarrow> string \<Rightarrow> ScheduleError + string" where
  "DescribeSchedule parse expr =
     (case cron_ParseCronExpression parse expr of Inl e \<Rightarrow> Inl e | Inr sch \<Rightarrow> Inr (describeSchedule expr))"

section \<open>Counting missed runs\<close>

text \<open>
  What the cron library documents of a schedule that fires at the times of a set: the next activation time is
  the first one later than the given time.
\<close>

definition fires_at :: "gotime set \<Rightarrow> (gotime \<Rightarrow> gotime) \<Rightarrow> bool" where
  "fires_at A nxt \<longleftrightarrow> (\<forall>t. nxt t \<in> A \<and> t < nxt t \<and> (\<forall>a \<in> A. t < a \<longrightarrow> nxt t \<le> a))"

declare count_missed.simps [code]

lemma fires_at_empty: "fires_at A nxt \<Longrightarrow> until < nxt t \<Longrightarrow> {a \<in> A. t < a \<and> a \<le> until} = {}"
  by (force simp: fires_at_def)

lemma fires_at_step:
  assumes "fires_at A nxt" "nxt t \<le> until"
  shows "{a \<in> A. t < a \<and> a \<le> until} = insert (nxt t) {a \<in> A. nxt t < a \<and> a \<le> until}"
  using assms by (auto simp: fires_at_def le_less) (metis less_trans)+

lemma count_missed_card:
  assumes "fires_at A nxt"
  shows "\<exists>next. count_missed nxt until c t = Some (c + int (card {a \<in> A. t < a \<and> a \<le> until}), next) \<and>
    next \<in> A \<and> until < next \<and> (\<forall>a \<in> A. until < a \<longrightarrow> t < a \<longrightarrow> next \<le> a)"
proof (induction "nat (until - t)" arbitrary: c t rule: less_induct)
  case less
  have nxt: "t < nxt t" "nxt t \<in> A" "\<forall>a \<in> A. t < a \<longrightarrow> nxt t \<le> a" using assms by (auto simp: fires_at_def)
  show ?case
  proof (cases "until < nxt t")
    case True
    then show ?thesis using nxt fires_at_empty [OF assms True] by (subst count_missed.simps) (simp add: Let_def)
  next
    case False
    let ?A = "{a \<in> A. nxt t < a \<and> a \<le> until}"
    have "nat (until - nxt t) < nat (until - t)" using nxt(1) False by simp
    from less [OF this, of "c + 1"] obtain n where n:
      "count_missed nxt until (c + 1) (nxt t) = Some (c + 1 + int (card ?A), n)" "n \<in> A" "until < n"
      "\<forall>a \<in> A. until < a \<longrightarrow> nxt t < a \<longrightarrow> n \<le> a" by blast
    have "finite ?A" by (rule finite_subset [of _ "{nxt t..until}"]) auto
    then have "card {a \<in> A. t < a \<and> a \<le> until} = Suc (card ?A)" using fires_at_step [OF assms] False by simp
    then show ?thesis using n False by (subst count_missed.simps) (auto simp: Let_def)
  qed
qed

text \<open>
  A schedule that never fires, such as the one of the thirtieth of February: the library documents that the
  next activation time is then the zero time.
\<close>

definition never_fires :: "(gotime \<Rightarrow> gotime) \<Rightarrow> bool" where
  "never_fires nxt \<longleftrightarrow> (\<forall>t. nxt t = 0)"

lemma count_missed_diverges: "(\<And>t. nxt t \<le> until) \<Longrightarrow> count_missed nxt until c t = None"
proof (rule ccontr)
  assume le: "\<And>t. nxt t \<le> until" and "count_missed nxt until c t \<noteq> None"
  then obtain r where "count_missed nxt until c t = Some r" by auto
  then have "\<exists>t. \<not> nxt t \<le> until"
  proof (rule count_missed.raw_induct [where P = "\<lambda>nxt until c t r. \<exists>t. \<not> nxt t \<le> until", rotated], goal_cases)
    case (1 rec nxt until c t r)
    then show ?case by (cases "nxt t > until") (auto simp: Let_def not_le)
  qed
  then show False using le by blast
qed

text \<open>(C40)
  \<^verbatim>\<open>CountMissedRuns\<close> on a schedule that fires at the times of a set returns, and returns the number of activation
  times after \<^verbatim>\<open>since\<close> up to \<^verbatim>\<open>until\<close> and the first activation time after \<^verbatim>\<open>until\<close>.
\<close>

theorem CountMissedRuns_correct:
  assumes "expr \<noteq> []" "parse expr = Some sch" "fires_at A (sch (location loc))" "since \<le> until"
  shows "\<exists>next. CountMissedRuns parse expr since until loc = Some (Inr (int (card {a \<in> A. since < a \<and> a \<le> until}), next)) \<and>
    next \<in> A \<and> until < next \<and> (\<forall>a \<in> A. until < a \<longrightarrow> next \<le> a)"
proof -
  from count_missed_card [OF assms(3), of until 0 since] obtain n where
    "count_missed (sch (location loc)) until 0 since = Some (int (card {a \<in> A. since < a \<and> a \<le> until}), n)"
    "n \<in> A" "until < n" "\<forall>a \<in> A. until < a \<longrightarrow> since < a \<longrightarrow> n \<le> a" by auto
  then show ?thesis using assms by (auto simp: CountMissedRuns_def cron_ParseCronExpression_def)
qed

text \<open>An example: a schedule that fires every hour.\<close>

definition hourly :: cron_schedule where
  "hourly loc t = (t div Hour + 1) * Hour"

lemma hourly_fires: "fires_at (range (\<lambda>k. k * Hour)) (hourly loc)"
proof -
  have less: "t div Hour < k \<longleftrightarrow> t < k * Hour" for t k
  proof
    have split: "t = t div Hour * Hour + t mod Hour" "0 \<le> t mod Hour" "t mod Hour < Hour" by (simp_all add: time_units)
    show "t < k * Hour" if "t div Hour < k"
    proof -
      have "(t div Hour + 1) * Hour \<le> k * Hour" by (rule mult_right_mono) (use that in \<open>simp_all add: time_units\<close>)
      then show ?thesis using split by (simp only: distrib_right)
    qed
    show "t div Hour < k" if "t < k * Hour"
      using split mult_right_mono [of k "t div Hour" Hour] that by linarith
  qed
  have "t < hourly loc t" for t using less [of t "t div Hour + 1"] by (simp add: hourly_def)
  moreover have "hourly loc t \<le> k * Hour" if "t < k * Hour" for t k
    unfolding hourly_def by (rule mult_right_mono) (use less [of t k] that in \<open>simp_all add: time_units\<close>)
  moreover have "hourly loc t \<in> range (\<lambda>k. k * Hour)" for t unfolding hourly_def by (rule rangeI)
  ultimately show ?thesis by (auto simp: fires_at_def)
qed

definition demo_parser :: cron_parser where
  "demo_parser expr = (if expr = ''@hourly'' then Some hourly else if expr = ''0 0 30 2 *'' then Some (\<lambda>loc t. 0) else None)"

lemma hourly_two: "{a \<in> range (\<lambda>k. k * Hour). Hour div 2 < a \<and> a \<le> 5 * Hour div 2} = {Hour, 2 * Hour}"
proof -
  have "k = 1 \<or> k = 2" if "Hour div 2 < k * Hour" "k * Hour \<le> 5 * Hour div 2" for k
    using that by (simp add: time_units) presburger
  moreover have "Hour = 1 * Hour" by simp
  ultimately show ?thesis by (auto simp: time_units)
qed

lemma hourly_next:
  assumes "n \<in> range (\<lambda>k. k * Hour)" "5 * Hour div 2 < n" "\<forall>a \<in> range (\<lambda>k. k * Hour). 5 * Hour div 2 < a \<longrightarrow> n \<le> a"
  shows "n = 3 * Hour"
proof -
  have "5 * Hour div 2 < 3 * Hour" by (simp add: time_units)
  then have "n \<le> 3 * Hour" using assms(3) by blast
  then show ?thesis using assms(1,2) by (auto simp: time_units)
qed

theorem CountMissedRuns_correct_witness:
  "CountMissedRuns demo_parser ''@hourly'' (Hour div 2) (5 * Hour div 2) None = Some (Inr (2, 3 * Hour))"
proof -
  have parse: "demo_parser ''@hourly'' = Some hourly" by (simp add: demo_parser_def)
  have le: "Hour div 2 \<le> 5 * Hour div 2" by (simp add: time_units)
  from CountMissedRuns_correct [where expr = "''@hourly''" and parse = demo_parser and sch = hourly and loc = None, OF _ parse hourly_fires le, unfolded hourly_two] obtain n where
    n: "CountMissedRuns demo_parser ''@hourly'' (Hour div 2) (5 * Hour div 2) None = Some (Inr (int (card {Hour, 2 * Hour}), n))"
    and nxt: "n \<in> range (\<lambda>k. k * Hour)" "5 * Hour div 2 < n" "\<forall>a \<in> range (\<lambda>k. k * Hour). 5 * Hour div 2 < a \<longrightarrow> n \<le> a"
    by blast
  have "card {Hour, 2 * Hour} = 2" by (simp add: time_units)
  then show ?thesis using n hourly_next [OF nxt] by simp
qed

text \<open>(C37)
  \<^verbatim>\<open>CountMissedRuns\<close> never returns on an expression that parses but never fires: the zero time is not after
  \<^verbatim>\<open>until\<close>, so the loop goes on for ever.
\<close>

theorem CountMissedRuns_diverges:
  assumes "expr \<noteq> []" "parse expr = Some sch" "never_fires (sch (location loc))" "since \<le> until" "0 \<le> until"
  shows "CountMissedRuns parse expr since until loc = None"
  using assms count_missed_diverges [of "sch (location loc)" until]
  by (simp add: CountMissedRuns_def cron_ParseCronExpression_def never_fires_def)

theorem CountMissedRuns_diverges_witness: "CountMissedRuns demo_parser ''0 0 30 2 *'' 0 Hour None = None"
  using CountMissedRuns_diverges [of "''0 0 30 2 *''" demo_parser "\<lambda>loc t. 0" None 0 Hour]
  by (simp add: demo_parser_def never_fires_def time_units)

end
