(* ===== verification/Scheduler_Job.thy ===== *)
theory Scheduler_Job
  imports Models
begin

text \<open>
  Scheduled jobs and their executions, \<^verbatim>\<open>internal/scheduler/job.go\<close>. Reading the metadata of a schedule as a JSON
  object and writing it back are arguments, as are the ids that \<^verbatim>\<open>uuid.New\<close> returns and the clock.
\<close>

section \<open>Data\<close>

datatype JobType = JobTypePipeline | JobTypeWebhook | JobTypeCustom | JobTypeOther string

definition JobType_of :: "string \<Rightarrow> JobType" where
  "JobType_of s = (if s = ''pipeline'' then JobTypePipeline else if s = ''webhook'' then JobTypeWebhook
     else if s = ''custom'' then JobTypeCustom else JobTypeOther s)"

definition JobType_IsValid :: "JobType \<Rightarrow> bool" where
  "JobType_IsValid t = (case t of JobTypeOther _ \<Rightarrow> False | _ \<Rightarrow> True)"

definition JobPriorityLow :: int where "JobPriorityLow = 0"
definition JobPriorityNormal :: int where "JobPriorityNormal = 50"
definition JobPriorityHigh :: int where "JobPriorityHigh = 100"
definition JobPriorityCritical :: int where "JobPriorityCritical = 200"

datatype json = JString string | JOther string

type_synonym json_object = "(string, json) gmap"

record ScheduledJob =
  ScheduledJob_ID :: uuid
  ScheduledJob_ScheduleID :: string
  ScheduledJob_PipelineID :: string
  ScheduledJob_Type :: JobType
  ScheduledJob_CronExpression :: string
  ScheduledJob_Timezone :: string
  ScheduledJob_Priority :: int
  ScheduledJob_MaxConcurrent :: int
  ScheduledJob_Tags :: "string list"
  ScheduledJob_Metadata :: "json_object option"
  ScheduledJob_NextRunAt :: gotime
  ScheduledJob_LastRunAt :: "gotime option"
  ScheduledJob_CreatedAt :: gotime
  ScheduledJob_Disabled :: bool

record JobExecution =
  JobExecution_ID :: uuid
  JobExecution_ScheduleID :: string
  JobExecution_PipelineID :: string
  JobExecution_JobType :: JobType
  JobExecution_TriggeredAt :: gotime
  JobExecution_ScheduledAt :: gotime
  JobExecution_Attempt :: int
  JobExecution_MaxAttempts :: int
  JobExecution_CorrelationID :: uuid
  JobExecution_Tags :: "string list"
  JobExecution_Metadata :: string
  JobExecution_Source :: string

section \<open>Operations\<close>

definition job_type_of :: "json_object option \<Rightarrow> JobType" where
  "job_type_of metadata =
     (case metadata of
        None \<Rightarrow> JobTypePipeline
      | Some m \<Rightarrow>
          (case gm_get m ''job_type'' of
             Some (JString t) \<Rightarrow> (if JobType_IsValid (JobType_of t) then JobType_of t else JobTypePipeline)
           | _ \<Rightarrow> JobTypePipeline))"

definition NewScheduledJob ::
  "cron_parser \<Rightarrow> tz_database \<Rightarrow> (string \<Rightarrow> json_object option) \<Rightarrow> uuid \<Rightarrow> gotime \<Rightarrow> Schedule \<Rightarrow> ScheduleError + ScheduledJob" where
  "NewScheduledJob parse tz unmarshal fresh now s =
     (case Schedule_NextRunTime parse tz now s of
        Inl e \<Rightarrow> Inl e
      | Inr nextRun \<Rightarrow>
          (let metadata = (if length (Schedule_Metadata s) > 0 then unmarshal (Schedule_Metadata s) else None)
           in Inr \<lparr>ScheduledJob_ID = fresh, ScheduledJob_ScheduleID = Schedule_ID s,
                ScheduledJob_PipelineID = Schedule_PipelineID s, ScheduledJob_Type = job_type_of metadata,
                ScheduledJob_CronExpression = Schedule_CronExpression s, ScheduledJob_Timezone = Schedule_Timezone s,
                ScheduledJob_Priority = Schedule_Priority s, ScheduledJob_MaxConcurrent = Schedule_MaxConcurrentRuns s,
                ScheduledJob_Tags = Schedule_Tags s, ScheduledJob_Metadata = metadata, ScheduledJob_NextRunAt = nextRun,
                ScheduledJob_LastRunAt = Schedule_LastRunTime s, ScheduledJob_CreatedAt = Schedule_CreatedAt s,
                ScheduledJob_Disabled = (\<not> Schedule_Enabled s)\<rparr>))"

definition ScheduledJob_Key :: "ScheduledJob \<Rightarrow> string" where
  "ScheduledJob_Key j = ScheduledJob_ScheduleID j @ ''/'' @ ScheduledJob_PipelineID j"

definition NewJobExecution ::
  "(json_object \<Rightarrow> string option) \<Rightarrow> uuid \<Rightarrow> uuid \<Rightarrow> gotime \<Rightarrow> ScheduledJob \<Rightarrow> JobExecution" where
  "NewJobExecution marshal fresh corr now job =
     (let metadata = (case ScheduledJob_Metadata job of
                        None \<Rightarrow> []
                      | Some m \<Rightarrow> (case marshal m of None \<Rightarrow> [] | Some d \<Rightarrow> d))
      in \<lparr>JobExecution_ID = fresh, JobExecution_ScheduleID = ScheduledJob_ScheduleID job,
          JobExecution_PipelineID = ScheduledJob_PipelineID job, JobExecution_JobType = ScheduledJob_Type job,
          JobExecution_TriggeredAt = now, JobExecution_ScheduledAt = ScheduledJob_NextRunAt job,
          JobExecution_Attempt = 1, JobExecution_MaxAttempts = 3, JobExecution_CorrelationID = corr,
          JobExecution_Tags = ScheduledJob_Tags job, JobExecution_Metadata = metadata,
          JobExecution_Source = ''scheduler''\<rparr>)"

definition JobExecution_RoutingKey :: "JobExecution \<Rightarrow> string" where
  "JobExecution_RoutingKey e =
     (case JobExecution_JobType e of
        JobTypePipeline \<Rightarrow> ''pipeline.run.'' @ JobExecution_PipelineID e
      | JobTypeWebhook \<Rightarrow> ''webhook.trigger.'' @ JobExecution_PipelineID e
      | JobTypeCustom \<Rightarrow> ''custom.run.'' @ JobExecution_PipelineID e
      | JobTypeOther _ \<Rightarrow> ''pipeline.run.'' @ JobExecution_PipelineID e)"

section \<open>Lemmas\<close>

lemma job_type_valid: "JobType_IsValid (job_type_of m)"
  by (auto simp: job_type_of_def JobType_IsValid_def split: option.splits json.splits JobType.splits)

lemma NewScheduledJob_ok:
  "Schedule_CronExpression s \<noteq> [] \<Longrightarrow> tz (Schedule_Timezone s) \<Longrightarrow> parse (Schedule_CronExpression s) = Some sch \<Longrightarrow>
    \<exists>job. NewScheduledJob parse tz unmarshal fresh now s = Inr job \<and> ScheduledJob_ScheduleID job = Schedule_ID s \<and>
      ScheduledJob_CronExpression job = Schedule_CronExpression s \<and>
      ScheduledJob_Disabled job = (\<not> Schedule_Enabled s) \<and> JobType_IsValid (ScheduledJob_Type job)"
  by (simp add: NewScheduledJob_def Schedule_NextRunTime_def Let_def job_type_valid)

end
