(* ===== verification/Schedule_Repo.thy ===== *)
theory Schedule_Repo
  imports Models
begin

text \<open>
  The repository of schedules, \<^verbatim>\<open>internal/repository/schedule_repo.go\<close>, as operations on the rows of the table
  \<^verbatim>\<open>schedule_config\<close>, by id. Each operation is the meaning of its SQL statement. Whether the statement fails in the
  driver, the clocks, the order in which the table yields rows that the sort leaves equal, and the rows
  locked by other transactions are arguments.
\<close>

section \<open>Data\<close>

record ScheduleFilter =
  ScheduleFilter_PipelineID :: string
  ScheduleFilter_Status :: "ScheduleStatus option"
  ScheduleFilter_Enabled :: "bool option"
  ScheduleFilter_Limit :: int
  ScheduleFilter_Offset :: int

type_synonym schedule_table = "(string, Schedule) gmap"

datatype RepoError = DBFailure | NotFound string | DuplicateKey string | NextRunFailed ScheduleError

section \<open>Operations\<close>

definition repo_Create ::
  "cron_parser \<Rightarrow> tz_database \<Rightarrow> bool \<Rightarrow> gotime \<Rightarrow> Schedule \<Rightarrow> schedule_table \<Rightarrow> (RepoError + Schedule) \<times> schedule_table" where
  "repo_Create parse tz fault now s tbl =
     (let s1 = s\<lparr>Schedule_CreatedAt := (if time_IsZero (Schedule_CreatedAt s) then now else Schedule_CreatedAt s),
                 Schedule_UpdatedAt := (if time_IsZero (Schedule_UpdatedAt s) then now else Schedule_UpdatedAt s),
                 Schedule_Priority := (if Schedule_Priority s = 0 then 100 else Schedule_Priority s),
                 Schedule_MaxConcurrentRuns := (if Schedule_MaxConcurrentRuns s \<le> 0 then 1 else Schedule_MaxConcurrentRuns s),
                 Schedule_Timezone := (if Schedule_Timezone s = [] then ''UTC'' else Schedule_Timezone s)\<rparr>
      in case Schedule_NextRunTime parse tz now s1 of
           Inl e \<Rightarrow> (Inl (NextRunFailed e), tbl)
         | Inr nextRun \<Rightarrow>
             (let s2 = s1\<lparr>Schedule_NextRunTimeValue := nextRun\<rparr>
              in if fault then (Inl DBFailure, tbl)
                 else if gm_has tbl (Schedule_ID s) then (Inl (DuplicateKey (Schedule_ID s)), tbl)
                 else (Inr s2, gm_set (Schedule_ID s) s2 tbl)))"

definition repo_Get :: "bool \<Rightarrow> string \<Rightarrow> schedule_table \<Rightarrow> RepoError + Schedule" where
  "repo_Get fault sid tbl =
     (if fault then Inl DBFailure
      else case gm_get tbl sid of None \<Rightarrow> Inl (NotFound sid) | Some s \<Rightarrow> Inr s)"

text \<open>An update of the row with the id, if there is one.\<close>

definition repo_row_update :: "bool \<Rightarrow> string \<Rightarrow> (Schedule \<Rightarrow> Schedule) \<Rightarrow> schedule_table \<Rightarrow> RepoError option \<times> schedule_table" where
  "repo_row_update fault sid f tbl =
     (if fault then (Some DBFailure, tbl)
      else case gm_get tbl sid of
             None \<Rightarrow> (Some (NotFound sid), tbl)
           | Some row \<Rightarrow> (None, gm_set sid (f row) tbl))"

definition repo_Update ::
  "cron_parser \<Rightarrow> tz_database \<Rightarrow> bool \<Rightarrow> gotime \<Rightarrow> Schedule \<Rightarrow> schedule_table \<Rightarrow> (RepoError + Schedule) \<times> schedule_table" where
  "repo_Update parse tz fault now s tbl =
     (let s1 = s\<lparr>Schedule_UpdatedAt := now\<rparr>
      in case Schedule_NextRunTime parse tz now s1 of
           Inl e \<Rightarrow> (Inl (NextRunFailed e), tbl)
         | Inr nextRun \<Rightarrow>
             (case repo_row_update fault (Schedule_ID s)
                 (\<lambda>row. row\<lparr>Schedule_CronExpression := Schedule_CronExpression s1, Schedule_Timezone := Schedule_Timezone s1,
                    Schedule_Status := Schedule_Status s1, Schedule_Enabled := Schedule_Enabled s1,
                    Schedule_Priority := Schedule_Priority s1, Schedule_MaxConcurrentRuns := Schedule_MaxConcurrentRuns s1,
                    Schedule_Tags := Schedule_Tags s1, Schedule_Metadata := Schedule_Metadata s1,
                    Schedule_NextRunTimeValue := nextRun, Schedule_UpdatedAt := now\<rparr>) tbl of
                (Some e, tbl') \<Rightarrow> (Inl e, tbl')
              | (None, tbl') \<Rightarrow> (Inr (s1\<lparr>Schedule_NextRunTimeValue := nextRun\<rparr>), tbl')))"

definition repo_Delete :: "bool \<Rightarrow> string \<Rightarrow> schedule_table \<Rightarrow> RepoError option \<times> schedule_table" where
  "repo_Delete fault sid tbl =
     (if fault then (Some DBFailure, tbl)
      else if \<not> gm_has tbl sid then (Some (NotFound sid), tbl)
      else (None, gm_del sid tbl))"

text \<open>The order by priority and then next run time; the sort is stable, so that ties keep the order of the rows.\<close>

definition order_schedules :: "Schedule list \<Rightarrow> Schedule list" where
  "order_schedules rows = sort_key Schedule_Priority (sort_key Schedule_NextRunTimeValue rows)"

definition filter_matches :: "ScheduleFilter \<Rightarrow> Schedule \<Rightarrow> bool" where
  "filter_matches f s \<longleftrightarrow>
     (ScheduleFilter_PipelineID f = [] \<or> Schedule_PipelineID s = ScheduleFilter_PipelineID f) \<and>
     (case ScheduleFilter_Status f of None \<Rightarrow> True | Some st \<Rightarrow> Schedule_Status s = st) \<and>
     (case ScheduleFilter_Enabled f of None \<Rightarrow> True | Some b \<Rightarrow> Schedule_Enabled s = b)"

definition repo_List :: "string ranger \<Rightarrow> nat \<Rightarrow> bool \<Rightarrow> ScheduleFilter \<Rightarrow> schedule_table \<Rightarrow> RepoError + Schedule list" where
  "repo_List rng n fault f tbl =
     (let limit = (if ScheduleFilter_Limit f \<le> 0 then 50 else ScheduleFilter_Limit f)
      in if fault then Inl DBFailure
         else Inr (take (nat limit) (drop (nat (ScheduleFilter_Offset f))
                (order_schedules (filter (filter_matches f) (map snd (range_items rng n tbl)))))))"

definition repo_GetDueSchedules ::
  "string ranger \<Rightarrow> nat \<Rightarrow> bool \<Rightarrow> (string \<Rightarrow> bool) \<Rightarrow> gotime \<Rightarrow> int \<Rightarrow> schedule_table \<Rightarrow> RepoError + Schedule list" where
  "repo_GetDueSchedules rng n fault locked now limit tbl =
     (if fault then Inl DBFailure
      else Inr (take (nat limit) (order_schedules
             (filter (\<lambda>s. Schedule_Enabled s \<and> Schedule_Status s = ScheduleStatusActive \<and> Schedule_NextRunTimeValue s \<le> now \<and>
                          \<not> locked (Schedule_ID s)) (map snd (range_items rng n tbl))))))"

definition next_run_row :: "gotime \<Rightarrow> gotime \<Rightarrow> Schedule \<Rightarrow> Schedule" where
  "next_run_row now nextRun row =
     row\<lparr>Schedule_LastRunTime := (if Schedule_NextRunTimeValue row < nextRun
                                 then Some (Schedule_NextRunTimeValue row) else Schedule_LastRunTime row),
         Schedule_NextRunTimeValue := nextRun, Schedule_UpdatedAt := now\<rparr>"

definition repo_UpdateNextRunTime :: "bool \<Rightarrow> gotime \<Rightarrow> string \<Rightarrow> gotime \<Rightarrow> schedule_table \<Rightarrow> RepoError option \<times> schedule_table" where
  "repo_UpdateNextRunTime fault now sid nextRun tbl = repo_row_update fault sid (next_run_row now nextRun) tbl"

definition repo_ToggleEnabled :: "bool \<Rightarrow> gotime \<Rightarrow> string \<Rightarrow> bool \<Rightarrow> schedule_table \<Rightarrow> RepoError option \<times> schedule_table" where
  "repo_ToggleEnabled fault now sid enabled tbl =
     repo_row_update fault sid (\<lambda>row. row\<lparr>Schedule_Enabled := enabled, Schedule_UpdatedAt := now\<rparr>) tbl"

section \<open>Lemmas\<close>

text \<open>The rows of a table are under their id, and no id is there twice.\<close>

definition table_ok :: "schedule_table \<Rightarrow> bool" where
  "table_ok tbl \<longleftrightarrow> gm_inv tbl \<and> (\<forall>sid s. gm_get tbl sid = Some s \<longrightarrow> Schedule_ID s = sid)"

lemma repo_row_update_ok:
  "table_ok tbl \<Longrightarrow> (\<And>row. Schedule_ID (f row) = Schedule_ID row) \<Longrightarrow> table_ok (snd (repo_row_update fault sid f tbl))"
  by (auto simp: table_ok_def repo_row_update_def gm.get_put gm.inv_put split: option.splits)

lemma repo_row_update_get:
  "gm_get (snd (repo_row_update fault sid f tbl)) sid' =
    (if \<not> fault \<and> sid' = sid then map_option f (gm_get tbl sid) else gm_get tbl sid')"
  by (auto simp: repo_row_update_def gm.get_put split: option.splits)

lemma set_order_schedules [simp]: "set (order_schedules rows) = set rows"
  by (simp add: order_schedules_def)

lemma repo_List_mem:
  "ranger_ok rng \<Longrightarrow> gm_inv tbl \<Longrightarrow> repo_List rng n fault f tbl = Inr rows \<Longrightarrow> s \<in> set rows \<Longrightarrow>
    \<exists>sid. gm_get tbl sid = Some s \<and> filter_matches f s"
  by (auto simp: repo_List_def Let_def set_range_items split: if_splits dest!: in_set_takeD in_set_dropD) blast+

lemma next_run_row_simps [simp]:
  "Schedule_ID (next_run_row now t row) = Schedule_ID row"
  "Schedule_NextRunTimeValue (next_run_row now t row) = t"
  by (simp_all add: next_run_row_def)

lemma repo_UpdateNextRunTime_None:
  "repo_UpdateNextRunTime fault now sid t tbl = (None, tbl') \<longleftrightarrow>
    \<not> fault \<and> (\<exists>row. gm_get tbl sid = Some row \<and> tbl' = gm_set sid (next_run_row now t row) tbl)"
  by (auto simp: repo_UpdateNextRunTime_def repo_row_update_def split: option.splits)

lemma repo_UpdateNextRunTime_Some: "repo_UpdateNextRunTime fault now sid t tbl = (Some e, tbl') \<Longrightarrow> tbl' = tbl"
  by (auto simp: repo_UpdateNextRunTime_def repo_row_update_def split: option.splits if_splits)

end
