(* ===== verification/Schedule_Store.thy ===== *)
theory Schedule_Store
  imports Schedule_Repo
begin

text \<open>
  The store of schedules with its cache, \<^verbatim>\<open>internal/scheduler/store.go\<close>, over the repository. The cache and the
  caller share the schedule that an operation returns; what \<^verbatim>\<open>MarkScheduleFailed\<close> writes through that pointer is
  therefore written to the cache entry. The locale is the interface \<^verbatim>\<open>ScheduleStore\<close> as its clients rely on it.
\<close>

section \<open>Data\<close>

record cachedSchedule =
  cached_schedule :: Schedule
  cached_cachedAt :: gotime

record PostgresScheduleStore =
  Store_repo :: schedule_table
  Store_cache :: "(string, cachedSchedule) gmap"
  Store_ttl :: dur

definition NewPostgresScheduleStore :: "schedule_table \<Rightarrow> PostgresScheduleStore" where
  "NewPostgresScheduleStore repo = \<lparr>Store_repo = repo, Store_cache = gm_empty, Store_ttl = 30 * Second\<rparr>"

section \<open>Operations\<close>

definition active_filter :: ScheduleFilter where
  "active_filter = \<lparr>ScheduleFilter_PipelineID = [], ScheduleFilter_Status = Some ScheduleStatusActive,
     ScheduleFilter_Enabled = Some True, ScheduleFilter_Limit = 1000, ScheduleFilter_Offset = 0\<rparr>"

definition cache_all :: "gotime \<Rightarrow> Schedule list \<Rightarrow> (string, cachedSchedule) gmap \<Rightarrow> (string, cachedSchedule) gmap" where
  "cache_all now schedules cache =
     fold (\<lambda>s. gm_set (Schedule_ID s) \<lparr>cached_schedule = s, cached_cachedAt = now\<rparr>) schedules cache"

definition GetActiveSchedules ::
  "string ranger \<Rightarrow> nat \<Rightarrow> bool \<Rightarrow> gotime \<Rightarrow> PostgresScheduleStore \<Rightarrow> (RepoError + Schedule list) \<times> PostgresScheduleStore" where
  "GetActiveSchedules rng n fault now st =
     (case repo_List rng n fault active_filter (Store_repo st) of
        Inl e \<Rightarrow> (Inl e, st)
      | Inr schedules \<Rightarrow> (Inr schedules, st\<lparr>Store_cache := cache_all now schedules (Store_cache st)\<rparr>))"

definition GetDueSchedules ::
  "string ranger \<Rightarrow> nat \<Rightarrow> bool \<Rightarrow> (string \<Rightarrow> bool) \<Rightarrow> gotime \<Rightarrow> int \<Rightarrow> PostgresScheduleStore \<Rightarrow> RepoError + Schedule list" where
  "GetDueSchedules rng n fault locked now limit st =
     repo_GetDueSchedules rng n fault locked now (if limit \<le> 0 then 50 else limit) (Store_repo st)"

definition getFromCache :: "gotime \<Rightarrow> string \<Rightarrow> PostgresScheduleStore \<Rightarrow> Schedule option" where
  "getFromCache now sid st =
     (case gm_get (Store_cache st) sid of
        None \<Rightarrow> None
      | Some c \<Rightarrow> if time_Sub now (cached_cachedAt c) > Store_ttl st then None else Some (cached_schedule c))"

definition GetSchedule :: "bool \<Rightarrow> gotime \<Rightarrow> string \<Rightarrow> PostgresScheduleStore \<Rightarrow> (RepoError + Schedule) \<times> PostgresScheduleStore" where
  "GetSchedule fault now sid st =
     (case getFromCache now sid st of
        Some s \<Rightarrow> (Inr s, st)
      | None \<Rightarrow>
          (case repo_Get fault sid (Store_repo st) of
             Inl e \<Rightarrow> (Inl e, st)
           | Inr s \<Rightarrow> (Inr s, st\<lparr>Store_cache := gm_set sid \<lparr>cached_schedule = s, cached_cachedAt = now\<rparr> (Store_cache st)\<rparr>)))"

definition UpdateNextRunTime ::
  "bool \<Rightarrow> gotime \<Rightarrow> string \<Rightarrow> gotime \<Rightarrow> PostgresScheduleStore \<Rightarrow> RepoError option \<times> PostgresScheduleStore" where
  "UpdateNextRunTime fault now sid nextRun st =
     (case repo_UpdateNextRunTime fault now sid nextRun (Store_repo st) of
        (Some e, repo) \<Rightarrow> (Some e, st\<lparr>Store_repo := repo\<rparr>)
      | (None, repo) \<Rightarrow>
          (None, st\<lparr>Store_repo := repo,
                    Store_cache := (case gm_get (Store_cache st) sid of
                       None \<Rightarrow> Store_cache st
                     | Some c \<Rightarrow> gm_set sid \<lparr>cached_schedule = (cached_schedule c)\<lparr>Schedule_NextRunTimeValue := nextRun\<rparr>,
                                   cached_cachedAt = now\<rparr> (Store_cache st))\<rparr>))"

text \<open>The write through the shared pointer.\<close>

definition write_cached :: "string \<Rightarrow> (Schedule \<Rightarrow> Schedule) \<Rightarrow> PostgresScheduleStore \<Rightarrow> PostgresScheduleStore" where
  "write_cached sid f st =
     (case gm_get (Store_cache st) sid of
        None \<Rightarrow> st
      | Some c \<Rightarrow> st\<lparr>Store_cache := gm_set sid (c\<lparr>cached_schedule := f (cached_schedule c)\<rparr>) (Store_cache st)\<rparr>)"

definition MarkScheduleFailed ::
  "bool \<Rightarrow> bool \<Rightarrow> gotime \<Rightarrow> string \<Rightarrow> PostgresScheduleStore \<Rightarrow> RepoError option \<times> PostgresScheduleStore" where
  "MarkScheduleFailed fault fault' now sid st =
     (case GetSchedule fault now sid st of
        (Inl e, st1) \<Rightarrow> (Some e, st1)
      | (Inr s, st1) \<Rightarrow>
          (let st2 = write_cached sid (\<lambda>s. s\<lparr>Schedule_Status := ScheduleStatusFailed, Schedule_Enabled := False\<rparr>) st1
           in case repo_ToggleEnabled fault' now sid False (Store_repo st2) of
                (Some e, repo) \<Rightarrow> (Some e, st2\<lparr>Store_repo := repo\<rparr>)
              | (None, repo) \<Rightarrow> (None, st2\<lparr>Store_repo := repo, Store_cache := gm_del sid (Store_cache st2)\<rparr>)))"

definition InvalidateCache :: "string \<Rightarrow> PostgresScheduleStore \<Rightarrow> PostgresScheduleStore" where
  "InvalidateCache sid st = st\<lparr>Store_cache := gm_del sid (Store_cache st)\<rparr>"

definition ClearCache :: "PostgresScheduleStore \<Rightarrow> PostgresScheduleStore" where
  "ClearCache st = st\<lparr>Store_cache := gm_empty\<rparr>"

definition RefreshCache ::
  "string ranger \<Rightarrow> nat \<Rightarrow> bool \<Rightarrow> gotime \<Rightarrow> PostgresScheduleStore \<Rightarrow> RepoError option \<times> PostgresScheduleStore" where
  "RefreshCache rng n fault now st =
     (case repo_List rng n fault active_filter (Store_repo st) of
        Inl e \<Rightarrow> (Some e, st)
      | Inr schedules \<Rightarrow> (None, st\<lparr>Store_cache := cache_all now schedules gm_empty\<rparr>))"

definition schedule_stats :: "gotime \<Rightarrow> Schedule list \<Rightarrow> ScheduleStats" where
  "schedule_stats now schedules =
     fold (\<lambda>s st. st\<lparr>ScheduleStats_ByStatus := gm_set (Schedule_Status s) (gm_getd 0 (ScheduleStats_ByStatus st) (Schedule_Status s) + 1)
                       (ScheduleStats_ByStatus st),
             ScheduleStats_ActiveSchedules := ScheduleStats_ActiveSchedules st +
               (if Schedule_Status s = ScheduleStatusActive \<and> Schedule_Enabled s then 1 else 0),
             ScheduleStats_DueNow := ScheduleStats_DueNow st + (if Schedule_Enabled s \<and> ShouldRunNow now now s then 1 else 0)\<rparr>)
       schedules
       \<lparr>ScheduleStats_TotalSchedules = int (length schedules), ScheduleStats_ActiveSchedules = 0, ScheduleStats_PausedSchedules = 0,
        ScheduleStats_FailedSchedules = 0, ScheduleStats_DueNow = 0, ScheduleStats_ByStatus = gm_empty\<rparr>"

definition Store_Stats :: "string ranger \<Rightarrow> nat \<Rightarrow> bool \<Rightarrow> gotime \<Rightarrow> PostgresScheduleStore \<Rightarrow> RepoError + ScheduleStats" where
  "Store_Stats rng n fault now st =
     (case repo_List rng n fault \<lparr>ScheduleFilter_PipelineID = [], ScheduleFilter_Status = None, ScheduleFilter_Enabled = None,
             ScheduleFilter_Limit = 10000, ScheduleFilter_Offset = 0\<rparr> (Store_repo st) of
        Inl e \<Rightarrow> Inl e
      | Inr schedules \<Rightarrow> Inr (schedule_stats now schedules))"

section \<open>The interface\<close>

text \<open>
  What a client may rely on: listing changes no row and lists rows that are enabled and active, a successful update
  changes the next run time of one row and otherwise only when it last ran and was written, and a failed update
  changes nothing.
\<close>

definition strip_times :: "Schedule \<Rightarrow> Schedule" where
  "strip_times s = s\<lparr>Schedule_NextRunTimeValue := 0, Schedule_LastRunTime := None, Schedule_UpdatedAt := 0\<rparr>"

locale schedule_store =
  fixes rows :: "'st \<Rightarrow> string \<Rightarrow> Schedule option"
    and ok :: "'st \<Rightarrow> bool"
    and active :: "'st \<Rightarrow> (RepoError + Schedule list) \<times> 'st"
    and update :: "string \<Rightarrow> gotime \<Rightarrow> 'st \<Rightarrow> RepoError option \<times> 'st"
  assumes active_rows: "rows (snd (active st)) = rows st"
    and active_listed: "ok st \<Longrightarrow> active st = (Inr ss, st') \<Longrightarrow> s \<in> set ss \<Longrightarrow>
      rows st (Schedule_ID s) = Some s \<and> Schedule_Enabled s \<and> Schedule_Status s = ScheduleStatusActive"
    and active_ok: "ok st \<Longrightarrow> ok (snd (active st))"
    and update_ok: "ok st \<Longrightarrow> ok (snd (update sid t st))"
    and update_rows: "update sid t st = (None, st') \<Longrightarrow>
      \<exists>s s'. rows st sid = Some s \<and> rows st' = (rows st)(sid \<mapsto> s') \<and>
        strip_times s' = strip_times s \<and> Schedule_NextRunTimeValue s' = t"
    and update_failed: "update sid t st = (Some e, st') \<Longrightarrow> rows st' = rows st"
begin

text \<open>Whatever happens, an update keeps which schedules there are and everything about them except their times.\<close>

lemma update_keeps: "map_option strip_times (rows (snd (update sid t st)) sid') = map_option strip_times (rows st sid')"
proof (cases "update sid t st")
  case (Pair e st')
  then show ?thesis using update_rows [of sid t st st'] update_failed [of sid t st _ st'] by (cases e) fastforce+
qed

end

section \<open>The store meets the interface\<close>

definition store_ok :: "string ranger \<Rightarrow> PostgresScheduleStore \<Rightarrow> bool" where
  "store_ok rng st \<longleftrightarrow> ranger_ok rng \<and> table_ok (Store_repo st)"

lemma strip_next_run_row: "strip_times (next_run_row now t row) = strip_times row"
  by (simp add: strip_times_def next_run_row_def)

lemma UpdateNextRunTime_repo [simp]:
  "Store_repo (snd (UpdateNextRunTime fault now sid t st)) = snd (repo_UpdateNextRunTime fault now sid t (Store_repo st))"
  "fst (UpdateNextRunTime fault now sid t st) = fst (repo_UpdateNextRunTime fault now sid t (Store_repo st))"
  by (auto simp: UpdateNextRunTime_def split: prod.splits option.splits)

lemma GetActiveSchedules_repo [simp]: "Store_repo (snd (GetActiveSchedules rng n fault now st)) = Store_repo st"
  by (simp add: GetActiveSchedules_def split: sum.splits)

interpretation pg: schedule_store "\<lambda>st. gm_get (Store_repo st)" "store_ok rng" "GetActiveSchedules rng n fault now"
  "UpdateNextRunTime fault' now'" for rng n fault now fault' now'
proof unfold_locales
  fix st ss st' s
  assume ok: "store_ok rng st" and act: "GetActiveSchedules rng n fault now st = (Inr ss, st')" and mem: "s \<in> set ss"
  from act have "repo_List rng n fault active_filter (Store_repo st) = Inr ss"
    by (simp add: GetActiveSchedules_def split: sum.splits)
  from repo_List_mem [OF _ _ this mem] ok obtain sid where "gm_get (Store_repo st) sid = Some s" "filter_matches active_filter s"
    by (auto simp: store_ok_def table_ok_def)
  then show "gm_get (Store_repo st) (Schedule_ID s) = Some s \<and> Schedule_Enabled s \<and> Schedule_Status s = ScheduleStatusActive"
    using ok by (auto simp: store_ok_def table_ok_def filter_matches_def active_filter_def)
next
  fix sid t st st'
  assume "UpdateNextRunTime fault' now' sid t st = (None, st')"
  then have "repo_UpdateNextRunTime fault' now' sid t (Store_repo st) = (None, Store_repo st')"
    by (metis UpdateNextRunTime_repo fst_conv snd_conv prod.collapse)
  then obtain row where "gm_get (Store_repo st) sid = Some row" "Store_repo st' = gm_set sid (next_run_row now' t row) (Store_repo st)"
    by (auto simp: repo_UpdateNextRunTime_None)
  then show "\<exists>s s'. gm_get (Store_repo st) sid = Some s \<and> gm_get (Store_repo st') = (gm_get (Store_repo st))(sid \<mapsto> s') \<and>
      strip_times s' = strip_times s \<and> Schedule_NextRunTimeValue s' = t"
    by (intro exI [of _ row] exI [of _ "next_run_row now' t row"]) (simp add: fun_eq_iff gm.get_put strip_next_run_row)
next
  fix sid t st e st'
  assume "UpdateNextRunTime fault' now' sid t st = (Some e, st')"
  then have "repo_UpdateNextRunTime fault' now' sid t (Store_repo st) = (Some e, Store_repo st')"
    by (metis UpdateNextRunTime_repo fst_conv snd_conv prod.collapse)
  then show "gm_get (Store_repo st') = gm_get (Store_repo st)"
    using repo_UpdateNextRunTime_Some by metis
qed (auto simp: store_ok_def repo_UpdateNextRunTime_def intro: repo_row_update_ok)

section \<open>The cache and the table\<close>

text \<open>The states of a store that is the only writer of its table and in which marking a schedule failed succeeds.\<close>

inductive store_reach :: "PostgresScheduleStore \<Rightarrow> bool" where
  "table_ok tbl \<Longrightarrow> store_reach (NewPostgresScheduleStore tbl)"
| "store_reach st \<Longrightarrow> ranger_ok rng \<Longrightarrow> store_reach (snd (GetActiveSchedules rng n fault now st))"
| "store_reach st \<Longrightarrow> store_reach (snd (GetSchedule fault now sid st))"
| "store_reach st \<Longrightarrow> store_reach (snd (UpdateNextRunTime fault now sid t st))"
| "store_reach st \<Longrightarrow> MarkScheduleFailed fault fault' now sid st = (None, st') \<Longrightarrow> store_reach st'"
| "store_reach st \<Longrightarrow> store_reach (InvalidateCache sid st)"
| "store_reach st \<Longrightarrow> store_reach (ClearCache st)"
| "store_reach st \<Longrightarrow> ranger_ok rng \<Longrightarrow> store_reach (snd (RefreshCache rng n fault now st))"

text \<open>Everything about a schedule except when it last ran and when it was written.\<close>

definition strip_last :: "Schedule \<Rightarrow> Schedule" where
  "strip_last s = s\<lparr>Schedule_LastRunTime := None, Schedule_UpdatedAt := 0\<rparr>"

definition cache_ok :: "schedule_table \<Rightarrow> (string, cachedSchedule) gmap \<Rightarrow> bool" where
  "cache_ok tbl cache \<longleftrightarrow> gm_inv cache \<and>
     (\<forall>sid c. gm_get cache sid = Some c \<longrightarrow>
        (\<exists>row. gm_get tbl sid = Some row \<and> strip_last (cached_schedule c) = strip_last row))"

lemma cache_ok_put:
  "cache_ok tbl cache \<Longrightarrow> gm_get tbl sid = Some row \<Longrightarrow> strip_last (cached_schedule c) = strip_last row \<Longrightarrow>
    cache_ok tbl (gm_set sid c cache)"
  by (auto simp: cache_ok_def gm.get_put gm.inv_put)

lemma cache_ok_del [simp]: "cache_ok tbl cache \<Longrightarrow> cache_ok tbl (gm_del sid cache)"
  by (auto simp: cache_ok_def gm.get_del gm.inv_del)

lemma cache_ok_empty [simp]: "cache_ok tbl gm_empty"
  by (simp add: cache_ok_def gm.get_empty gm.inv_empty)

lemma cache_all_ok:
  "cache_ok tbl cache \<Longrightarrow> (\<And>s. s \<in> set ss \<Longrightarrow> gm_get tbl (Schedule_ID s) = Some s) \<Longrightarrow> cache_ok tbl (cache_all now ss cache)"
proof (induction ss arbitrary: cache)
  case (Cons s ss)
  have "cache_ok tbl (gm_set (Schedule_ID s) \<lparr>cached_schedule = s, cached_cachedAt = now\<rparr> cache)"
    by (rule cache_ok_put [OF Cons.prems(1) Cons.prems(2)]) simp_all
  from Cons.IH [OF this] Cons.prems(2) show ?case by (simp add: cache_all_def)
qed (simp add: cache_all_def)

lemma listed_rows:
  "ranger_ok rng \<Longrightarrow> table_ok tbl \<Longrightarrow> repo_List rng n fault f tbl = Inr ss \<Longrightarrow> s \<in> set ss \<Longrightarrow> gm_get tbl (Schedule_ID s) = Some s"
  using repo_List_mem [of rng tbl n fault f ss s] by (auto simp: table_ok_def)

lemma UpdateNextRunTime_cache_ok:
  assumes "cache_ok (Store_repo st) (Store_cache st)" "table_ok (Store_repo st)"
  shows "cache_ok (Store_repo (snd (UpdateNextRunTime fault now sid t st))) (Store_cache (snd (UpdateNextRunTime fault now sid t st)))"
proof (cases "repo_UpdateNextRunTime fault now sid t (Store_repo st)")
  case (Pair e tbl)
  show ?thesis
  proof (cases e)
    case (Some x)
    then show ?thesis using Pair repo_UpdateNextRunTime_Some [of fault now sid t "Store_repo st" x tbl] assms(1) by (simp add: UpdateNextRunTime_def)
  next
    case None
    with Pair obtain row where row: "gm_get (Store_repo st) sid = Some row" "tbl = gm_set sid (next_run_row now t row) (Store_repo st)"
      by (auto simp: repo_UpdateNextRunTime_None)
    have same: "strip_last (c\<lparr>Schedule_NextRunTimeValue := t\<rparr>) = strip_last (next_run_row now t row)" if "strip_last c = strip_last row" for c
      using that by (cases c; cases row) (simp add: strip_last_def next_run_row_def)
    then show ?thesis using Pair None row assms(1)
      by (auto simp: UpdateNextRunTime_def cache_ok_def gm.get_put gm.inv_put split: option.splits) fastforce+
  qed
qed

lemma GetSchedule_cache_ok:
  assumes "cache_ok (Store_repo st) (Store_cache st)"
  shows "Store_repo (snd (GetSchedule fault now sid st)) = Store_repo st"
    and "cache_ok (Store_repo st) (Store_cache (snd (GetSchedule fault now sid st)))"
    and "GetSchedule fault now sid st = (Inr s, st') \<Longrightarrow> \<exists>row. gm_get (Store_repo st) sid = Some row \<and> strip_last s = strip_last row"
  using assms
  by (auto simp: GetSchedule_def getFromCache_def repo_Get_def cache_ok_def gm.get_put gm.inv_put
      split: option.splits if_splits sum.splits)

lemma MarkScheduleFailed_None:
  assumes "MarkScheduleFailed fault fault' now sid st = (None, st')"
  obtains row where "gm_get (Store_repo st) sid = Some row"
    "Store_repo st' = gm_set sid (row\<lparr>Schedule_Enabled := False, Schedule_UpdatedAt := now\<rparr>) (Store_repo st)"
    "Store_cache st' = gm_del sid (Store_cache (write_cached sid (\<lambda>s. s\<lparr>Schedule_Status := ScheduleStatusFailed, Schedule_Enabled := False\<rparr>)
      (snd (GetSchedule fault now sid st))))"
proof -
  have repo: "Store_repo (write_cached sid f (snd (GetSchedule fault now sid st))) = Store_repo st" for f
    by (auto simp: write_cached_def GetSchedule_def split: option.splits sum.splits)
  from assms that show ?thesis
    by (auto simp: MarkScheduleFailed_def Let_def repo repo_ToggleEnabled_def repo_row_update_def
        split: prod.splits sum.splits option.splits if_splits) (metis repo snd_conv)+
qed

lemma write_cached_simps:
  "Store_repo (write_cached sid f st) = Store_repo st"
  "gm_inv (Store_cache st) \<Longrightarrow> gm_inv (Store_cache (write_cached sid f st))"
  "gm_get (Store_cache (write_cached sid f st)) sid' =
    (if sid' = sid then map_option (\<lambda>c. c\<lparr>cached_schedule := f (cached_schedule c)\<rparr>) (gm_get (Store_cache st) sid)
     else gm_get (Store_cache st) sid')"
  by (auto simp: write_cached_def gm.inv_put gm.get_put split: option.splits)

lemma store_reach_ok: "store_reach st \<Longrightarrow> table_ok (Store_repo st) \<and> cache_ok (Store_repo st) (Store_cache st)"
proof (induction rule: store_reach.induct)
  case (1 tbl)
  then show ?case by (simp add: NewPostgresScheduleStore_def)
next
  case (2 st rng n fault now)
  then show ?case by (auto simp: GetActiveSchedules_def split: sum.splits intro!: cache_all_ok listed_rows)
next
  case (3 st fault now sid)
  then show ?case using GetSchedule_cache_ok by simp
next
  case (4 st fault now sid t)
  then show ?case using UpdateNextRunTime_cache_ok by (simp add: repo_UpdateNextRunTime_def repo_row_update_ok)
next
  case (5 st fault fault' now sid st')
  from 5(2) obtain row where row: "gm_get (Store_repo st) sid = Some row"
    "Store_repo st' = gm_set sid (row\<lparr>Schedule_Enabled := False, Schedule_UpdatedAt := now\<rparr>) (Store_repo st)"
    "Store_cache st' = gm_del sid (Store_cache (write_cached sid (\<lambda>s. s\<lparr>Schedule_Status := ScheduleStatusFailed, Schedule_Enabled := False\<rparr>)
      (snd (GetSchedule fault now sid st))))" by (rule MarkScheduleFailed_None)
  have cache: "cache_ok (Store_repo st) (Store_cache (snd (GetSchedule fault now sid st)))" using GetSchedule_cache_ok 5(3) by blast
  have "gm_inv (Store_cache (snd (GetSchedule fault now sid st)))" using cache by (simp add: cache_ok_def)
  then have get: "gm_get (Store_cache st') sid' = (if sid' = sid then None else gm_get (Store_cache (snd (GetSchedule fault now sid st))) sid')"
    and inv: "gm_inv (Store_cache st')" for sid'
    unfolding row(3) by (simp_all add: gm.get_del gm.inv_del write_cached_simps)
  have "cache_ok (Store_repo st') (Store_cache st')" using cache inv get row(2) by (auto simp: cache_ok_def gm.get_put)
  moreover have "table_ok (Store_repo st')" using 5(3) row by (auto simp: table_ok_def gm.get_put gm.inv_put)
  ultimately show ?case by simp
next
  case (8 st rng n fault now)
  then show ?case by (auto simp: RefreshCache_def split: sum.splits intro!: cache_all_ok listed_rows)
qed (simp_all add: InvalidateCache_def ClearCache_def)

text \<open>(C39)
  The cache never contradicts the table: after any sequence of operations of the store, a schedule it answers, from the
  cache or not, is the row of the table, except perhaps for the times of its last run and of its last write, which
  the cache does not follow.
\<close>

theorem GetSchedule_coherent:
  assumes "store_reach st" "GetSchedule fault now sid st = (Inr s, st')"
  shows "\<exists>row. gm_get (Store_repo st) sid = Some row \<and> strip_last s = strip_last row"
  using store_reach_ok [OF assms(1)] GetSchedule_cache_ok(3) [OF _ assms(2)] by blast

definition demo_schedule :: Schedule where
  "demo_schedule = \<lparr>Schedule_ID = ''s1'', Schedule_PipelineID = ''p1'', Schedule_CronExpression = ''@hourly'', Schedule_Timezone = ''UTC'',
     Schedule_Status = ScheduleStatusActive, Schedule_Enabled = True, Schedule_Priority = 1, Schedule_MaxConcurrentRuns = 1,
     Schedule_Tags = [], Schedule_Metadata = [], Schedule_NextRunTimeValue = 10, Schedule_LastRunTime = None,
     Schedule_CreatedBy = [], Schedule_CreatedAt = 0, Schedule_UpdatedAt = 0\<rparr>"

definition demo_table :: schedule_table where
  "demo_table = gm_set ''s1'' demo_schedule gm_empty"

lemma demo_table_ok: "table_ok demo_table"
  by (simp add: table_ok_def demo_table_def demo_schedule_def gm.inv_put gm.inv_empty gm.get_put gm.get_empty)

text \<open>The time of the last run in the cache is indeed behind the table after an update.\<close>

theorem GetSchedule_coherent_witness:
  "\<exists>s st' row. let st = snd (UpdateNextRunTime False 7 ''s1'' 20 (snd (GetSchedule False 5 ''s1'' (NewPostgresScheduleStore demo_table)))) in
    GetSchedule True 8 ''s1'' st = (Inr s, st') \<and> gm_get (Store_repo st) ''s1'' = Some row \<and> strip_last s = strip_last row \<and>
    Schedule_LastRunTime s = None \<and> Schedule_LastRunTime row = Some 10"
proof -
  let ?st = "snd (UpdateNextRunTime False 7 ''s1'' 20 (snd (GetSchedule False 5 ''s1'' (NewPostgresScheduleStore demo_table))))"
  have reach: "store_reach ?st" by (intro store_reach.intros demo_table_ok)
  have get: "GetSchedule True 8 ''s1'' ?st = (Inr (demo_schedule\<lparr>Schedule_NextRunTimeValue := 20\<rparr>), ?st)"
    and row: "gm_get (Store_repo ?st) ''s1'' = Some (next_run_row 7 20 demo_schedule)"
    by (simp_all add: GetSchedule_def getFromCache_def repo_Get_def UpdateNextRunTime_def repo_UpdateNextRunTime_def repo_row_update_def
        NewPostgresScheduleStore_def demo_table_def gm.get_put gm.get_empty time_Sub_def i64_def time_units)
  from GetSchedule_coherent [OF reach get] get row show ?thesis
    by (auto simp: Let_def next_run_row_def demo_schedule_def)
qed

text \<open>(C40)
  Marking a schedule failed: when it succeeds, the row is disabled but keeps its status, and the cache entry, the only
  place where the status became failed, is dropped. When the table cannot be written, the schedule in
  the cache is failed and disabled although its row is not.
\<close>

theorem MarkScheduleFailed_effect:
  assumes "gm_get (Store_repo st) sid = Some row" "gm_inv (Store_cache st)"
  shows "\<exists>st1 st2. MarkScheduleFailed False False now sid st = (None, st1) \<and>
      gm_get (Store_repo st1) sid = Some (row\<lparr>Schedule_Enabled := False, Schedule_UpdatedAt := now\<rparr>) \<and>
      gm_get (Store_cache st1) sid = None \<and>
    MarkScheduleFailed False True now sid st = (Some DBFailure, st2) \<and> gm_get (Store_repo st2) sid = Some row \<and>
      (\<exists>c. gm_get (Store_cache st2) sid = Some c \<and> Schedule_Status (cached_schedule c) = ScheduleStatusFailed \<and>
        \<not> Schedule_Enabled (cached_schedule c))"
proof -
  obtain s where get: "GetSchedule False now sid st = (Inr s, snd (GetSchedule False now sid st))"
    using assms(1) by (cases "getFromCache now sid st") (auto simp: GetSchedule_def repo_Get_def)
  let ?st = "snd (GetSchedule False now sid st)"
  have repo: "Store_repo ?st = Store_repo st" "gm_inv (Store_cache ?st)" and cached: "\<exists>c. gm_get (Store_cache ?st) sid = Some c"
    using assms by (auto simp: GetSchedule_def getFromCache_def repo_Get_def gm.get_put gm.inv_put split: option.splits if_splits)
  from cached obtain c where c: "gm_get (Store_cache ?st) sid = Some c" by blast
  show ?thesis
    by (subst (1 2) MarkScheduleFailed_def, subst (1 2) get)
      (simp add: write_cached_simps c repo assms(1) repo_ToggleEnabled_def repo_row_update_def gm.get_put gm.get_del Let_def)
qed

theorem MarkScheduleFailed_effect_witness:
  "\<exists>st1. MarkScheduleFailed False False 9 ''s1'' (NewPostgresScheduleStore demo_table) = (None, st1) \<and>
    map_option Schedule_Status (gm_get (Store_repo st1) ''s1'') = Some ScheduleStatusActive"
proof -
  have pre: "gm_get (Store_repo (NewPostgresScheduleStore demo_table)) ''s1'' = Some demo_schedule"
    "gm_inv (Store_cache (NewPostgresScheduleStore demo_table))"
    by (simp_all add: NewPostgresScheduleStore_def demo_table_def gm.get_put gm.inv_empty)
  from MarkScheduleFailed_effect [OF pre, of 9] show ?thesis by (auto simp: demo_schedule_def)
qed

end
