(* ===== verification/Recovery.thy ===== *)
theory Recovery
  imports Cron Scheduler_Job Schedule_Store
begin

text \<open>
  The recovery of missed runs, \<^verbatim>\<open>internal/scheduler/recovery.go\<close>, as a client of the store's interface: the
  operations of the store are arguments. A recovery that counts the runs of a schedule that never fires does not
  return; it is \<open>None\<close>. Durations and log lines are left out.
\<close>

section \<open>Data\<close>

datatype SkipPolicy = SkipPolicyNone | SkipPolicyExecuteLatest | SkipPolicySkipAll | SkipPolicyExecuteAll | SkipPolicyOther int

definition SkipPolicy_String :: "SkipPolicy \<Rightarrow> string" where
  "SkipPolicy_String p =
     (case p of SkipPolicyNone \<Rightarrow> ''none'' | SkipPolicyExecuteLatest \<Rightarrow> ''execute_latest'' | SkipPolicySkipAll \<Rightarrow> ''skip_all''
      | SkipPolicyExecuteAll \<Rightarrow> ''execute_all'' | SkipPolicyOther _ \<Rightarrow> ''unknown'')"

datatype RecoveryError =
    NoRecoveryError
  | LoadTimezone string
  | CountMissed CronError
  | UpdateNextRun RepoError
  | CreateRecoveryJob ScheduleError
  | ListSchedules RepoError
  | LoadSchedule RepoError

record RecoveryResult =
  RecoveryResult_ScheduleID :: string
  RecoveryResult_PipelineID :: string
  RecoveryResult_MissedRuns :: int
  RecoveryResult_ExecutedRuns :: int
  RecoveryResult_SkippedRuns :: int
  RecoveryResult_NextScheduledAt :: gotime
  RecoveryResult_Policy :: SkipPolicy
  RecoveryResult_Error :: RecoveryError

record RecoveryConfig =
  RecoveryConfig_Enabled :: bool
  RecoveryConfig_Policy :: SkipPolicy
  RecoveryConfig_MaxLookback :: dur
  RecoveryConfig_BatchSize :: int
  RecoveryConfig_Interval :: dur
  RecoveryConfig_DryRun :: bool

definition DefaultRecoveryConfig :: RecoveryConfig where
  "DefaultRecoveryConfig = \<lparr>RecoveryConfig_Enabled = True, RecoveryConfig_Policy = SkipPolicyExecuteLatest,
     RecoveryConfig_MaxLookback = 24 * Hour, RecoveryConfig_BatchSize = 20, RecoveryConfig_Interval = 5 * Minute,
     RecoveryConfig_DryRun = False\<rparr>"

text \<open>What the environment provides: the cron parser, the time zones, the JSON reader, fresh ids and the clock.\<close>

record recovery_env =
  env_parse :: cron_parser
  env_tz :: tz_database
  env_unmarshal :: "string \<Rightarrow> json_object option"
  env_fresh :: uuid
  env_now :: gotime

type_synonym 'st store_update = "string \<Rightarrow> gotime \<Rightarrow> 'st \<Rightarrow> RepoError option \<times> 'st"

section \<open>Operations\<close>

definition executeRecoveryJob :: "recovery_env \<Rightarrow> RecoveryConfig \<Rightarrow> Schedule \<Rightarrow> RecoveryError" where
  "executeRecoveryJob env cfg sch =
     (if RecoveryConfig_DryRun cfg then NoRecoveryError
      else case NewScheduledJob (env_parse env) (env_tz env) (env_unmarshal env) (env_fresh env) (env_now env) sch of
             Inl e \<Rightarrow> CreateRecoveryJob e
           | Inr job \<Rightarrow> NoRecoveryError)"

definition scheduleNext :: "cron_parser \<Rightarrow> string \<Rightarrow> gotime \<Rightarrow> string \<Rightarrow> gotime" where
  "scheduleNext parse expr from loc =
     (case cron_ParseCronExpression parse expr of Inl e \<Rightarrow> from | Inr sch \<Rightarrow> sch loc from)"

text \<open>The loop of the policy that executes every missed run; its time \<^verbatim>\<open>intermediate\<close> is computed and never read.\<close>

fun execute_all :: "recovery_env \<Rightarrow> RecoveryConfig \<Rightarrow> Schedule \<Rightarrow> nat \<Rightarrow> gotime \<Rightarrow> int \<Rightarrow> int" where
  "execute_all env cfg sch 0 intermediate executeCount = executeCount"
| "execute_all env cfg sch (Suc n) intermediate executeCount =
     (let intermediate' = scheduleNext (env_parse env) (Schedule_CronExpression sch) intermediate (Schedule_Timezone sch)
      in if RecoveryConfig_DryRun cfg then execute_all env cfg sch n intermediate' (executeCount + 1)
         else if executeRecoveryJob env cfg sch \<noteq> NoRecoveryError then execute_all env cfg sch n intermediate' executeCount
         else execute_all env cfg sch n intermediate' (executeCount + 1))"

definition lookback_since :: "RecoveryConfig \<Rightarrow> gotime \<Rightarrow> Schedule \<Rightarrow> gotime" where
  "lookback_since cfg now sch =
     (let lookbackStart = now - RecoveryConfig_MaxLookback cfg
      in case Schedule_LastRunTime sch of
           Some lastRun \<Rightarrow> if lastRun > lookbackStart then lastRun else lookbackStart
         | None \<Rightarrow> lookbackStart)"

text \<open>The switch over the policies.\<close>

definition apply_policy ::
  "'st store_update \<Rightarrow> recovery_env \<Rightarrow> RecoveryConfig \<Rightarrow> Schedule \<Rightarrow> gotime \<Rightarrow> int \<Rightarrow> gotime \<Rightarrow> RecoveryResult \<Rightarrow> 'st \<Rightarrow>
    (RecoveryResult \<times> RecoveryError) \<times> 'st" where
  "apply_policy update env cfg sch since missedCount nextRun result st =
     (case RecoveryConfig_Policy cfg of
        SkipPolicySkipAll \<Rightarrow>
          (let r = result\<lparr>RecoveryResult_SkippedRuns := missedCount, RecoveryResult_NextScheduledAt := nextRun\<rparr>
           in case update (Schedule_ID sch) nextRun st of
                (Some e, st') \<Rightarrow> ((r, UpdateNextRun e), st')
              | (None, st') \<Rightarrow> ((r, NoRecoveryError), st'))
      | SkipPolicyExecuteLatest \<Rightarrow>
          (let r = result\<lparr>RecoveryResult_SkippedRuns := missedCount - 1, RecoveryResult_ExecutedRuns := 1\<rparr>;
               e = executeRecoveryJob env cfg sch
           in if e \<noteq> NoRecoveryError then ((r, e), st)
              else (let r' = r\<lparr>RecoveryResult_NextScheduledAt := nextRun\<rparr>
                    in case update (Schedule_ID sch) nextRun st of
                         (Some e, st') \<Rightarrow> ((r', UpdateNextRun e), st')
                       | (None, st') \<Rightarrow> ((r', NoRecoveryError), st')))
      | SkipPolicyExecuteAll \<Rightarrow>
          (let r = result\<lparr>RecoveryResult_ExecutedRuns := execute_all env cfg sch (nat missedCount) since 0,
                          RecoveryResult_NextScheduledAt := nextRun\<rparr>
           in if \<not> RecoveryConfig_DryRun cfg
              then (case update (Schedule_ID sch) nextRun st of
                      (Some e, st') \<Rightarrow> ((r, UpdateNextRun e), st')
                    | (None, st') \<Rightarrow> ((r, NoRecoveryError), st'))
              else ((r, NoRecoveryError), st))
      | SkipPolicyNone \<Rightarrow>
          ((result\<lparr>RecoveryResult_ExecutedRuns := missedCount, RecoveryResult_NextScheduledAt := nextRun\<rparr>, NoRecoveryError), st)
      | SkipPolicyOther _ \<Rightarrow>
          ((result\<lparr>RecoveryResult_SkippedRuns := missedCount, RecoveryResult_NextScheduledAt := nextRun\<rparr>, NoRecoveryError), st))"

definition new_result :: "Schedule \<Rightarrow> SkipPolicy \<Rightarrow> RecoveryResult" where
  "new_result sch p = \<lparr>RecoveryResult_ScheduleID = Schedule_ID sch, RecoveryResult_PipelineID = Schedule_PipelineID sch,
     RecoveryResult_MissedRuns = 0, RecoveryResult_ExecutedRuns = 0, RecoveryResult_SkippedRuns = 0,
     RecoveryResult_NextScheduledAt = 0, RecoveryResult_Policy = p, RecoveryResult_Error = NoRecoveryError\<rparr>"

definition recoverSingleSchedule ::
  "'st store_update \<Rightarrow> recovery_env \<Rightarrow> RecoveryConfig \<Rightarrow> Schedule \<Rightarrow> gotime \<Rightarrow> 'st \<Rightarrow> ((RecoveryResult \<times> RecoveryError) \<times> 'st) option" where
  "recoverSingleSchedule update env cfg sch now st =
     (let result = new_result sch (RecoveryConfig_Policy cfg)
      in if \<not> Schedule_Enabled sch \<or> Schedule_Status sch \<noteq> ScheduleStatusActive then Some ((result, NoRecoveryError), st)
         else if \<not> env_tz env (Schedule_Timezone sch) then Some ((result, LoadTimezone (Schedule_Timezone sch)), st)
         else (let since = lookback_since cfg now sch
               in if Schedule_NextRunTimeValue sch > now
                  then Some ((result\<lparr>RecoveryResult_NextScheduledAt := Schedule_NextRunTimeValue sch\<rparr>, NoRecoveryError), st)
                  else (case CountMissedRuns (env_parse env) (Schedule_CronExpression sch) since now (Some (Schedule_Timezone sch)) of
                          None \<Rightarrow> None
                        | Some (Inl e) \<Rightarrow> Some ((result, CountMissed e), st)
                        | Some (Inr (missedCount, nextRun)) \<Rightarrow>
                            (let result' = result\<lparr>RecoveryResult_MissedRuns := missedCount\<rparr>
                             in if missedCount = 0 then Some ((result', NoRecoveryError), st)
                                else Some (apply_policy update env cfg sch since missedCount nextRun result' st)))))"

fun recover_all ::
  "'st store_update \<Rightarrow> recovery_env \<Rightarrow> RecoveryConfig \<Rightarrow> gotime \<Rightarrow> Schedule list \<Rightarrow> 'st \<Rightarrow> (RecoveryResult list \<times> 'st) option" where
  "recover_all update env cfg now [] st = Some ([], st)"
| "recover_all update env cfg now (sch # schs) st =
     (case recoverSingleSchedule update env cfg sch now st of
        None \<Rightarrow> None
      | Some ((result, err), st') \<Rightarrow>
          (let result' = (if err \<noteq> NoRecoveryError
                          then (new_result sch SkipPolicyNone)\<lparr>RecoveryResult_Error := err\<rparr> else result)
           in map_option (\<lambda>(rs, st''). (result' # rs, st'')) (recover_all update env cfg now schs st')))"

definition RecoverMissedJobs ::
  "('st \<Rightarrow> (RepoError + Schedule list) \<times> 'st) \<Rightarrow> 'st store_update \<Rightarrow> recovery_env \<Rightarrow> RecoveryConfig \<Rightarrow> 'st \<Rightarrow>
    ((RecoveryError + RecoveryResult list) \<times> 'st) option" where
  "RecoverMissedJobs active update env cfg st =
     (if \<not> RecoveryConfig_Enabled cfg then Some (Inr [], st)
      else case active st of
             (Inl e, st') \<Rightarrow> Some (Inl (ListSchedules e), st')
           | (Inr schedules, st') \<Rightarrow>
               map_option (\<lambda>(rs, st''). (Inr rs, st'')) (recover_all update env cfg (env_now env) schedules st'))"

definition RecoverSpecificSchedule ::
  "('st \<Rightarrow> (RepoError + Schedule) \<times> 'st) \<Rightarrow> 'st store_update \<Rightarrow> recovery_env \<Rightarrow> RecoveryConfig \<Rightarrow> 'st \<Rightarrow>
    ((RecoveryError + RecoveryResult \<times> RecoveryError) \<times> 'st) option" where
  "RecoverSpecificSchedule get update env cfg st =
     (case get st of
        (Inl e, st') \<Rightarrow> Some (Inl (LoadSchedule e), st')
      | (Inr sch, st') \<Rightarrow>
          map_option (\<lambda>(r, st''). (Inr r, st'')) (recoverSingleSchedule update env cfg sch (env_now env) st'))"

definition DetectMissedSchedules :: "(int \<Rightarrow> 'st \<Rightarrow> RepoError + Schedule list) \<Rightarrow> recovery_env \<Rightarrow> RecoveryConfig \<Rightarrow> 'st \<Rightarrow> RecoveryError + string list" where
  "DetectMissedSchedules due env cfg st =
     (case due (RecoveryConfig_BatchSize cfg) st of
        Inl e \<Rightarrow> Inl (ListSchedules e)
      | Inr schs \<Rightarrow>
          Inr (List.map_filter (\<lambda>sch. case Schedule_LastRunTime sch of
                  None \<Rightarrow> None
                | Some t \<Rightarrow> if scheduleNext (env_parse env) (Schedule_CronExpression sch) t ''UTC'' < Schedule_NextRunTimeValue sch
                            then Some (Schedule_ID sch) else None) schs))"

section \<open>Recovery over the interface\<close>

context schedule_store
begin

lemma apply_policy_keeps:
  "apply_policy update env cfg sch since m nextRun result st = (r, st') \<Longrightarrow>
    map_option strip_times (rows st' sid) = map_option strip_times (rows st sid)"
  using update_keeps [of "Schedule_ID sch" nextRun st sid]
  by (auto simp: apply_policy_def Let_def split: SkipPolicy.splits if_splits prod.splits option.splits)

lemma recoverSingle_keeps:
  "recoverSingleSchedule update env cfg sch now st = Some (r, st') \<Longrightarrow>
    map_option strip_times (rows st' sid) = map_option strip_times (rows st sid)"
  by (auto simp: recoverSingleSchedule_def Let_def split: if_splits option.splits sum.splits intro: apply_policy_keeps)

lemma recoverSingle_ids:
  "recoverSingleSchedule update env cfg sch now st = Some ((res, err), st') \<Longrightarrow> RecoveryResult_ScheduleID res = Schedule_ID sch"
  by (auto simp: recoverSingleSchedule_def apply_policy_def new_result_def Let_def
      split: if_splits option.splits sum.splits SkipPolicy.splits prod.splits)

lemma recover_all_keeps:
  "recover_all update env cfg now schs st = Some (rs, st') \<Longrightarrow>
    map RecoveryResult_ScheduleID rs = map Schedule_ID schs \<and>
    map_option strip_times (rows st' sid) = map_option strip_times (rows st sid)"
proof (induction schs arbitrary: st rs)
  case (Cons sch schs)
  from Cons.prems obtain res err st1 rs' where
    one: "recoverSingleSchedule update env cfg sch now st = Some ((res, err), st1)"
    and rest: "recover_all update env cfg now schs st1 = Some (rs', st')"
    and rs: "rs = (if err \<noteq> NoRecoveryError then (new_result sch SkipPolicyNone)\<lparr>RecoveryResult_Error := err\<rparr> else res) # rs'"
    by (auto simp: Let_def split: option.splits prod.splits)
  show ?case using Cons.IH [OF rest] recoverSingle_keeps [OF one] recoverSingle_ids [OF one] rs by (simp add: new_result_def)
qed simp

end

text \<open>(C38)
  Recovery over the store of the service changes nothing but times: whatever the policy and whatever fails, the schedules
  in the table are the same ones afterwards and differ from before at most in their next run, last run and update
  times. It answers one result for each active schedule listed, in order.
\<close>

theorem RecoverMissedJobs_keeps:
  assumes "RecoverMissedJobs (GetActiveSchedules rng n fault now) (UpdateNextRunTime fault' now') env cfg st = Some (Inr rs, st')"
    and "RecoveryConfig_Enabled cfg"
  shows "map_option strip_times (gm_get (Store_repo st') sid) = map_option strip_times (gm_get (Store_repo st) sid) \<and>
    (\<exists>schs. fst (GetActiveSchedules rng n fault now st) = Inr schs \<and> map RecoveryResult_ScheduleID rs = map Schedule_ID schs)"
proof -
  from assms obtain schs st1 where act: "GetActiveSchedules rng n fault now st = (Inr schs, st1)"
    and all: "recover_all (UpdateNextRunTime fault' now') env cfg (env_now env) schs st1 = Some (rs, st')"
    by (auto simp: RecoverMissedJobs_def split: prod.splits sum.splits)
  show ?thesis using pg.recover_all_keeps [OF all, of sid] GetActiveSchedules_repo [of rng n fault now st] act by simp
qed

text \<open>An example: a schedule that fires every hour, in a table of its own.\<close>

definition hourly_schedule :: Schedule where
  "hourly_schedule = \<lparr>Schedule_ID = ''s1'', Schedule_PipelineID = ''p1'', Schedule_CronExpression = ''@hourly'', Schedule_Timezone = ''UTC'',
     Schedule_Status = ScheduleStatusActive, Schedule_Enabled = True, Schedule_Priority = 1, Schedule_MaxConcurrentRuns = 1,
     Schedule_Tags = [], Schedule_Metadata = [], Schedule_NextRunTimeValue = Hour, Schedule_LastRunTime = Some (Hour div 2),
     Schedule_CreatedBy = [], Schedule_CreatedAt = 0, Schedule_UpdatedAt = 0\<rparr>"

definition demo_store :: PostgresScheduleStore where
  "demo_store = NewPostgresScheduleStore (gm_set ''s1'' hourly_schedule gm_empty)"

definition demo_env :: "gotime \<Rightarrow> recovery_env" where
  "demo_env now = \<lparr>env_parse = demo_parser, env_tz = \<lambda>z. z = ''UTC'', env_unmarshal = \<lambda>s. None, env_fresh = 1, env_now = now\<rparr>"

theorem RecoverMissedJobs_keeps_witness:
  "\<exists>rs st'. RecoverMissedJobs (GetActiveSchedules (\<lambda>i ks. ks) 0 False 5) (UpdateNextRunTime False 5) (demo_env 5) DefaultRecoveryConfig demo_store =
      Some (Inr rs, st') \<and> map RecoveryResult_ScheduleID rs = [''s1''] \<and>
    map_option strip_times (gm_get (Store_repo st') ''s1'') = Some (strip_times hourly_schedule)"
proof -
  let ?act = "GetActiveSchedules (\<lambda>i ks. ks) 0 False 5"
  have act: "fst (?act demo_store) = Inr [hourly_schedule]" and get: "gm_get (Store_repo demo_store) ''s1'' = Some hourly_schedule"
    by (simp_all add: GetActiveSchedules_def repo_List_def active_filter_def filter_matches_def order_schedules_def demo_store_def
        NewPostgresScheduleStore_def range_items_def range_over_def gm_keys_def gm_set_def gm_empty_def gm_get_def
        List.map_filter_simps hourly_schedule_def)
  have "recoverSingleSchedule (UpdateNextRunTime False 5) (demo_env 5) DefaultRecoveryConfig hourly_schedule 5 st =
      Some (((new_result hourly_schedule SkipPolicyExecuteLatest)\<lparr>RecoveryResult_NextScheduledAt := Hour\<rparr>, NoRecoveryError), st)" for st
    by (simp add: recoverSingleSchedule_def hourly_schedule_def demo_env_def DefaultRecoveryConfig_def time_units)
  then obtain rs st' where run: "RecoverMissedJobs ?act (UpdateNextRunTime False 5) (demo_env 5) DefaultRecoveryConfig demo_store = Some (Inr rs, st')"
    using act by (cases "?act demo_store") (simp add: RecoverMissedJobs_def DefaultRecoveryConfig_def demo_env_def)
  have sid: "Schedule_ID hourly_schedule = ''s1''" by (simp add: hourly_schedule_def)
  have "RecoveryConfig_Enabled DefaultRecoveryConfig" by (simp add: DefaultRecoveryConfig_def)
  from RecoverMissedJobs_keeps [OF run this, of "''s1''"] run act get show ?thesis by (auto simp: sid)
qed

section \<open>Accounting\<close>

lemma executeRecoveryJob_ok:
  "Schedule_CronExpression sch \<noteq> [] \<Longrightarrow> env_tz env (Schedule_Timezone sch) \<Longrightarrow> env_parse env (Schedule_CronExpression sch) = Some c \<Longrightarrow>
    executeRecoveryJob env cfg sch = NoRecoveryError"
  using NewScheduledJob_ok [of sch "env_tz env" "env_parse env" c "env_unmarshal env" "env_fresh env" "env_now env"]
  by (auto simp: executeRecoveryJob_def)

lemma execute_all_ok:
  "executeRecoveryJob env cfg sch = NoRecoveryError \<Longrightarrow> execute_all env cfg sch n t c = c + int n"
  by (induction n arbitrary: t c) (simp_all add: Let_def)

text \<open>The policies that write the next run time to the store.\<close>

definition policy_writes :: "RecoveryConfig \<Rightarrow> bool" where
  "policy_writes cfg \<longleftrightarrow> RecoveryConfig_Policy cfg \<in> {SkipPolicySkipAll, SkipPolicyExecuteLatest} \<or>
     RecoveryConfig_Policy cfg = SkipPolicyExecuteAll \<and> \<not> RecoveryConfig_DryRun cfg"

lemma apply_policy_accounts:
  assumes "executeRecoveryJob env cfg sch = NoRecoveryError" "update (Schedule_ID sch) nextRun st = (None, st1)" "0 < m"
  shows "\<exists>res. apply_policy update env cfg sch since m nextRun ((new_result sch p)\<lparr>RecoveryResult_MissedRuns := m\<rparr>) st =
      ((res, NoRecoveryError), if policy_writes cfg then st1 else st) \<and>
    RecoveryResult_MissedRuns res = m \<and> RecoveryResult_ExecutedRuns res + RecoveryResult_SkippedRuns res = m \<and>
    0 \<le> RecoveryResult_ExecutedRuns res \<and> 0 \<le> RecoveryResult_SkippedRuns res \<and> RecoveryResult_NextScheduledAt res = nextRun"
  using assms by (cases "RecoveryConfig_Policy cfg")
    (auto simp: apply_policy_def policy_writes_def new_result_def execute_all_ok Let_def)



end
