(* ===== verification/Scheduler_Service.thy ===== *)
theory Scheduler_Service
  imports Recovery
begin

text \<open>
  The scheduler service of \<^verbatim>\<open>internal/scheduler/service.go\<close>. The cron engine is a library: its operations are
  arguments, and \<open>cron_engine\<close> states what the library documents of them. The publisher answers whether a message was
  published; the messages published are kept in a log. Goroutines are run to their end where they are started.
\<close>

section \<open>Data\<close>

type_synonym entry_id = int

record 'c cron_ops =
  cron_AddFunc :: "string \<Rightarrow> ScheduledJob \<Rightarrow> 'c \<Rightarrow> (unit + entry_id) \<times> 'c"
  cron_Remove :: "entry_id \<Rightarrow> 'c \<Rightarrow> 'c"
  cron_entry :: "'c \<Rightarrow> entry_id \<Rightarrow> ScheduledJob option"

record 'c SchedulerService =
  Service_cron :: 'c
  Service_store :: PostgresScheduleStore
  Service_activeJobs :: "(string, entry_id) gmap"
  Service_published :: "(string \<times> JobExecution) list"
  Service_pollLimit :: int
  Service_pollInterval :: dur
  Service_startedAt :: gotime
  Service_recovery :: RecoveryConfig

datatype ServiceError = CreateJob ScheduleError | AddCronFunc | JobNotFound string | GetActive RepoError

definition WithPollingInterval :: "dur \<Rightarrow> 'c SchedulerService \<Rightarrow> 'c SchedulerService" where
  "WithPollingInterval d s = s\<lparr>Service_pollInterval := d\<rparr>"

definition WithPollLimit :: "int \<Rightarrow> 'c SchedulerService \<Rightarrow> 'c SchedulerService" where
  "WithPollLimit limit s = (if limit > 0 then s\<lparr>Service_pollLimit := limit\<rparr> else s)"

definition NewSchedulerService ::
  "'c \<Rightarrow> schedule_table \<Rightarrow> RecoveryConfig \<Rightarrow> ('c SchedulerService \<Rightarrow> 'c SchedulerService) list \<Rightarrow> 'c SchedulerService" where
  "NewSchedulerService cron repo recoveryCfg opts =
     fold (\<lambda>opt. opt) opts
       \<lparr>Service_cron = cron, Service_store = NewPostgresScheduleStore repo, Service_activeJobs = gm_empty, Service_published = [],
        Service_pollLimit = 50, Service_pollInterval = 15 * Second, Service_startedAt = 0, Service_recovery = recoveryCfg\<rparr>"

section \<open>Jobs\<close>

definition AddJob :: "'c cron_ops \<Rightarrow> recovery_env \<Rightarrow> Schedule \<Rightarrow> 'c SchedulerService \<Rightarrow> (ServiceError + entry_id) \<times> 'c SchedulerService" where
  "AddJob ops env schedule s =
     (case NewScheduledJob (env_parse env) (env_tz env) (env_unmarshal env) (env_fresh env) (env_now env) schedule of
        Inl e \<Rightarrow> (Inl (CreateJob e), s)
      | Inr job \<Rightarrow>
          (case cron_AddFunc ops (Schedule_CronExpression schedule) job (Service_cron s) of
             (Inl _, cron) \<Rightarrow> (Inl AddCronFunc, s\<lparr>Service_cron := cron\<rparr>)
           | (Inr entryID, cron) \<Rightarrow>
               (Inr entryID, s\<lparr>Service_cron := cron,
                               Service_activeJobs := gm_set (Schedule_ID schedule) entryID (Service_activeJobs s)\<rparr>)))"

definition RemoveJob :: "'c cron_ops \<Rightarrow> string \<Rightarrow> 'c SchedulerService \<Rightarrow> ServiceError option \<times> 'c SchedulerService" where
  "RemoveJob ops sid s =
     (case gm_get (Service_activeJobs s) sid of
        None \<Rightarrow> (Some (JobNotFound sid), s)
      | Some entryID \<Rightarrow>
          (None, s\<lparr>Service_cron := cron_Remove ops entryID (Service_cron s),
                   Service_activeJobs := gm_del sid (Service_activeJobs s),
                   Service_store := InvalidateCache sid (Service_store s)\<rparr>))"

definition UpdateJob :: "'c cron_ops \<Rightarrow> recovery_env \<Rightarrow> Schedule \<Rightarrow> 'c SchedulerService \<Rightarrow> (ServiceError + entry_id) \<times> 'c SchedulerService" where
  "UpdateJob ops env schedule s = AddJob ops env schedule (snd (RemoveJob ops (Schedule_ID schedule) s))"

definition HasJob :: "string \<Rightarrow> 'c SchedulerService \<Rightarrow> bool" where
  "HasJob sid s = gm_has (Service_activeJobs s) sid"

definition ActiveJobCount :: "'c SchedulerService \<Rightarrow> nat" where
  "ActiveJobCount s = gm_len (Service_activeJobs s)"

section \<open>Dispatch\<close>

text \<open>What a run of a job sees: the ids and clock, the JSON writer, whether publishing and the table update succeed.\<close>

record dispatch_env =
  disp_fresh :: uuid
  disp_corr :: uuid
  disp_now :: gotime
  disp_marshal :: "json_object \<Rightarrow> string option"
  disp_publish_ok :: bool
  disp_db_fault :: bool

definition executeJob :: "recovery_env \<Rightarrow> dispatch_env \<Rightarrow> ScheduledJob \<Rightarrow> 'c SchedulerService \<Rightarrow> 'c SchedulerService" where
  "executeJob env d job s =
     (if ScheduledJob_Disabled job then s
      else (let exec = NewJobExecution (disp_marshal d) (disp_fresh d) (disp_corr d) (disp_now d) job
            in if \<not> disp_publish_ok d then s
               else (let s1 = s\<lparr>Service_published := Service_published s @ [(JobExecution_RoutingKey exec, exec)]\<rparr>
                     in case NextRunTime (env_parse env) (env_now env) (ScheduledJob_CronExpression job) None of
                          Inl _ \<Rightarrow> s1
                        | Inr nextRun \<Rightarrow>
                            s1\<lparr>Service_store := snd (UpdateNextRunTime (disp_db_fault d) (disp_now d) (ScheduledJob_ScheduleID job)
                                 nextRun (Service_store s1))\<rparr>)))"

definition pollDueSchedules ::
  "string ranger \<Rightarrow> nat \<Rightarrow> bool \<Rightarrow> (string \<Rightarrow> bool) \<Rightarrow> recovery_env \<Rightarrow> (string \<Rightarrow> dispatch_env) \<Rightarrow> 'c SchedulerService \<Rightarrow> 'c SchedulerService" where
  "pollDueSchedules rng n fault locked env d s =
     (case GetDueSchedules rng n fault locked (env_now env) (Service_pollLimit s) (Service_store s) of
        Inl _ \<Rightarrow> s
      | Inr due \<Rightarrow>
          fold (\<lambda>sch s. if HasJob (Schedule_ID sch) s then s
                        else case NewScheduledJob (env_parse env) (env_tz env) (env_unmarshal env) (env_fresh env) (env_now env) sch of
                               Inl _ \<Rightarrow> s
                             | Inr job \<Rightarrow> executeJob env (d (Schedule_ID sch)) job s) due s)"

section \<open>Life cycle\<close>

definition loadActiveJobs ::
  "string ranger \<Rightarrow> nat \<Rightarrow> bool \<Rightarrow> 'c cron_ops \<Rightarrow> recovery_env \<Rightarrow> 'c SchedulerService \<Rightarrow> ServiceError option \<times> 'c SchedulerService" where
  "loadActiveJobs rng n fault ops env s =
     (case GetActiveSchedules rng n fault (env_now env) (Service_store s) of
        (Inl e, st) \<Rightarrow> (Some (GetActive e), s\<lparr>Service_store := st\<rparr>)
      | (Inr schedules, st) \<Rightarrow> (None, fold (\<lambda>sch s. snd (AddJob ops env sch s)) schedules (s\<lparr>Service_store := st\<rparr>)))"

definition recoverOnStartup ::
  "string ranger \<Rightarrow> nat \<Rightarrow> bool \<Rightarrow> bool \<Rightarrow> recovery_env \<Rightarrow> 'c SchedulerService \<Rightarrow> (RecoveryError option \<times> 'c SchedulerService) option" where
  "recoverOnStartup rng n fault fault' env s =
     map_option (\<lambda>(r, st). (case r of Inl e \<Rightarrow> Some e | Inr _ \<Rightarrow> None, s\<lparr>Service_store := st\<rparr>))
       (RecoverMissedJobs (GetActiveSchedules rng n fault (env_now env)) (UpdateNextRunTime fault' (env_now env)) env
          (Service_recovery s) (Service_store s))"

definition Service_Start ::
  "string ranger \<Rightarrow> nat \<Rightarrow> nat \<Rightarrow> bool \<Rightarrow> bool \<Rightarrow> bool \<Rightarrow> 'c cron_ops \<Rightarrow> recovery_env \<Rightarrow> 'c SchedulerService \<Rightarrow>
    (ServiceError option \<times> 'c SchedulerService) option" where
  "Service_Start rng n n' fault fault' fault'' ops env s =
     (case recoverOnStartup rng n fault fault' env (s\<lparr>Service_startedAt := env_now env\<rparr>) of
        None \<Rightarrow> None
      | Some (_, s1) \<Rightarrow> Some (loadActiveJobs rng n' fault'' ops env s1))"

definition Service_Stop :: "'c SchedulerService \<Rightarrow> 'c SchedulerService" where
  "Service_Stop s = s\<lparr>Service_activeJobs := gm_empty, Service_store := ClearCache (Service_store s)\<rparr>"

definition ReloadJobs ::
  "string ranger \<Rightarrow> nat \<Rightarrow> nat \<Rightarrow> bool \<Rightarrow> 'c cron_ops \<Rightarrow> recovery_env \<Rightarrow> 'c SchedulerService \<Rightarrow> ServiceError option \<times> 'c SchedulerService" where
  "ReloadJobs rng n n' fault ops env s =
     loadActiveJobs rng n' fault ops env
       (fold (\<lambda>(sid, entryID) s. s\<lparr>Service_cron := cron_Remove ops entryID (Service_cron s),
                                   Service_activeJobs := gm_del sid (Service_activeJobs s)\<rparr>)
          (range_items rng n (Service_activeJobs s)) s)"

section \<open>The jobs in the cron engine\<close>

text \<open>What the library documents: a failed add changes no entry, a successful one adds an entry under an id that is new,
  and a removal removes exactly the entry.\<close>

definition cron_engine :: "'c cron_ops \<Rightarrow> bool" where
  "cron_engine ops \<longleftrightarrow>
     (\<forall>expr job c c'. cron_AddFunc ops expr job c = (Inl (), c') \<longrightarrow> cron_entry ops c' = cron_entry ops c) \<and>
     (\<forall>expr job c i c'. cron_AddFunc ops expr job c = (Inr i, c') \<longrightarrow>
        cron_entry ops c i = None \<and> cron_entry ops c' = (cron_entry ops c)(i \<mapsto> job)) \<and>
     (\<forall>i c. cron_entry ops (cron_Remove ops i c) = (cron_entry ops c)(i := None))"

text \<open>Every active job is an entry of the engine that runs a job of its schedule, and no entry serves two schedules.\<close>

definition jobs_ok :: "'c cron_ops \<Rightarrow> 'c SchedulerService \<Rightarrow> bool" where
  "jobs_ok ops s \<longleftrightarrow> gm_inv (Service_activeJobs s) \<and>
     (\<forall>sid i. gm_get (Service_activeJobs s) sid = Some i \<longrightarrow>
        (\<exists>job. cron_entry ops (Service_cron s) i = Some job \<and> ScheduledJob_ScheduleID job = sid))"

text \<open>The other way round: every entry of the engine is the active job of its schedule.\<close>

definition no_orphans :: "'c cron_ops \<Rightarrow> 'c SchedulerService \<Rightarrow> bool" where
  "no_orphans ops s \<longleftrightarrow>
     (\<forall>i job. cron_entry ops (Service_cron s) i = Some job \<longrightarrow> gm_get (Service_activeJobs s) (ScheduledJob_ScheduleID job) = Some i)"

lemma NewScheduledJob_id: "NewScheduledJob parse tz unmarshal fresh now sch = Inr job \<Longrightarrow> ScheduledJob_ScheduleID job = Schedule_ID sch"
  by (auto simp: NewScheduledJob_def Let_def split: sum.splits)

lemma AddJob_cases:
  assumes "cron_engine ops"
  obtains (failed) e s' where "AddJob ops env sch s = (Inl e, s')" "cron_entry ops (Service_cron s') = cron_entry ops (Service_cron s)"
      "Service_activeJobs s' = Service_activeJobs s"
  | (added) i job s' where "AddJob ops env sch s = (Inr i, s')" "cron_entry ops (Service_cron s) i = None"
      "cron_entry ops (Service_cron s') = (cron_entry ops (Service_cron s))(i \<mapsto> job)" "ScheduledJob_ScheduleID job = Schedule_ID sch"
      "Service_activeJobs s' = gm_set (Schedule_ID sch) i (Service_activeJobs s)"
proof (cases "NewScheduledJob (env_parse env) (env_tz env) (env_unmarshal env) (env_fresh env) (env_now env) sch")
  case (Inl e)
  then show ?thesis using failed [of "CreateJob e" s] by (simp add: AddJob_def)
next
  case (Inr job)
  obtain r c where add: "cron_AddFunc ops (Schedule_CronExpression sch) job (Service_cron s) = (r, c)" by fastforce
  show ?thesis
  proof (cases r)
    case (Inl u)
    then have "cron_entry ops c = cron_entry ops (Service_cron s)" using assms add by (simp add: cron_engine_def)
    then show ?thesis using failed [of AddCronFunc "s\<lparr>Service_cron := c\<rparr>"] \<open>NewScheduledJob _ _ _ _ _ sch = Inr job\<close> add Inl
      by (simp add: AddJob_def)
  next
    case (Inr i)
    then have "cron_entry ops (Service_cron s) i = None" "cron_entry ops c = (cron_entry ops (Service_cron s))(i \<mapsto> job)"
      using assms add unfolding cron_engine_def by metis+
    then show ?thesis using added [of i "s\<lparr>Service_cron := c, Service_activeJobs := gm_set (Schedule_ID sch) i (Service_activeJobs s)\<rparr>" job]
      \<open>NewScheduledJob _ _ _ _ _ sch = Inr job\<close> NewScheduledJob_id add Inr by (simp add: AddJob_def)
  qed
qed

lemma AddJob_ok:
  assumes "cron_engine ops" "jobs_ok ops s"
  shows "jobs_ok ops (snd (AddJob ops env sch s))"
  using assms(1)
proof (cases rule: AddJob_cases [where env = env and sch = sch and s = s])
  case (failed e s')
  then show ?thesis using assms(2) by (simp add: jobs_ok_def)
next
  case (added i job s')
  then show ?thesis using assms(2) by (auto simp: jobs_ok_def gm.get_put gm.inv_put) (metis option.distinct(1))
qed

lemma AddJob_no_orphans:
  assumes "cron_engine ops" "no_orphans ops s" "\<not> HasJob (Schedule_ID sch) s"
  shows "no_orphans ops (snd (AddJob ops env sch s))"
  using assms(1)
proof (cases rule: AddJob_cases [where env = env and sch = sch and s = s])
  case (failed e s')
  then show ?thesis using assms(2) by (simp add: no_orphans_def)
next
  case (added i job s')
  have "gm_get (Service_activeJobs s) (Schedule_ID sch) = None" using assms(3) by (simp add: HasJob_def gm_has_keys gm_get_keys)
  then show ?thesis using added assms(2) by (auto simp: no_orphans_def gm.get_put) (metis option.distinct(1))+
qed

lemma RemoveJob_ok:
  assumes "cron_engine ops" "jobs_ok ops s" "no_orphans ops s"
  shows "jobs_ok ops (snd (RemoveJob ops sid s)) \<and> no_orphans ops (snd (RemoveJob ops sid s)) \<and> \<not> HasJob sid (snd (RemoveJob ops sid s))"
proof (cases "gm_get (Service_activeJobs s) sid")
  case None
  then have "sid \<notin> set (gm_keys (Service_activeJobs s))" by (simp add: gm_get_keys)
  then show ?thesis using assms None by (simp add: RemoveJob_def HasJob_def gm_has_keys)
next
  case (Some i)
  have rem: "cron_entry ops (cron_Remove ops i c) = (cron_entry ops c)(i := None)" for c using assms(1) by (simp add: cron_engine_def)
  have inv: "gm_inv (Service_activeJobs s)" using assms(2) by (simp add: jobs_ok_def)
  have only: "sid' = sid" if "gm_get (Service_activeJobs s) sid' = Some i" for sid'
    using that Some assms(2) unfolding jobs_ok_def by (metis option.inject)
  let ?s = "snd (RemoveJob ops sid s)"
  have jobs: "Service_activeJobs ?s = gm_del sid (Service_activeJobs s)"
    and entry: "cron_entry ops (Service_cron ?s) = (cron_entry ops (Service_cron s))(i := None)"
    using Some by (simp_all add: RemoveJob_def rem)
  have get: "gm_get (Service_activeJobs ?s) sid' = (if sid' = sid then None else gm_get (Service_activeJobs s) sid')" for sid'
    using inv by (simp add: jobs gm.get_del)
  have "\<exists>job. cron_entry ops (Service_cron ?s) j = Some job \<and> ScheduledJob_ScheduleID job = sid'"
    if "gm_get (Service_activeJobs ?s) sid' = Some j" for sid' j
  proof -
    have j: "sid' \<noteq> sid" "gm_get (Service_activeJobs s) sid' = Some j" using that get by (auto split: if_splits)
    then have "j \<noteq> i" using only by blast
    then show ?thesis using assms(2) j(2) by (simp add: jobs_ok_def entry)
  qed
  then have "jobs_ok ops ?s" using inv by (simp add: jobs_ok_def jobs gm.inv_del)
  moreover have "gm_get (Service_activeJobs ?s) (ScheduledJob_ScheduleID job) = Some j"
    if "cron_entry ops (Service_cron ?s) j = Some job" for j job
  proof -
    have j: "j \<noteq> i" "cron_entry ops (Service_cron s) j = Some job" using that entry by (auto split: if_splits)
    then have "gm_get (Service_activeJobs s) (ScheduledJob_ScheduleID job) = Some j" using assms(3) by (simp add: no_orphans_def)
    then show ?thesis using j(1) Some by (auto simp: get)
  qed
  then have "no_orphans ops ?s" by (simp add: no_orphans_def)
  ultimately show ?thesis by (simp add: HasJob_def gm_has_keys jobs)
qed

text \<open>The services reached by adding a job for a schedule that has none, and by updating and removing jobs.\<close>

inductive service_reach :: "'c cron_ops \<Rightarrow> recovery_env \<Rightarrow> 'c SchedulerService \<Rightarrow> 'c SchedulerService \<Rightarrow> bool"
  for ops :: "'c cron_ops" and env :: recovery_env and s0 :: "'c SchedulerService" where
  "service_reach ops env s0 s0"
| "service_reach ops env s0 s \<Longrightarrow> \<not> HasJob (Schedule_ID sch) s \<Longrightarrow> service_reach ops env s0 (snd (AddJob ops env sch s))"
| "service_reach ops env s0 s \<Longrightarrow> service_reach ops env s0 (snd (UpdateJob ops env sch s))"
| "service_reach ops env s0 s \<Longrightarrow> service_reach ops env s0 (snd (RemoveJob ops sid s))"

text \<open>(C40)
  The table of active jobs and the entries of the cron engine correspond one to one, whatever jobs are added for new
  schedules, updated and removed, and whichever of these fail: every active job is an entry that runs its schedule,
  and every entry is the active job of its schedule.
\<close>

theorem active_jobs_entries:
  assumes "cron_engine ops" "service_reach ops env (NewSchedulerService c0 tbl cfg []) s" "cron_entry ops c0 = Map.empty"
  shows "gm_get (Service_activeJobs s) sid = Some i \<longleftrightarrow>
    (\<exists>job. cron_entry ops (Service_cron s) i = Some job \<and> ScheduledJob_ScheduleID job = sid)"
proof -
  from assms(2) have "jobs_ok ops s \<and> no_orphans ops s"
  proof (induction rule: service_reach.induct)
    case 1
    then show ?case using assms(3) by (simp add: jobs_ok_def no_orphans_def NewSchedulerService_def gm.inv_empty gm.get_empty)
  next
    case (2 s sch)
    then show ?case using AddJob_ok AddJob_no_orphans assms(1) by blast
  next
    case (3 s sch)
    then show ?case unfolding UpdateJob_def using RemoveJob_ok AddJob_ok AddJob_no_orphans assms(1) by blast
  next
    case (4 s sid)
    then show ?case using RemoveJob_ok assms(1) by blast
  qed
  then show ?thesis by (auto simp: jobs_ok_def no_orphans_def)
qed

text \<open>An example: an engine that numbers its entries.\<close>

definition numbered_cron :: "(entry_id \<times> (entry_id \<Rightarrow> ScheduledJob option)) cron_ops" where
  "numbered_cron = \<lparr>cron_AddFunc = \<lambda>expr job (n, m). if expr = [] then (Inl (), (n, m)) else (Inr n, (n + 1, m(n \<mapsto> job))),
     cron_Remove = \<lambda>i (n, m). (n, m(i := None)), cron_entry = \<lambda>(n, m) i. if i < n then m i else None\<rparr>"

lemma numbered_cron_engine: "cron_engine numbered_cron"
  by (auto simp: cron_engine_def numbered_cron_def fun_eq_iff split: if_splits)

definition demo_service :: "(entry_id \<times> (entry_id \<Rightarrow> ScheduledJob option)) SchedulerService" where
  "demo_service = NewSchedulerService (0, Map.empty) gm_empty DefaultRecoveryConfig []"

lemma demo_AddJob:
  "\<exists>job. AddJob numbered_cron (demo_env 5) hourly_schedule s =
    (Inr (fst (Service_cron s)), s\<lparr>Service_cron := (fst (Service_cron s) + 1, (snd (Service_cron s))(fst (Service_cron s) \<mapsto> job)),
      Service_activeJobs := gm_set ''s1'' (fst (Service_cron s)) (Service_activeJobs s)\<rparr>)"
proof -
  obtain job where "NewScheduledJob demo_parser (\<lambda>z. z = ''UTC'') (\<lambda>s. None) 1 5 hourly_schedule = Inr job"
    using NewScheduledJob_ok [of hourly_schedule "\<lambda>z. z = ''UTC''" demo_parser hourly "\<lambda>s. None" 1 5]
    by (auto simp: hourly_schedule_def demo_parser_def)
  then show ?thesis by (cases "Service_cron s") (auto simp: AddJob_def demo_env_def numbered_cron_def hourly_schedule_def)
qed

theorem active_jobs_entries_witness:
  "\<exists>s job. service_reach numbered_cron (demo_env 5) demo_service s \<and> gm_get (Service_activeJobs s) ''s1'' = Some 0 \<and>
    cron_entry numbered_cron (Service_cron s) 0 = Some job \<and> ScheduledJob_ScheduleID job = ''s1''"
proof -
  let ?s = "snd (AddJob numbered_cron (demo_env 5) hourly_schedule demo_service)"
  have "\<not> HasJob (Schedule_ID hourly_schedule) demo_service"
    by (simp add: HasJob_def demo_service_def NewSchedulerService_def gm_has_keys)
  then have reach: "service_reach numbered_cron (demo_env 5) (NewSchedulerService (0, Map.empty) gm_empty DefaultRecoveryConfig []) ?s"
    unfolding demo_service_def by (intro service_reach.intros)
  have get: "gm_get (Service_activeJobs ?s) ''s1'' = Some 0"
    using demo_AddJob [of demo_service] by (auto simp: gm.get_put demo_service_def NewSchedulerService_def)
  have "cron_entry numbered_cron (0, Map.empty) = Map.empty" by (simp add: numbered_cron_def fun_eq_iff)
  from active_jobs_entries [OF numbered_cron_engine reach this, of "''s1''" 0] get reach show ?thesis
    by (auto simp: demo_service_def)
qed

text \<open>(C39)
  Adding a job for a schedule that has one already leaves the old entry in the cron engine, where nothing can remove it:
  after removing the job of the schedule the service says that there is none, and the engine still runs one.
\<close>

theorem AddJob_leaks:
  assumes "cron_engine ops" "jobs_ok ops s" "HasJob (Schedule_ID sch) s" "AddJob ops env sch s = (Inr i, s')"
  shows "let s'' = snd (RemoveJob ops (Schedule_ID sch) s') in \<not> HasJob (Schedule_ID sch) s'' \<and>
    (\<exists>j job. cron_entry ops (Service_cron s'') j = Some job \<and> ScheduledJob_ScheduleID job = Schedule_ID sch)"
proof -
  obtain j job where old: "gm_get (Service_activeJobs s) (Schedule_ID sch) = Some j" "cron_entry ops (Service_cron s) j = Some job"
    "ScheduledJob_ScheduleID job = Schedule_ID sch"
    using assms(2,3) unfolding jobs_ok_def HasJob_def gm_has_keys by (metis gm_get_keys option.exhaust)
  from assms(1) show ?thesis
  proof (cases rule: AddJob_cases [where env = env and sch = sch and s = s])
    case (failed e t)
    then show ?thesis using assms(4) by simp
  next
    case (added k job' t)
    have "k \<noteq> j" using added(2) old(2) by auto
    moreover have "cron_entry ops (cron_Remove ops k c) = (cron_entry ops c)(k := None)" for c using assms(1) by (simp add: cron_engine_def)
    ultimately have "cron_entry ops (Service_cron (snd (RemoveJob ops (Schedule_ID sch) s'))) j = Some job"
      using added assms(4) old(2) by (simp add: RemoveJob_def gm.get_put)
    moreover have "\<not> HasJob (Schedule_ID sch) (snd (RemoveJob ops (Schedule_ID sch) s'))"
      using added assms(4) by (simp add: RemoveJob_def gm.get_put HasJob_def gm_has_keys)
    ultimately show ?thesis using old(3) by (auto simp: Let_def)
  qed
qed

theorem AddJob_leaks_witness:
  "\<exists>s. let s'' = snd (RemoveJob numbered_cron ''s1'' s) in \<not> HasJob ''s1'' s'' \<and>
    (\<exists>j job. cron_entry numbered_cron (Service_cron s'') j = Some job \<and> ScheduledJob_ScheduleID job = ''s1'')"
proof -
  let ?s = "snd (AddJob numbered_cron (demo_env 5) hourly_schedule demo_service)"
  have sid: "Schedule_ID hourly_schedule = ''s1''" by (simp add: hourly_schedule_def)
  have "jobs_ok numbered_cron demo_service"
    by (simp add: jobs_ok_def demo_service_def NewSchedulerService_def gm.inv_empty gm.get_empty)
  then have ok: "jobs_ok numbered_cron ?s" by (rule AddJob_ok [OF numbered_cron_engine])
  have has: "HasJob (Schedule_ID hourly_schedule) ?s"
    using demo_AddJob [of demo_service] by (auto simp: HasJob_def gm_has_keys sid)
  obtain i s' where add: "AddJob numbered_cron (demo_env 5) hourly_schedule ?s = (Inr i, s')" using demo_AddJob [of ?s] by auto
  from AddJob_leaks [OF numbered_cron_engine ok has add] show ?thesis unfolding sid by blast
qed

end
