(* ===== verification/Go_Crypto.thy ===== *)
theory Go_Crypto
  imports Go_Strings
begin

text \<open>
  What the program uses of Go's packages \<^verbatim>\<open>crypto/sha256\<close>, \<^verbatim>\<open>crypto/hmac\<close>, \<^verbatim>\<open>encoding/hex\<close> and
  \<^verbatim>\<open>encoding/base64\<close>: the hash function of FIPS 180-4 on 32-bit words, the keyed hash of RFC 2104, and the
  two text encodings. A byte slice is a string, one character for each byte.
\<close>

unbundle bit_operations_syntax

section \<open>Bytes and words\<close>

type_synonym byte = "8 word"

definition bytes :: "string \<Rightarrow> byte list" where
  "bytes s = map of_char s"

definition chars :: "byte list \<Rightarrow> string" where
  "chars bs = map (\<lambda>b. char_of (unat b)) bs"

text \<open>The big-endian encoding of a word with \<open>k\<close> bytes.\<close>

fun be_bytes :: "nat \<Rightarrow> nat \<Rightarrow> byte list" where
  "be_bytes 0 n = []"
| "be_bytes (Suc k) n = be_bytes k (n div 256) @ [of_nat (n mod 256)]"

definition be_word :: "byte list \<Rightarrow> 32 word" where
  "be_word bs = fold (\<lambda>b w. w * 256 + ucast b) bs 0"

function be_words :: "byte list \<Rightarrow> 32 word list" where
  "be_words bs = (if bs = [] then [] else be_word (take 4 bs) # be_words (drop 4 bs))"
  by pat_completeness auto
termination by (relation "measure length") auto

section \<open>SHA-256\<close>

definition rotr :: "nat \<Rightarrow> 32 word \<Rightarrow> 32 word" where
  "rotr n x = drop_bit n x OR push_bit (32 - n) x"

text \<open>
  The constants of the standard, by their definition: the first 32 bits of the fractional parts of the cube roots of the first 64
  primes, and of the square roots of the first eight. The primes and the bits of a root are searched for.
\<close>

definition primes_below :: "nat \<Rightarrow> nat list" where
  "primes_below n = filter (\<lambda>p. list_all (\<lambda>d. p mod d \<noteq> 0) [2..<p]) [2..<n]"

definition floor_root :: "nat \<Rightarrow> nat \<Rightarrow> nat" where
  "floor_root k n = fold (\<lambda>b r. if (r + 2 ^ b) ^ k \<le> n then r + 2 ^ b else r) (rev [0..<36]) 0"

definition root_fraction :: "nat \<Rightarrow> nat \<Rightarrow> 32 word" where
  "root_fraction k p = of_nat (floor_root k (p * 2 ^ (32 * k)))"

definition sha_K :: "32 word list" where
  "sha_K = map (root_fraction 3) (primes_below 312)"

definition sha_H0 :: "32 word list" where
  "sha_H0 = map (root_fraction 2) (primes_below 20)"

text \<open>The message schedule is built with its latest word first.\<close>

definition schedule_word :: "32 word list \<Rightarrow> 32 word" where
  "schedule_word ws =
     (let w2 = ws ! 1; w15 = ws ! 14
      in (rotr 17 w2 XOR rotr 19 w2 XOR drop_bit 10 w2) + ws ! 6 +
         (rotr 7 w15 XOR rotr 18 w15 XOR drop_bit 3 w15) + ws ! 15)"

definition sha_schedule :: "32 word list \<Rightarrow> 32 word list" where
  "sha_schedule block = rev (((\<lambda>ws. schedule_word ws # ws) ^^ 48) (rev block))"

fun sha_round :: "32 word \<times> 32 word \<Rightarrow> 32 word list \<Rightarrow> 32 word list" where
  "sha_round (k, w) [a, b, c, d, e, f, g, h] =
     (let t1 = h + (rotr 6 e XOR rotr 11 e XOR rotr 25 e) + ((e AND f) XOR (NOT e AND g)) + k + w;
          t2 = (rotr 2 a XOR rotr 13 a XOR rotr 22 a) + ((a AND b) XOR (a AND c) XOR (b AND c))
      in [t1 + t2, a, b, c, d + t1, e, f, g])"
| "sha_round kw st = st"

definition sha_block :: "32 word list \<Rightarrow> 32 word list \<Rightarrow> 32 word list" where
  "sha_block block st = map2 (+) st (fold sha_round (zip sha_K (sha_schedule block)) st)"

definition sha_pad :: "byte list \<Rightarrow> byte list" where
  "sha_pad m = m @ [0x80] @ replicate ((119 - length m mod 64) mod 64) 0 @ be_bytes 8 (8 * length m)"

function sha_blocks :: "32 word list \<Rightarrow> 32 word list list" where
  "sha_blocks ws = (if ws = [] then [] else take 16 ws # sha_blocks (drop 16 ws))"
  by pat_completeness auto
termination by (relation "measure length") auto

definition Sum256 :: "byte list \<Rightarrow> byte list" where
  "Sum256 m = concat (map (\<lambda>w. be_bytes 4 (unat w)) (fold sha_block (sha_blocks (be_words (sha_pad m))) sha_H0))"

section \<open>HMAC\<close>

definition hmac_key :: "byte list \<Rightarrow> byte list" where
  "hmac_key key = (let k = (if 64 < length key then Sum256 key else key) in k @ replicate (64 - length k) 0)"

definition hmac_sha256 :: "byte list \<Rightarrow> byte list \<Rightarrow> byte list" where
  "hmac_sha256 key m =
     (let k = hmac_key key
      in Sum256 (map (\<lambda>b. b XOR 0x5c) k @ Sum256 (map (\<lambda>b. b XOR 0x36) k @ m)))"

section \<open>Text encodings\<close>

definition hex_digits :: string where
  "hex_digits = ''0123456789abcdef''"

definition hex_EncodeToString :: "byte list \<Rightarrow> string" where
  "hex_EncodeToString bs = concat (map (\<lambda>b. [hex_digits ! (unat b div 16), hex_digits ! (unat b mod 16)]) bs)"

definition base64_letters :: string where
  "base64_letters = ''ABCDEFGHIJKLMNOPQRSTUVWXYZabcdefghijklmnopqrstuvwxyz0123456789''"

definition base64_std :: string where "base64_std = base64_letters @ ''+/''"
definition base64_url :: string where "base64_url = base64_letters @ ''-_''"

fun base64_EncodeToString :: "string \<Rightarrow> byte list \<Rightarrow> string" where
  "base64_EncodeToString al [] = []"
| "base64_EncodeToString al [a] =
     [al ! (unat a div 4), al ! (unat a mod 4 * 16), CHR ''='', CHR ''='']"
| "base64_EncodeToString al [a, b] =
     [al ! (unat a div 4), al ! (unat a mod 4 * 16 + unat b div 16), al ! (unat b mod 16 * 4), CHR ''='']"
| "base64_EncodeToString al (a # b # c # bs) =
     [al ! (unat a div 4), al ! (unat a mod 4 * 16 + unat b div 16),
      al ! (unat b mod 16 * 4 + unat c div 64), al ! (unat c mod 64)] @ base64_EncodeToString al bs"

definition TrimRight :: "string \<Rightarrow> char \<Rightarrow> string" where
  "TrimRight s c = rev (dropWhile (\<lambda>x. x = c) (rev s))"

declare be_words.simps [simp del] sha_blocks.simps [simp del]

section \<open>Lengths\<close>

lemma length_be_bytes [simp]: "length (be_bytes k n) = k"
  by (induction k arbitrary: n) auto

lemma length_sha_round [simp]: "length (sha_round kw st) = length st"
  by (cases "(kw, st)" rule: sha_round.cases) (auto simp: Let_def)

lemma length_sha_rounds [simp]: "length (fold sha_round kws st) = length st"
  by (induction kws arbitrary: st) auto

lemma length_sha_block [simp]: "length (sha_block b st) = length st"
  by (simp add: sha_block_def)

lemma length_sha_hash [simp]: "length (fold sha_block bs st) = length st"
  by (induction bs arbitrary: st) auto

lemma length_Sum256 [simp]: "length (Sum256 m) = 32"
proof -
  have "length (primes_below 20) = 8" by code_simp
  moreover have "length (concat (map (\<lambda>w. be_bytes 4 (unat w)) ws)) = 4 * length ws" for ws :: "32 word list"
    by (induction ws) auto
  ultimately show ?thesis by (simp add: Sum256_def sha_H0_def)
qed

lemma length_hmac_sha256 [simp]: "length (hmac_sha256 k m) = 32"
  by (simp add: hmac_sha256_def Let_def)

lemma length_hex [simp]: "length (hex_EncodeToString bs) = 2 * length bs"
  by (induction bs) (auto simp: hex_EncodeToString_def)

lemma length_hex_digits: "length hex_digits = 16"
  by (simp add: hex_digits_def)

lemma unat_byte: "unat (b :: byte) < 256"
  using unsigned_less [of b, where 'a = nat] by simp

lemma hex_EncodeToString_digits: "set (hex_EncodeToString bs) \<subseteq> set hex_digits"
proof -
  have "hex_digits ! (unat b div 16) \<in> set hex_digits" "hex_digits ! (unat b mod 16) \<in> set hex_digits" for b :: byte
    using unat_byte [of b] length_hex_digits by (auto intro!: nth_mem)
  then show ?thesis by (auto simp: hex_EncodeToString_def)
qed

text \<open>Both encodings lose nothing.\<close>

lemma hex_digit_inj: "i < 16 \<Longrightarrow> j < 16 \<Longrightarrow> hex_digits ! i = hex_digits ! j \<longleftrightarrow> i = j"
  by (rule nth_eq_iff_index_eq) (simp_all add: hex_digits_def)

lemma hex_EncodeToString_inj: "hex_EncodeToString bs = hex_EncodeToString cs \<Longrightarrow> bs = cs"
proof (induction bs arbitrary: cs)
  case Nil
  then show ?case by (cases cs) (auto simp: hex_EncodeToString_def)
next
  case (Cons b bs)
  then obtain c cs' where cs: "cs = c # cs'" by (cases cs) (auto simp: hex_EncodeToString_def)
  have lt: "unat x div 16 < 16" "unat x mod 16 < 16" for x :: byte using unat_byte [of x] by auto
  have "unat b div 16 = unat c div 16 \<and> unat b mod 16 = unat c mod 16 \<and> hex_EncodeToString bs = hex_EncodeToString cs'"
    using Cons.prems by (simp add: cs hex_EncodeToString_def hex_digit_inj lt)
  then show ?case using Cons.IH [of cs'] by (metis cs div_mult_mod_eq word_unat_eq_iff)
qed

end
