(* ===== verification/Go_Http.thy ===== *)
theory Go_Http
  imports Go_Strings
begin

text \<open>
  What the program uses of the headers of Go's package \<^verbatim>\<open>net/http\<close>.
\<close>

text \<open>The canonical form under which \<^verbatim>\<open>Header.Set\<close> stores a key.\<close>

definition header_char :: "char \<Rightarrow> bool" where
  "header_char c \<longleftrightarrow> is_lower c \<or> is_upper c \<or> is_digit c \<or> c \<in> set ''!#$%&*+-.^_|~'' \<or> c = CHR 0x27 \<or> c = CHR 0x60"

fun canon_chars :: "bool \<Rightarrow> string \<Rightarrow> string" where
  "canon_chars upper [] = []"
| "canon_chars upper (c # cs) =
     (let c' = (if upper \<and> is_lower c then char_of (of_char c - 32 :: nat)
                else if \<not> upper \<and> is_upper c then char_of (of_char c + 32 :: nat) else c)
      in c' # canon_chars (c' = CHR ''-'') cs)"

definition CanonicalHeaderKey :: "string \<Rightarrow> string" where
  "CanonicalHeaderKey k = (if list_all header_char k then canon_chars True k else k)"

definition Header_Set :: "string \<Rightarrow> string \<Rightarrow> (string, string) gmap \<Rightarrow> (string, string) gmap" where
  "Header_Set k v h = gm_set (CanonicalHeaderKey k) v h"

definition Header_Get :: "(string, string) gmap \<Rightarrow> string \<Rightarrow> string" where
  "Header_Get h k = gm_getd [] h (CanonicalHeaderKey k)"

end
