(* ===== verification/Webhook_Delivery.thy ===== *)
theory Webhook_Delivery
  imports Attempts Go_Float Go_Crypto Go_Http
begin

text \<open>
  The deliverer of \<^verbatim>\<open>internal/webhook/delivery.go\<close>: one HTTP request for each attempt, with a signature of the
  body, exponential backoff between the attempts, and the signature check a receiver makes. What lies outside of
  the file is an argument: the JSON encoder, the parser of URLs, the rendering of identifiers, the answer to each request
  with the time it took, the random numbers, and the branch taken by each wait.
\<close>

section \<open>Data\<close>

datatype DeliveryStatus =
    DeliveryStatusPending | DeliveryStatusDelivering | DeliveryStatusSuccess | DeliveryStatusFailed
  | DeliveryStatusRetrying | DeliveryStatusCancelled | DeliveryStatusOther string

definition delivery_IsTerminal :: "DeliveryStatus \<Rightarrow> bool" where
  "delivery_IsTerminal s \<longleftrightarrow> s = DeliveryStatusSuccess \<or> s = DeliveryStatusFailed \<or> s = DeliveryStatusCancelled"

datatype SendError = CreateRequest string | RequestFailed string | UnexpectedStatus int

record DeliveryResult =
  DeliveryResult_StatusCode :: int
  DeliveryResult_ResponseBody :: string
  DeliveryResult_Duration :: dur
  DeliveryResult_Attempt :: int
  DeliveryResult_Error :: "SendError option"

datatype DeliverError = SerializePayload string | DeliverCtxErr | DeliveryFailed int "SendError option"

record WebhookDelivery =
  WebhookDelivery_ID :: uuid
  WebhookDelivery_WebhookID :: uuid
  WebhookDelivery_EventType :: string
  WebhookDelivery_URL :: string
  WebhookDelivery_Status :: DeliveryStatus
  WebhookDelivery_StatusCode :: int
  WebhookDelivery_RequestBody :: string
  WebhookDelivery_ResponseBody :: string
  WebhookDelivery_DurationMS :: int
  WebhookDelivery_Attempt :: int
  WebhookDelivery_MaxRetries :: int
  WebhookDelivery_Error :: "DeliverError option"
  WebhookDelivery_CreatedAt :: gotime
  WebhookDelivery_UpdatedAt :: gotime

record DeliveryConfig =
  DeliveryConfig_TimeoutPerAttempt :: dur
  DeliveryConfig_MaxRetries :: int
  DeliveryConfig_BaseBackoff :: dur
  DeliveryConfig_MaxBackoff :: dur
  DeliveryConfig_JitterFactor :: rat

definition DefaultDeliveryConfig :: DeliveryConfig where
  "DefaultDeliveryConfig = \<lparr>DeliveryConfig_TimeoutPerAttempt = 30 * Second, DeliveryConfig_MaxRetries = 3,
     DeliveryConfig_BaseBackoff = 1 * Second, DeliveryConfig_MaxBackoff = 60 * Second,
     DeliveryConfig_JitterFactor = 2 / 10\<rparr>"

record Deliverer =
  Deliverer_clientTimeout :: dur
  Deliverer_config :: DeliveryConfig

definition NewDeliverer :: "DeliveryConfig \<Rightarrow> Deliverer" where
  "NewDeliverer c = \<lparr>Deliverer_clientTimeout = DeliveryConfig_TimeoutPerAttempt c, Deliverer_config = c\<rparr>"

text \<open>What the process meets outside: see above. Attempts are numbered from one.\<close>

record HttpRequest =
  HttpRequest_URL :: string
  HttpRequest_Header :: "(string, string) gmap"
  HttpRequest_Body :: string

record DeliveryEnv =
  denv_NewRequest :: "string \<Rightarrow> string option"
  denv_uuid :: "uuid \<Rightarrow> string"
  denv_Do :: "nat \<Rightarrow> HttpRequest \<Rightarrow> (string + int \<times> string) \<times> dur"
  denv_rand :: "nat \<Rightarrow> rat"
  denv_ovf :: int
  denv_done :: "nat \<Rightarrow> bool"
  denv_rng :: "string ranger"

section \<open>Signatures\<close>

definition generateHMAC :: "string \<Rightarrow> string \<Rightarrow> string" where
  "generateHMAC payload secret =
     (if secret = [] then [] else hex_EncodeToString (hmac_sha256 (bytes secret) (bytes payload)))"

definition VerifyHMAC :: "string \<Rightarrow> string \<Rightarrow> string \<Rightarrow> bool" where
  "VerifyHMAC payload secret signature =
     (if secret = [] \<or> signature = [] then False
      else let expected = generateHMAC payload secret in expected = signature)"

section \<open>Delivery\<close>

datatype 'v Payload = PayloadBytes string | PayloadRaw string | PayloadValue 'v

definition serializePayload :: "('v \<Rightarrow> string + string) \<Rightarrow> 'v Payload \<Rightarrow> string + string" where
  "serializePayload marshal payload =
     (case payload of PayloadBytes b \<Rightarrow> Inr b | PayloadRaw b \<Rightarrow> Inr b | PayloadValue v \<Rightarrow> marshal v)"

definition delivery_calculateBackoff :: "DeliveryConfig \<Rightarrow> nat \<Rightarrow> rat \<Rightarrow> int \<Rightarrow> dur" where
  "delivery_calculateBackoff c attempt u ovf =
     (let delay = float_dur ovf (of_int (DeliveryConfig_BaseBackoff c) * 2 powi (int attempt - 2));
          delay = (if DeliveryConfig_MaxBackoff c < delay then DeliveryConfig_MaxBackoff c else delay)
      in if 0 < DeliveryConfig_JitterFactor c
         then let jitter = float_dur ovf (of_int delay * DeliveryConfig_JitterFactor c * (u * 2 - 1));
                  delay = i64 (delay + jitter)
              in if delay < 0 then DeliveryConfig_BaseBackoff c else delay
         else delay)"

definition delivery_headers :: "DeliveryEnv \<Rightarrow> uuid \<Rightarrow> string \<Rightarrow> string \<Rightarrow> (string, string) gmap \<Rightarrow> nat \<Rightarrow> (string, string) gmap" where
  "delivery_headers env webhookID eventType signature headers attempt =
     (let h = Header_Set ''X-NexusPipe-Webhook-ID'' (denv_uuid env webhookID)
                (Header_Set ''X-NexusPipe-Delivery-Attempt'' (show_nat attempt)
                  (Header_Set ''X-NexusPipe-Event-Type'' eventType
                    (Header_Set ''User-Agent'' ''NexusPipe-Webhook/1.0''
                      (Header_Set ''Content-Type'' ''application/json'' gm_empty))));
          h = (if signature \<noteq> [] then Header_Set ''X-NexusPipe-Signature-256'' signature h else h)
      in fold (\<lambda>(k, v). Header_Set k v) (range_items (denv_rng env) attempt headers) h)"

definition sendAttempt ::
  "DeliveryEnv \<Rightarrow> uuid \<Rightarrow> string \<Rightarrow> string \<Rightarrow> string \<Rightarrow> string \<Rightarrow> (string, string) gmap \<Rightarrow> nat \<Rightarrow> DeliveryResult" where
  "sendAttempt env webhookID url eventType body signature headers attempt =
     (case denv_NewRequest env url of
        Some err \<Rightarrow> \<lparr>DeliveryResult_StatusCode = 0, DeliveryResult_ResponseBody = [], DeliveryResult_Duration = 0,
          DeliveryResult_Attempt = int attempt, DeliveryResult_Error = Some (CreateRequest err)\<rparr>
      | None \<Rightarrow>
          (case denv_Do env attempt \<lparr>HttpRequest_URL = url,
             HttpRequest_Header = delivery_headers env webhookID eventType signature headers attempt, HttpRequest_Body = body\<rparr> of
             (Inl err, duration) \<Rightarrow>
               \<lparr>DeliveryResult_StatusCode = 0, DeliveryResult_ResponseBody = [], DeliveryResult_Duration = duration,
                DeliveryResult_Attempt = int attempt, DeliveryResult_Error = Some (RequestFailed err)\<rparr>
           | (Inr (code, respBody), duration) \<Rightarrow>
               \<lparr>DeliveryResult_StatusCode = code, DeliveryResult_ResponseBody = take (1024 * 1024) respBody,
                DeliveryResult_Duration = duration, DeliveryResult_Attempt = int attempt,
                DeliveryResult_Error = (if 200 \<le> code \<and> code < 300 then None else Some (UnexpectedStatus code))\<rparr>))"

definition delivered :: "DeliveryResult \<Rightarrow> bool" where
  "delivered r \<longleftrightarrow> DeliveryResult_Error r = None \<and> 200 \<le> DeliveryResult_StatusCode r \<and> DeliveryResult_StatusCode r < 300"

text \<open>
  The loop of \<^verbatim>\<open>Deliver\<close>; \<open>send\<close> is the attempt with everything but its number. The result comes with the waits and the
  number of attempts. With no attempt at all the code reads the error of a nil result.
\<close>

function Deliver_loop ::
  "DeliveryConfig \<Rightarrow> DeliveryEnv \<Rightarrow> (nat \<Rightarrow> DeliveryResult) \<Rightarrow> nat \<Rightarrow> DeliveryResult option \<Rightarrow>
    (unit, DeliveryResult option \<times> DeliverError option) outcome \<times> dur list \<times> nat" where
  "Deliver_loop c env send attempt lastResult =
     (if \<not> int attempt \<le> DeliveryConfig_MaxRetries c
      then (case lastResult of
              None \<Rightarrow> Panic
            | Some r \<Rightarrow> Return (lastResult, Some (DeliveryFailed (DeliveryConfig_MaxRetries c) (DeliveryResult_Error r))), [], 0)
      else if attempt > 1 \<and> denv_done env attempt then (Return (lastResult, Some DeliverCtxErr), [], 0)
      else let waited = (if attempt > 1 then [delivery_calculateBackoff c attempt (denv_rand env attempt) (denv_ovf env)] else []);
               result = send attempt
           in if delivered result then (Return (Some result, None), waited, 1)
              else let (r, ds, n) = Deliver_loop c env send (Suc attempt) (Some result) in (r, waited @ ds, Suc n))"
  by pat_completeness auto
termination
  by (relation "measure (\<lambda>(c, env, send, attempt, lastResult). nat (DeliveryConfig_MaxRetries c + 1) - attempt)") auto

definition Deliver ::
  "('v \<Rightarrow> string + string) \<Rightarrow> Deliverer \<Rightarrow> DeliveryEnv \<Rightarrow> uuid \<Rightarrow> string \<Rightarrow> string \<Rightarrow> string \<Rightarrow> (string, string) gmap \<Rightarrow>
    'v Payload \<Rightarrow> (unit, DeliveryResult option \<times> DeliverError option) outcome \<times> dur list \<times> nat" where
  "Deliver marshal d env webhookID url eventType secret headers payload =
     (case serializePayload marshal payload of
        Inl err \<Rightarrow> (Return (None, Some (SerializePayload err)), [], 0)
      | Inr body \<Rightarrow>
          (let signature = generateHMAC body secret
           in Deliver_loop (Deliverer_config d) env
                (sendAttempt env webhookID url eventType body signature headers) 1 None))"

definition DeliverSync ::
  "('v \<Rightarrow> string + string) \<Rightarrow> DeliveryEnv \<Rightarrow> uuid \<Rightarrow> string \<Rightarrow> string \<Rightarrow> string \<Rightarrow> (string, string) gmap \<Rightarrow>
    'v Payload \<Rightarrow> string + DeliveryResult" where
  "DeliverSync marshal env webhookID url eventType secret headers payload =
     (case serializePayload marshal payload of
        Inl err \<Rightarrow> Inl err
      | Inr body \<Rightarrow>
          (let signature = generateHMAC body secret
           in Inr (sendAttempt env webhookID url eventType body signature headers 1)))"

declare Deliver_loop.simps [simp del]

text \<open>An example: the receiver answers the first request with status 500 and the others with 200.\<close>

definition flaky_env :: DeliveryEnv where
  "flaky_env = \<lparr>denv_NewRequest = (\<lambda>url. None), denv_uuid = (\<lambda>u. ''id''),
     denv_Do = (\<lambda>k req. (Inr (if k = 1 then 500 else 200, ''ok''), Millisecond)), denv_rand = (\<lambda>k. 1 / 2), denv_ovf = 0,
     denv_done = (\<lambda>k. False), denv_rng = (\<lambda>i ks. ks)\<rparr>"

section \<open>Lemmas\<close>

lemma generateHMAC_length: "secret \<noteq> [] \<Longrightarrow> length (generateHMAC payload secret) = 64"
  by (simp add: generateHMAC_def)

lemma generateHMAC_empty: "generateHMAC payload secret = [] \<longleftrightarrow> secret = []"
proof (cases "secret = []")
  case False
  then have "length (generateHMAC payload secret) \<noteq> 0" by (simp add: generateHMAC_length)
  with False show ?thesis by auto
qed (simp add: generateHMAC_def)

lemma headers_fold_other:
  "\<forall>(k', v') \<in> set kvs. CanonicalHeaderKey k' \<noteq> k \<Longrightarrow>
    gm_get (fold (\<lambda>(k, v). Header_Set k v) kvs h) k = gm_get h k"
  by (induction kvs arbitrary: h) (auto simp: Header_Set_def gm.get_put)

lemma delivery_headers_signature:
  assumes "ranger_ok (denv_rng env)" and "gm_inv headers" and "sig \<noteq> []"
    and "\<And>k. gm_has headers k \<Longrightarrow> CanonicalHeaderKey k \<noteq> CanonicalHeaderKey ''X-NexusPipe-Signature-256''"
  shows "Header_Get (delivery_headers env wid et sig headers attempt) ''X-NexusPipe-Signature-256'' = sig"
proof -
  have "\<forall>(k', v') \<in> set (range_items (denv_rng env) attempt headers).
      CanonicalHeaderKey k' \<noteq> CanonicalHeaderKey ''X-NexusPipe-Signature-256''"
    using assms(4) by (auto simp: set_range_items [OF assms(1,2)] gm_has_def)
  then show ?thesis
    using assms(3) by (simp add: Header_Get_def delivery_headers_def Let_def gm_getd_def headers_fold_other)
      (simp add: Header_Set_def gm.get_put)
qed

lemma delivered_sendAttempt:
  "delivered (sendAttempt env wid url et body sig headers k) \<longleftrightarrow> denv_NewRequest env url = None \<and>
    (\<exists>code resp d. denv_Do env k \<lparr>HttpRequest_URL = url, HttpRequest_Header = delivery_headers env wid et sig headers k,
      HttpRequest_Body = body\<rparr> = (Inr (code, resp), d) \<and> 200 \<le> code \<and> code < 300)"
  by (auto simp: delivered_def sendAttempt_def split: option.splits sum.splits prod.splits if_splits)

definition deliver_waits :: "DeliveryConfig \<Rightarrow> DeliveryEnv \<Rightarrow> nat \<Rightarrow> dur list" where
  "deliver_waits c env i =
     (if 1 < i then [delivery_calculateBackoff c i (denv_rand env i) (denv_ovf env)] else [])"

interpretation deliver_loop: attempt_loop "Deliver_loop c env send"
  "\<lambda>i. int i \<le> DeliveryConfig_MaxRetries c \<and> \<not> (1 < i \<and> denv_done env i) \<and> \<not> delivered (send i)"
  "\<lambda>i. Some (send i)" "add_wait (deliver_waits c env)"
  by unfold_locales
    (subst Deliver_loop.simps, auto simp: Let_def add_wait_def deliver_waits_def split: prod.splits)

lemma concat_deliver_waits:
  "concat (map (deliver_waits c env) [1..<n]) =
    map (\<lambda>i. delivery_calculateBackoff c i (denv_rand env i) (denv_ovf env)) [2..<n]"
proof (induction n)
  case (Suc n)
  then show ?case by (cases "n = 0"; cases "n = 1") (auto simp: deliver_waits_def)
qed simp

lemma Deliver_loop_fails:
  assumes "k \<le> nat (DeliveryConfig_MaxRetries c)" and "\<And>i. 1 \<le> i \<Longrightarrow> i \<le> k \<Longrightarrow> \<not> delivered (send i)"
    and "\<And>i. 1 < i \<Longrightarrow> i \<le> k \<Longrightarrow> \<not> denv_done env i"
  shows "Deliver_loop c env send 1 None =
    (let (r, ds, n) = Deliver_loop c env send (Suc k) (if k = 0 then None else Some (send k))
     in (r, map (\<lambda>i. delivery_calculateBackoff c i (denv_rand env i) (denv_ovf env)) [2..<Suc k] @ ds, k + n))"
proof -
  have fails: "int i \<le> DeliveryConfig_MaxRetries c \<and> \<not> (1 < i \<and> denv_done env i) \<and> \<not> delivered (send i)"
    if "1 \<le> i" "i < Suc k" for i using assms that by (cases "i = 1") auto
  obtain r ds n where run: "Deliver_loop c env send (Suc k) (if k = 0 then None else Some (send k)) = (r, ds, n)"
    by (metis prod.exhaust)
  have "Deliver_loop c env send 1 None =
      foldr (add_wait (deliver_waits c env)) [1..<Suc k] (Deliver_loop c env send (Suc k) (if 1 = Suc k then None else Some (send (Suc k - 1))))"
    by (rule deliver_loop.run_fails) (simp, rule fails)
  also have "(if 1 = Suc k then None else Some (send (Suc k - 1))) = (if k = 0 then None else Some (send k))" by simp
  finally show ?thesis
    unfolding run foldr_add_wait concat_deliver_waits by simp
qed

lemma delivery_backoff_jitter:
  fixes u :: rat
  assumes "0 \<le> DeliveryConfig_BaseBackoff c" and "0 \<le> DeliveryConfig_MaxBackoff c"
    and "DeliveryConfig_BaseBackoff c * 2 ^ k < 2 ^ 63"
    and "0 < DeliveryConfig_JitterFactor c" and "DeliveryConfig_JitterFactor c \<le> 1" and "0 \<le> u" and "u < 1"
  defines "D \<equiv> min (DeliveryConfig_MaxBackoff c) (DeliveryConfig_BaseBackoff c * 2 ^ k)"
  assumes "of_int D * (1 + DeliveryConfig_JitterFactor c) < 2 ^ 63"
  defines "x \<equiv> trunc (of_int D * DeliveryConfig_JitterFactor c * (u * 2 - 1))"
  shows "delivery_calculateBackoff c (k + 2) u ovf = D + x \<and> 0 \<le> D + x \<and> \<bar>of_int x\<bar> \<le> of_int D * DeliveryConfig_JitterFactor c"
proof -
  let ?j = "DeliveryConfig_JitterFactor c" and ?b = "DeliveryConfig_BaseBackoff c"
  have D: "0 \<le> D" using assms(1,2) by (simp add: D_def)
  have "0 \<le> ?b * 2 ^ k" using assms(1) by simp
  then have "i64_range (?b * 2 ^ k)" using assms(3) by (simp add: i64_range_def)
  then have "float_dur ovf (of_int ?b * 2 powi (int (k + 2) - 2)) = ?b * 2 ^ k"
    using float_dur_int [of "?b * 2 ^ k" ovf] by (simp add: power_int_def)
  then have d: "(let delay = float_dur ovf (of_int ?b * 2 powi (int (k + 2) - 2))
      in if DeliveryConfig_MaxBackoff c < delay then DeliveryConfig_MaxBackoff c else delay) = D"
    by (auto simp add: D_def min_def Let_def)
  note j = jitter_exact(1) [OF D assms(4-7,9), of ovf, folded x_def] jitter_exact(2) [OF D assms(4-7,9), folded x_def]
  have "of_int D * ?j \<le> of_int D" using D assms(5) by (simp add: mult_left_le)
  with j(2) have "of_int (- D) \<le> (of_int x :: rat)" by linarith
  then have "0 \<le> D + x" by linarith
  with d j assms(4) show ?thesis by (simp add: delivery_calculateBackoff_def Let_def)
qed

section \<open>Properties\<close>

text \<open>
  (C16) What \<open>Deliver\<close> does after \<open>k\<close> failed attempts: it waits the computed backoff between attempts, sends
  no more than \<open>MaxRetries\<close> requests, returns the first result with a 2xx status without an error, and otherwise the last
  result with the reason (the context ended during a wait, or the attempts are used up). A configuration without
  attempts makes it panic.
\<close>

theorem Deliver_correct:
  fixes env marshal
  defines "B \<equiv> \<lambda>c i. delivery_calculateBackoff c i (denv_rand env i) (denv_ovf env)"
  defines "send \<equiv> \<lambda>wid url et body secret headers. sendAttempt env wid url et body (generateHMAC body secret) headers"
  assumes "serializePayload marshal payload = Inr body" and "k \<le> nat (DeliveryConfig_MaxRetries (Deliverer_config d))"
    and "\<And>i. 1 \<le> i \<Longrightarrow> i \<le> k \<Longrightarrow> \<not> delivered (send wid url et body secret headers i)"
    and "\<And>i. 1 < i \<Longrightarrow> i \<le> k \<Longrightarrow> \<not> denv_done env i"
  shows "let c = Deliverer_config d; run = Deliver marshal d env wid url et secret headers payload;
      R = send wid url et body secret headers in
    (DeliveryConfig_MaxRetries c \<le> 0 \<longrightarrow> run = (Panic, [], 0)) \<and>
    (0 < k \<and> int k = DeliveryConfig_MaxRetries c \<longrightarrow>
      run = (Return (Some (R k), Some (DeliveryFailed (int k) (DeliveryResult_Error (R k)))), map (B c) [2..<Suc k], k)) \<and>
    (0 < k \<and> int k < DeliveryConfig_MaxRetries c \<and> denv_done env (Suc k) \<longrightarrow>
      run = (Return (Some (R k), Some DeliverCtxErr), map (B c) [2..<Suc k], k)) \<and>
    (int k < DeliveryConfig_MaxRetries c \<and> \<not> (0 < k \<and> denv_done env (Suc k)) \<and> delivered (R (Suc k)) \<longrightarrow>
      run = (Return (Some (R (Suc k)), None), map (B c) [2..<Suc (Suc k)], Suc k))"
proof -
  let ?c = "Deliverer_config d" and ?R = "send wid url et body secret headers"
  have run: "Deliver marshal d env wid url et secret headers payload =
      (let (r, ds, n) = Deliver_loop ?c env ?R (Suc k) (if k = 0 then None else Some (?R k))
       in (r, map (B ?c) [2..<Suc k] @ ds, k + n))"
    using Deliver_loop_fails [of k ?c ?R env] assms by (simp add: Deliver_def send_def B_def Let_def)
  have upt: "[2..<Suc (Suc k)] = [2..<Suc k] @ (if 0 < k then [Suc k] else [])" by auto
  show ?thesis
    unfolding Let_def run upt using assms(4)
    by (auto simp add: Deliver_loop.simps [of ?c env ?R "Suc k"] B_def simp del: upt_Suc)
qed

theorem Deliver_correct_witness:
  "\<exists>r. Deliver (\<lambda>v. Inr v) (NewDeliverer DefaultDeliveryConfig) flaky_env 7 ''http://x'' ''run.done'' ''key'' gm_empty (PayloadRaw ''{}'') =
      (Return (Some r, None), [Second], 2) \<and> DeliveryResult_StatusCode r = 200"
proof -
  let ?R = "sendAttempt flaky_env 7 ''http://x'' ''run.done'' ''{}'' (generateHMAC ''{}'' ''key'') gm_empty"
  have R: "\<not> delivered (?R 1)" "delivered (?R 2)" "DeliveryResult_StatusCode (?R 2) = 200"
    by (simp_all add: delivered_def sendAttempt_def flaky_env_def)
  have B: "delivery_calculateBackoff DefaultDeliveryConfig 2 (denv_rand flaky_env 2) (denv_ovf flaky_env) = Second"
    by code_simp
  have "Deliver (\<lambda>v. Inr v) (NewDeliverer DefaultDeliveryConfig) flaky_env 7 ''http://x'' ''run.done'' ''key'' gm_empty (PayloadRaw ''{}'') =
      (Return (Some (?R 2), None), [Second], 2)"
    using Deliver_correct [where marshal = "\<lambda>v. Inr v" and payload = "PayloadRaw ''{}''" and body = "''{}''" and k = 1
        and d = "NewDeliverer DefaultDeliveryConfig" and env = flaky_env and wid = 7 and url = "''http://x''"
        and et = "''run.done''" and secret = "''key''" and headers = gm_empty] R B
    by (simp add: serializePayload_def NewDeliverer_def DefaultDeliveryConfig_def flaky_env_def numeral_2_eq_2 Let_def)
  then show ?thesis using R(3) by blast
qed



text \<open>
  As long as nothing overflows, the wait before attempt \<open>k + 2\<close> is the doubled and capped backoff up to a jitter of the
  configured fraction, and never negative. The jitter comes after the cap: the wait may exceed \<open>MaxBackoff\<close>.
\<close>

theorem delivery_backoff_bounds:
  fixes u :: rat
  assumes "0 \<le> DeliveryConfig_BaseBackoff c" and "0 \<le> DeliveryConfig_MaxBackoff c"
    and "DeliveryConfig_BaseBackoff c * 2 ^ k < 2 ^ 63"
    and "0 < DeliveryConfig_JitterFactor c" and "DeliveryConfig_JitterFactor c \<le> 1" and "0 \<le> u" and "u < 1"
  defines "D \<equiv> min (DeliveryConfig_MaxBackoff c) (DeliveryConfig_BaseBackoff c * 2 ^ k)"
  assumes "of_int D * (1 + DeliveryConfig_JitterFactor c) < 2 ^ 63"
  shows "0 \<le> delivery_calculateBackoff c (k + 2) u ovf \<and>
    \<bar>of_int (delivery_calculateBackoff c (k + 2) u ovf) - of_int D\<bar> \<le> of_int D * DeliveryConfig_JitterFactor c"
  using delivery_backoff_jitter [OF assms(1-7), of ovf, folded D_def, OF assms(9)] by simp

theorem delivery_backoff_bounds_witness:
  "delivery_calculateBackoff DefaultDeliveryConfig 8 (9 / 10) 0 \<le> 72 * Second \<and>
    DeliveryConfig_MaxBackoff DefaultDeliveryConfig < delivery_calculateBackoff DefaultDeliveryConfig 8 (9 / 10) 0"
proof -
  have "\<bar>of_int (delivery_calculateBackoff DefaultDeliveryConfig 8 (9 / 10) 0) - of_int (60 * Second)\<bar> \<le> (of_int (12 * Second) :: rat)"
    using delivery_backoff_bounds [of DefaultDeliveryConfig 6 "9 / 10" 0] by (simp add: DefaultDeliveryConfig_def time_units)
  then have "of_int (delivery_calculateBackoff DefaultDeliveryConfig 8 (9 / 10) 0) \<le> (of_int (72 * Second) :: rat)"
    by (simp add: time_units)
  moreover have "DeliveryConfig_MaxBackoff DefaultDeliveryConfig < delivery_calculateBackoff DefaultDeliveryConfig 8 (9 / 10) 0"
    by code_simp
  ultimately show ?thesis unfolding of_int_le_iff by blast
qed

end
