(* ===== verification/Webhook_Manager.thy ===== *)
theory Webhook_Manager
  imports Webhook_Delivery
begin

text \<open>
  The registry of webhooks of \<^verbatim>\<open>internal/webhook/manager.go\<close>. The manager hands out pointers to its webhooks, which queued
  notifications keep: the webhooks are a store, in which a pointer is an index, and the map by identifier holds pointers.
  The fresh identifier and the clock are arguments; \<open>rng\<close> gives the orders of the loops over maps.
\<close>

section \<open>Data\<close>

datatype WebhookStatus = WebhookStatusActive | WebhookStatusInactive | WebhookStatusDisabled | WebhookStatusOther string

record Webhook =
  Webhook_ID :: uuid
  Webhook_Name :: string
  Webhook_URL :: string
  Webhook_Secret :: string
  Webhook_Status :: WebhookStatus
  Webhook_Events :: "string list"
  Webhook_Headers :: "(string, string) gmap"
  Webhook_RetryConfig :: DeliveryConfig
  Webhook_CreatedAt :: gotime
  Webhook_UpdatedAt :: gotime

record WebhookRegistration =
  Registration_Name :: string
  Registration_URL :: string
  Registration_Secret :: string
  Registration_Events :: "string list"
  Registration_Headers :: "(string, string) gmap"
  Registration_RetryConfig :: "DeliveryConfig option"

record WebhookUpdate =
  Update_Name :: "string option"
  Update_URL :: "string option"
  Update_Secret :: "string option"
  Update_Status :: "WebhookStatus option"
  Update_Events :: "string list option"
  Update_Headers :: "(string, string) gmap option"
  Update_RetryConfig :: "DeliveryConfig option"

record Subscription =
  Subscription_WebhookID :: uuid
  Subscription_EventType :: string
  Subscription_Active :: bool

record EventRouter =
  EventRouter_webhookID :: uuid
  EventRouter_name :: string
  EventRouter_events :: "string list"
  EventRouter_active :: bool

type_synonym webhook_ptr = nat

record WebhookManager =
  WebhookManager_store :: "Webhook list"
  WebhookManager_webhooks :: "(uuid, webhook_ptr) gmap"
  WebhookManager_eventRoutes :: "(string, EventRouter list) gmap"

datatype WebhookError = WebhookNameRequired | WebhookURLRequired | WebhookEventRequired | WebhookNotFound uuid

abbreviation webhook_at :: "WebhookManager \<Rightarrow> webhook_ptr \<Rightarrow> Webhook" where
  "webhook_at m p \<equiv> WebhookManager_store m ! p"

definition NewWebhookManager :: WebhookManager where
  "NewWebhookManager = \<lparr>WebhookManager_store = [], WebhookManager_webhooks = gm_empty, WebhookManager_eventRoutes = gm_empty\<rparr>"

section \<open>Event routes\<close>

definition mkRouter :: "Webhook \<Rightarrow> EventRouter" where
  "mkRouter wh = \<lparr>EventRouter_webhookID = Webhook_ID wh, EventRouter_name = Webhook_Name wh,
     EventRouter_events = Webhook_Events wh, EventRouter_active = (Webhook_Status wh = WebhookStatusActive)\<rparr>"

definition indexEventRoutes :: "Webhook \<Rightarrow> (string, EventRouter list) gmap \<Rightarrow> (string, EventRouter list) gmap" where
  "indexEventRoutes wh routes =
     fold (\<lambda>eventType routes. gm_set eventType (gm_getd [] routes eventType @ [mkRouter wh]) routes) (Webhook_Events wh) routes"

definition rebuildEventRoutes :: "uuid ranger \<Rightarrow> WebhookManager \<Rightarrow> WebhookManager" where
  "rebuildEventRoutes rng m = m\<lparr>WebhookManager_eventRoutes :=
     fold (\<lambda>(i, p). indexEventRoutes (webhook_at m p)) (range_items rng 0 (WebhookManager_webhooks m)) gm_empty\<rparr>"

text \<open>An assignment through the pointer \<open>p\<close>.\<close>

definition set_webhook :: "webhook_ptr \<Rightarrow> Webhook \<Rightarrow> WebhookManager \<Rightarrow> WebhookManager" where
  "set_webhook p wh m = m\<lparr>WebhookManager_store := (WebhookManager_store m)[p := wh]\<rparr>"

section \<open>Operations\<close>

definition mkWebhook :: "string ranger \<Rightarrow> uuid \<Rightarrow> gotime \<Rightarrow> WebhookRegistration \<Rightarrow> Webhook" where
  "mkWebhook rng newID now reg =
     \<lparr>Webhook_ID = newID, Webhook_Name = Registration_Name reg, Webhook_URL = Registration_URL reg,
      Webhook_Secret = Registration_Secret reg, Webhook_Status = WebhookStatusActive, Webhook_Events = Registration_Events reg,
      Webhook_Headers = fold (\<lambda>(k, v). gm_set k v) (range_items rng 0 (Registration_Headers reg)) gm_empty,
      Webhook_RetryConfig = (case Registration_RetryConfig reg of Some c \<Rightarrow> c | None \<Rightarrow> DefaultDeliveryConfig),
      Webhook_CreatedAt = now, Webhook_UpdatedAt = now\<rparr>"

definition RegisterWebhook ::
  "string ranger \<Rightarrow> uuid \<Rightarrow> gotime \<Rightarrow> WebhookRegistration \<Rightarrow> WebhookManager \<Rightarrow> WebhookError + (webhook_ptr \<times> WebhookManager)" where
  "RegisterWebhook rng newID now reg m =
     (if Registration_Name reg = [] then Inl WebhookNameRequired
      else if Registration_URL reg = [] then Inl WebhookURLRequired
      else if length (Registration_Events reg) = 0 then Inl WebhookEventRequired
      else let wh = mkWebhook rng newID now reg;
               p = length (WebhookManager_store m)
           in Inr (p, m\<lparr>WebhookManager_store := WebhookManager_store m @ [wh],
                WebhookManager_webhooks := gm_set newID p (WebhookManager_webhooks m),
                WebhookManager_eventRoutes := indexEventRoutes wh (WebhookManager_eventRoutes m)\<rparr>))"

definition assign :: "'a option \<Rightarrow> ('a \<Rightarrow> 'r \<Rightarrow> 'r) \<Rightarrow> 'r \<Rightarrow> 'r" where
  "assign upd f r = (case upd of None \<Rightarrow> r | Some v \<Rightarrow> f v r)"

definition UpdateWebhook ::
  "uuid ranger \<Rightarrow> uuid \<Rightarrow> WebhookUpdate \<Rightarrow> gotime \<Rightarrow> WebhookManager \<Rightarrow> WebhookError + (webhook_ptr \<times> WebhookManager)" where
  "UpdateWebhook rng i u now m =
     (case gm_get (WebhookManager_webhooks m) i of
        None \<Rightarrow> Inl (WebhookNotFound i)
      | Some p \<Rightarrow>
          (let wh = assign (Update_Status u) (\<lambda>v. Webhook_Status_update (\<lambda>_. v))
                 (assign (Update_Secret u) (\<lambda>v. Webhook_Secret_update (\<lambda>_. v))
                   (assign (Update_URL u) (\<lambda>v. Webhook_URL_update (\<lambda>_. v))
                     (assign (Update_Name u) (\<lambda>v. Webhook_Name_update (\<lambda>_. v)) (webhook_at m p))));
               m1 = (case Update_Events u of
                       None \<Rightarrow> set_webhook p wh m
                     | Some evs \<Rightarrow> rebuildEventRoutes rng (set_webhook p (wh\<lparr>Webhook_Events := evs\<rparr>) m));
               wh2 = assign (Update_RetryConfig u) (\<lambda>v. Webhook_RetryConfig_update (\<lambda>_. v))
                 (assign (Update_Headers u) (\<lambda>v. Webhook_Headers_update (\<lambda>_. v)) (webhook_at m1 p))
           in Inr (p, set_webhook p (wh2\<lparr>Webhook_UpdatedAt := now\<rparr>) m1)))"

definition DeleteWebhook :: "uuid ranger \<Rightarrow> uuid \<Rightarrow> WebhookManager \<Rightarrow> WebhookError + WebhookManager" where
  "DeleteWebhook rng i m =
     (if \<not> gm_has (WebhookManager_webhooks m) i then Inl (WebhookNotFound i)
      else Inr (rebuildEventRoutes rng (m\<lparr>WebhookManager_webhooks := gm_del i (WebhookManager_webhooks m)\<rparr>)))"

definition GetWebhook :: "WebhookManager \<Rightarrow> uuid \<Rightarrow> webhook_ptr option" where
  "GetWebhook m i = gm_get (WebhookManager_webhooks m) i"

definition ListWebhooks :: "uuid ranger \<Rightarrow> WebhookManager \<Rightarrow> webhook_ptr list" where
  "ListWebhooks rng m = map snd (range_items rng 0 (WebhookManager_webhooks m))"

definition ListActiveWebhooks :: "uuid ranger \<Rightarrow> WebhookManager \<Rightarrow> webhook_ptr list" where
  "ListActiveWebhooks rng m =
     filter (\<lambda>p. Webhook_Status (webhook_at m p) = WebhookStatusActive) (map snd (range_items rng 0 (WebhookManager_webhooks m)))"

definition setWebhookStatus :: "uuid \<Rightarrow> WebhookStatus \<Rightarrow> gotime \<Rightarrow> WebhookManager \<Rightarrow> WebhookError + WebhookManager" where
  "setWebhookStatus i status now m =
     (case gm_get (WebhookManager_webhooks m) i of
        None \<Rightarrow> Inl (WebhookNotFound i)
      | Some p \<Rightarrow> Inr (set_webhook p ((webhook_at m p)\<lparr>Webhook_Status := status, Webhook_UpdatedAt := now\<rparr>) m))"

definition ActivateWebhook :: "uuid \<Rightarrow> gotime \<Rightarrow> WebhookManager \<Rightarrow> WebhookError + WebhookManager" where
  "ActivateWebhook i now m = setWebhookStatus i WebhookStatusActive now m"

definition DeactivateWebhook :: "uuid \<Rightarrow> gotime \<Rightarrow> WebhookManager \<Rightarrow> WebhookError + WebhookManager" where
  "DeactivateWebhook i now m = setWebhookStatus i WebhookStatusInactive now m"

text \<open>The body of the three loops over the routers of an event.\<close>

definition router_target :: "WebhookManager \<Rightarrow> EventRouter \<Rightarrow> webhook_ptr option" where
  "router_target m r =
     (if \<not> EventRouter_active r then None
      else case gm_get (WebhookManager_webhooks m) (EventRouter_webhookID r) of
             Some p \<Rightarrow> if Webhook_Status (webhook_at m p) = WebhookStatusActive then Some p else None
           | None \<Rightarrow> None)"

definition GetWebhooksForEvent :: "WebhookManager \<Rightarrow> string \<Rightarrow> webhook_ptr list" where
  "GetWebhooksForEvent m eventType =
     (case gm_get (WebhookManager_eventRoutes m) eventType of
        None \<Rightarrow> []
      | Some routers \<Rightarrow> fold (\<lambda>r acc. case router_target m r of Some p \<Rightarrow> acc @ [p] | None \<Rightarrow> acc) routers [])"

definition MatchWebhooks :: "WebhookManager \<Rightarrow> string \<Rightarrow> webhook_ptr list" where
  "MatchWebhooks m eventType = GetWebhooksForEvent m eventType"

definition HasSubscribers :: "WebhookManager \<Rightarrow> string \<Rightarrow> bool" where
  "HasSubscribers m eventType =
     (case gm_get (WebhookManager_eventRoutes m) eventType of
        None \<Rightarrow> False | Some routers \<Rightarrow> list_ex (\<lambda>r. router_target m r \<noteq> None) routers)"

definition SubscriberCount :: "WebhookManager \<Rightarrow> string \<Rightarrow> int" where
  "SubscriberCount m eventType =
     (case gm_get (WebhookManager_eventRoutes m) eventType of
        None \<Rightarrow> 0
      | Some routers \<Rightarrow> fold (\<lambda>r count. if router_target m r \<noteq> None then count + 1 else count) routers 0)"

definition set_events :: "uuid ranger \<Rightarrow> webhook_ptr \<Rightarrow> string list \<Rightarrow> WebhookManager \<Rightarrow> WebhookManager" where
  "set_events rng p events m = rebuildEventRoutes rng (set_webhook p ((webhook_at m p)\<lparr>Webhook_Events := events\<rparr>) m)"

definition SubscribeToEvents :: "uuid ranger \<Rightarrow> uuid \<Rightarrow> string list \<Rightarrow> WebhookManager \<Rightarrow> WebhookError + WebhookManager" where
  "SubscribeToEvents rng i events m =
     (case gm_get (WebhookManager_webhooks m) i of
        None \<Rightarrow> Inl (WebhookNotFound i) | Some p \<Rightarrow> Inr (set_events rng p events m))"

definition AddEventSubscription :: "uuid ranger \<Rightarrow> uuid \<Rightarrow> string \<Rightarrow> WebhookManager \<Rightarrow> WebhookError + WebhookManager" where
  "AddEventSubscription rng i eventType m =
     (case gm_get (WebhookManager_webhooks m) i of
        None \<Rightarrow> Inl (WebhookNotFound i)
      | Some p \<Rightarrow>
          if list_ex (\<lambda>e. e = eventType) (Webhook_Events (webhook_at m p)) then Inr m
          else Inr (set_events rng p (Webhook_Events (webhook_at m p) @ [eventType]) m))"

definition RemoveEventSubscription :: "uuid ranger \<Rightarrow> uuid \<Rightarrow> string \<Rightarrow> WebhookManager \<Rightarrow> WebhookError + WebhookManager" where
  "RemoveEventSubscription rng i eventType m =
     (case gm_get (WebhookManager_webhooks m) i of
        None \<Rightarrow> Inl (WebhookNotFound i)
      | Some p \<Rightarrow> Inr (set_events rng p (filter (\<lambda>e. e \<noteq> eventType) (Webhook_Events (webhook_at m p))) m))"

definition GetSubscriptions :: "WebhookManager \<Rightarrow> uuid \<Rightarrow> Subscription list option" where
  "GetSubscriptions m i =
     (case gm_get (WebhookManager_webhooks m) i of
        None \<Rightarrow> None
      | Some p \<Rightarrow> Some (map (\<lambda>e. \<lparr>Subscription_WebhookID = Webhook_ID (webhook_at m p), Subscription_EventType = e,
            Subscription_Active = (Webhook_Status (webhook_at m p) = WebhookStatusActive)\<rparr>) (Webhook_Events (webhook_at m p))))"

definition CountWebhooks :: "WebhookManager \<Rightarrow> nat" where
  "CountWebhooks m = gm_len (WebhookManager_webhooks m)"

definition CountActiveWebhooks :: "uuid ranger \<Rightarrow> WebhookManager \<Rightarrow> int" where
  "CountActiveWebhooks rng m =
     fold (\<lambda>(i, p) count. if Webhook_Status (webhook_at m p) = WebhookStatusActive then count + 1 else count)
       (range_items rng 0 (WebhookManager_webhooks m)) 0"

section \<open>Definitions for the statements\<close>

text \<open>The webhooks registered for an event, whatever their status.\<close>

definition subscribed :: "WebhookManager \<Rightarrow> string \<Rightarrow> uuid set" where
  "subscribed m ev = {i. \<exists>p. gm_get (WebhookManager_webhooks m) i = Some p \<and> ev \<in> set (Webhook_Events (webhook_at m p))}"

text \<open>The webhooks an event should reach.\<close>

definition matching :: "WebhookManager \<Rightarrow> string \<Rightarrow> webhook_ptr set" where
  "matching m ev = {p. \<exists>i. gm_get (WebhookManager_webhooks m) i = Some p \<and> ev \<in> set (Webhook_Events (webhook_at m p)) \<and>
     Webhook_Status (webhook_at m p) = WebhookStatusActive}"

definition pointers_ok :: "WebhookManager \<Rightarrow> bool" where
  "pointers_ok m \<longleftrightarrow> gm_inv (WebhookManager_webhooks m) \<and>
     (\<forall>i p. gm_get (WebhookManager_webhooks m) i = Some p \<longrightarrow>
        p < length (WebhookManager_store m) \<and> Webhook_ID (webhook_at m p) = i)"

definition manager_ok :: "WebhookManager \<Rightarrow> bool" where
  "manager_ok m \<longleftrightarrow> pointers_ok m \<and>
     (\<forall>ev. EventRouter_webhookID ` set (gm_getd [] (WebhookManager_eventRoutes m) ev) = subscribed m ev)"

inductive manager_reachable :: "WebhookManager \<Rightarrow> bool" where
  new: "manager_reachable NewWebhookManager"
| register: "manager_reachable m \<Longrightarrow> \<not> gm_has (WebhookManager_webhooks m) i \<Longrightarrow> RegisterWebhook hrng i now reg m = Inr (p, m') \<Longrightarrow>
    manager_reachable m'"
| update: "manager_reachable m \<Longrightarrow> ranger_ok rng \<Longrightarrow> UpdateWebhook rng i u now m = Inr (p, m') \<Longrightarrow> manager_reachable m'"
| delete: "manager_reachable m \<Longrightarrow> ranger_ok rng \<Longrightarrow> DeleteWebhook rng i m = Inr m' \<Longrightarrow> manager_reachable m'"
| status: "manager_reachable m \<Longrightarrow> setWebhookStatus i s now m = Inr m' \<Longrightarrow> manager_reachable m'"
| subscribe: "manager_reachable m \<Longrightarrow> ranger_ok rng \<Longrightarrow> SubscribeToEvents rng i evs m = Inr m' \<Longrightarrow> manager_reachable m'"
| add: "manager_reachable m \<Longrightarrow> ranger_ok rng \<Longrightarrow> AddEventSubscription rng i ev m = Inr m' \<Longrightarrow> manager_reachable m'"
| remove: "manager_reachable m \<Longrightarrow> ranger_ok rng \<Longrightarrow> RemoveEventSubscription rng i ev m = Inr m' \<Longrightarrow> manager_reachable m'"

text \<open>An example: two webhooks for the same event.\<close>

definition example_registration :: "string \<Rightarrow> WebhookRegistration" where
  "example_registration name = \<lparr>Registration_Name = name, Registration_URL = ''http://x'', Registration_Secret = [],
     Registration_Events = [''run.done''], Registration_Headers = gm_empty, Registration_RetryConfig = None\<rparr>"

definition example_manager :: WebhookManager where
  "example_manager = snd (projr (RegisterWebhook (\<lambda>i ks. ks) 2 0 (example_registration ''b'')
     (snd (projr (RegisterWebhook (\<lambda>i ks. ks) 1 0 (example_registration ''a'') NewWebhookManager)))))"

section \<open>Lemmas\<close>

lemma rebuild_simps [simp]:
  "WebhookManager_store (rebuildEventRoutes rng m) = WebhookManager_store m"
  "WebhookManager_webhooks (rebuildEventRoutes rng m) = WebhookManager_webhooks m"
  "WebhookManager_webhooks (set_webhook p wh m) = WebhookManager_webhooks m"
  "WebhookManager_eventRoutes (set_webhook p wh m) = WebhookManager_eventRoutes m"
  "length (WebhookManager_store (set_webhook p wh m)) = length (WebhookManager_store m)"
  by (simp_all add: rebuildEventRoutes_def set_webhook_def)

lemma set_webhook_at [simp]:
  "q < length (WebhookManager_store m) \<Longrightarrow> webhook_at (set_webhook p wh m) q = (if q = p then wh else webhook_at m q)"
  by (simp add: set_webhook_def nth_update)

lemma index_routes:
  "set (gm_getd [] (fold (\<lambda>e routes. gm_set e (gm_getd [] routes e @ [r]) routes) evs R) ev) =
    set (gm_getd [] R ev) \<union> (if ev \<in> set evs then {r} else {})"
  by (induction evs arbitrary: R) auto

lemma indexEventRoutes_set:
  "set (gm_getd [] (indexEventRoutes wh R) ev) =
    set (gm_getd [] R ev) \<union> (if ev \<in> set (Webhook_Events wh) then {mkRouter wh} else {})"
  by (simp add: indexEventRoutes_def index_routes)

lemma index_all_routes:
  "r \<in> set (gm_getd [] (fold (\<lambda>(i, p). indexEventRoutes (w p)) ips R) ev) \<longleftrightarrow>
    r \<in> set (gm_getd [] R ev) \<or> (\<exists>(i, p) \<in> set ips. ev \<in> set (Webhook_Events (w p)) \<and> r = mkRouter (w p))"
proof (induction ips arbitrary: R)
  case (Cons x ips)
  then show ?case by (cases x) (simp add: indexEventRoutes_set)
qed simp

lemma rebuild_routes:
  assumes "ranger_ok rng" and "gm_inv (WebhookManager_webhooks m)"
  shows "r \<in> set (gm_getd [] (WebhookManager_eventRoutes (rebuildEventRoutes rng m)) ev) \<longleftrightarrow>
    (\<exists>i p. gm_get (WebhookManager_webhooks m) i = Some p \<and> ev \<in> set (Webhook_Events (webhook_at m p)) \<and> r = mkRouter (webhook_at m p))"
  by (simp add: rebuildEventRoutes_def index_all_routes set_range_items [OF assms])

lemma rebuild_ok:
  assumes "pointers_ok m" and "ranger_ok rng"
  shows "manager_ok (rebuildEventRoutes rng m)"
proof -
  have "EventRouter_webhookID ` set (gm_getd [] (WebhookManager_eventRoutes (rebuildEventRoutes rng m)) ev) = subscribed m ev" for ev
  proof -
    have inv: "gm_inv (WebhookManager_webhooks m)" using assms(1) by (simp add: pointers_ok_def)
    have router: "EventRouter_webhookID (mkRouter (webhook_at m p)) = i" if "gm_get (WebhookManager_webhooks m) i = Some p" for i p
      using that assms(1) by (simp add: mkRouter_def pointers_ok_def)
    show ?thesis
    proof (intro set_eqI iffI)
      fix i
      assume "i \<in> EventRouter_webhookID ` set (gm_getd [] (WebhookManager_eventRoutes (rebuildEventRoutes rng m)) ev)"
      then obtain r where "EventRouter_webhookID r = i" "r \<in> set (gm_getd [] (WebhookManager_eventRoutes (rebuildEventRoutes rng m)) ev)"
        by blast
      with router show "i \<in> subscribed m ev" unfolding rebuild_routes [OF assms(2) inv] subscribed_def by blast
    next
      fix i
      assume "i \<in> subscribed m ev"
      then obtain p where "gm_get (WebhookManager_webhooks m) i = Some p" "ev \<in> set (Webhook_Events (webhook_at m p))"
        by (auto simp: subscribed_def)
      with router [OF this(1)] rebuild_routes [OF assms(2) inv, of "mkRouter (webhook_at m p)" ev]
      show "i \<in> EventRouter_webhookID ` set (gm_getd [] (WebhookManager_eventRoutes (rebuildEventRoutes rng m)) ev)" by blast
    qed
  qed
  then show ?thesis using assms(1) by (simp add: manager_ok_def pointers_ok_def subscribed_def)
qed

lemma pointers_inj:
  "pointers_ok m \<Longrightarrow> gm_get (WebhookManager_webhooks m) i = Some p \<Longrightarrow> gm_get (WebhookManager_webhooks m) j = Some p \<Longrightarrow> i = j"
  by (auto simp: pointers_ok_def)

lemma set_webhook_pointers:
  assumes "pointers_ok m" and "gm_get (WebhookManager_webhooks m) i = Some p" and "Webhook_ID wh = i"
  shows "pointers_ok (set_webhook p wh m)"
  unfolding pointers_ok_def
proof (intro conjI allI impI)
  show "gm_inv (WebhookManager_webhooks (set_webhook p wh m))" using assms(1) by (simp add: pointers_ok_def)
  fix j q
  assume "gm_get (WebhookManager_webhooks (set_webhook p wh m)) j = Some q"
  then have q: "gm_get (WebhookManager_webhooks m) j = Some q" by simp
  then have l: "q < length (WebhookManager_store m)" "Webhook_ID (webhook_at m q) = j" using assms(1) by (auto simp: pointers_ok_def)
  then show "q < length (WebhookManager_store (set_webhook p wh m))" by simp
  show "Webhook_ID (webhook_at (set_webhook p wh m) q) = j"
    using l pointers_inj [OF assms(1,2), of j] q assms(3) by (cases "q = p") simp_all
qed

lemma set_webhook_ok:
  assumes "manager_ok m" and "gm_get (WebhookManager_webhooks m) i = Some p" and "Webhook_ID wh = i"
    and "Webhook_Events wh = Webhook_Events (webhook_at m p)"
  shows "manager_ok (set_webhook p wh m)"
proof -
  have "webhook_at (set_webhook p wh m) q = (if q = p then wh else webhook_at m q)"
    if "gm_get (WebhookManager_webhooks m) j = Some q" for j q
    using that assms(1) by (auto simp: manager_ok_def pointers_ok_def)
  then have "subscribed (set_webhook p wh m) ev = subscribed m ev" for ev
    using assms(4) by (auto simp: subscribed_def split: if_splits)
  then show ?thesis using assms set_webhook_pointers [of m i p wh] by (simp add: manager_ok_def)
qed

lemma set_events_ok:
  assumes "manager_ok m" and "ranger_ok rng" and "gm_get (WebhookManager_webhooks m) i = Some p"
  shows "manager_ok (set_events rng p evs m)"
proof -
  have "Webhook_ID (webhook_at m p) = i" using assms by (auto simp: manager_ok_def pointers_ok_def)
  then have "pointers_ok (set_webhook p ((webhook_at m p)\<lparr>Webhook_Events := evs\<rparr>) m)"
    using assms by (intro set_webhook_pointers [of m i]) (simp_all add: manager_ok_def)
  then show ?thesis unfolding set_events_def by (rule rebuild_ok [OF _ assms(2)])
qed

lemma assign_same: "(\<And>v r. g (f v r) = g r) \<Longrightarrow> g (assign u f r) = g r"
  by (simp add: assign_def split: option.splits)

lemma RegisterWebhook_ok:
  assumes "manager_ok m" and "\<not> gm_has (WebhookManager_webhooks m) i" and "RegisterWebhook hrng i now reg m = Inr (p, m')"
  shows "manager_ok m'"
proof -
  let ?n = "length (WebhookManager_store m)"
  define wh where "wh = mkWebhook hrng i now reg"
  have ID: "Webhook_ID wh = i" by (simp add: wh_def mkWebhook_def)
  have m': "m' = m\<lparr>WebhookManager_store := WebhookManager_store m @ [wh],
      WebhookManager_webhooks := gm_set i ?n (WebhookManager_webhooks m),
      WebhookManager_eventRoutes := indexEventRoutes wh (WebhookManager_eventRoutes m)\<rparr>"
    using assms(3) by (auto simp: RegisterWebhook_def Let_def wh_def split: if_splits)
  have ptr: "q < ?n" if "gm_get (WebhookManager_webhooks m) j = Some q" for j q
    using that assms(1) by (auto simp: manager_ok_def pointers_ok_def)
  have "subscribed m' ev = subscribed m ev \<union> (if ev \<in> set (Webhook_Events wh) then {i} else {})" for ev
    using assms(2) ptr by (auto simp: subscribed_def m' gm.get_put gm_has_def nth_append split: if_splits)
  moreover have "pointers_ok m'"
    using assms(1) ID ptr
    by (auto simp: manager_ok_def pointers_ok_def m' gm.get_put gm.inv_put nth_append less_Suc_eq split: if_splits)
  ultimately show ?thesis
    using assms(1) ID by (auto simp: manager_ok_def m' indexEventRoutes_set mkRouter_def image_Un)
qed

lemma UpdateWebhook_ok:
  assumes "manager_ok m" and "ranger_ok rng" and "UpdateWebhook rng i u now m = Inr (p, m')"
  shows "manager_ok m'"
proof -
  from assms(3) have p: "gm_get (WebhookManager_webhooks m) i = Some p"
    by (auto simp: UpdateWebhook_def Let_def split: option.splits)
  have base: "pointers_ok m" "Webhook_ID (webhook_at m p) = i"
    using p assms(1) by (auto simp: manager_ok_def pointers_ok_def)
  define wh where "wh = assign (Update_Status u) (\<lambda>v. Webhook_Status_update (\<lambda>_. v))
       (assign (Update_Secret u) (\<lambda>v. Webhook_Secret_update (\<lambda>_. v))
         (assign (Update_URL u) (\<lambda>v. Webhook_URL_update (\<lambda>_. v))
           (assign (Update_Name u) (\<lambda>v. Webhook_Name_update (\<lambda>_. v)) (webhook_at m p))))"
  have wh: "Webhook_ID wh = i" "Webhook_Events wh = Webhook_Events (webhook_at m p)"
    using base(2) by (simp_all add: wh_def assign_same [where g = Webhook_ID] assign_same [where g = Webhook_Events])
  define m1 where "m1 = (case Update_Events u of None \<Rightarrow> set_webhook p wh m
      | Some evs \<Rightarrow> rebuildEventRoutes rng (set_webhook p (wh\<lparr>Webhook_Events := evs\<rparr>) m))"
  have m1: "manager_ok m1" "gm_get (WebhookManager_webhooks m1) i = Some p"
    using set_webhook_ok [OF assms(1) p wh] rebuild_ok [OF set_webhook_pointers [OF base(1) p] assms(2)] wh(1) p
    by (auto simp: m1_def split: option.splits)
  have m': "m' = set_webhook p ((assign (Update_RetryConfig u) (\<lambda>v. Webhook_RetryConfig_update (\<lambda>_. v))
       (assign (Update_Headers u) (\<lambda>v. Webhook_Headers_update (\<lambda>_. v)) (webhook_at m1 p)))\<lparr>Webhook_UpdatedAt := now\<rparr>) m1"
    using assms(3) unfolding UpdateWebhook_def p Let_def option.case wh_def [symmetric] m1_def [symmetric] by simp
  have "Webhook_ID (webhook_at m1 p) = i" using m1 by (auto simp: manager_ok_def pointers_ok_def)
  then show ?thesis
    unfolding m' by (intro set_webhook_ok [OF m1])
      (simp_all add: assign_same [where g = Webhook_ID] assign_same [where g = Webhook_Events])
qed

lemma manager_reachable_ok: "manager_reachable m \<Longrightarrow> manager_ok m"
proof (induction rule: manager_reachable.induct)
  case new
  show ?case by (simp add: manager_ok_def pointers_ok_def NewWebhookManager_def subscribed_def gm_laws)
next
  case (register m i hrng now reg p m')
  then show ?case using RegisterWebhook_ok by blast
next
  case (update m rng i u now p m')
  then show ?case using UpdateWebhook_ok by blast
next
  case (delete m rng i m')
  then have "pointers_ok (m\<lparr>WebhookManager_webhooks := gm_del i (WebhookManager_webhooks m)\<rparr>)"
    by (auto simp: manager_ok_def pointers_ok_def gm.inv_del gm.get_del split: if_splits)
  from rebuild_ok [OF this delete.hyps(2)] delete.hyps(3) show ?case by (auto simp: DeleteWebhook_def split: if_splits)
next
  case (status m i s now m')
  then obtain p where p: "gm_get (WebhookManager_webhooks m) i = Some p"
      "m' = set_webhook p ((webhook_at m p)\<lparr>Webhook_Status := s, Webhook_UpdatedAt := now\<rparr>) m"
    by (auto simp: setWebhookStatus_def split: option.splits)
  have "Webhook_ID (webhook_at m p) = i" using p(1) status.IH by (simp add: manager_ok_def pointers_ok_def)
  then show ?case unfolding p(2) by (intro set_webhook_ok [OF status.IH p(1)]) simp_all
next
  case (subscribe m rng i evs m')
  then show ?case by (auto simp: SubscribeToEvents_def intro: set_events_ok split: option.splits)
next
  case (add m rng i ev m')
  then show ?case by (auto simp: AddEventSubscription_def intro: set_events_ok split: option.splits if_splits)
next
  case (remove m rng i ev m')
  then show ?case by (auto simp: RemoveEventSubscription_def intro: set_events_ok split: option.splits)
qed

lemma GetWebhooksForEvent_filter:
  "GetWebhooksForEvent m ev = List.map_filter (router_target m) (gm_getd [] (WebhookManager_eventRoutes m) ev)"
proof -
  have "fold (\<lambda>r acc. case router_target m r of Some p \<Rightarrow> acc @ [p] | None \<Rightarrow> acc) rs acc = acc @ List.map_filter (router_target m) rs" for rs acc
    by (induction rs arbitrary: acc) (auto simp: map_filter_simps split: option.splits)
  then show ?thesis by (simp add: GetWebhooksForEvent_def gm_getd_def map_filter_simps split: option.splits)
qed

lemma in_GetWebhooksForEvent:
  "p \<in> set (GetWebhooksForEvent m ev) \<longleftrightarrow>
    (\<exists>r \<in> set (gm_getd [] (WebhookManager_eventRoutes m) ev). EventRouter_active r \<and>
      gm_get (WebhookManager_webhooks m) (EventRouter_webhookID r) = Some p \<and> Webhook_Status (webhook_at m p) = WebhookStatusActive)"
  by (force simp: GetWebhooksForEvent_filter map_filter_def router_target_def split: option.splits if_splits)

lemma count_targets:
  "SubscriberCount m ev = int (length (GetWebhooksForEvent m ev))" "HasSubscribers m ev \<longleftrightarrow> GetWebhooksForEvent m ev \<noteq> []"
proof -
  have "fold (\<lambda>r count. if router_target m r \<noteq> None then count + 1 else count) rs k = k + int (length (List.map_filter (router_target m) rs))" for rs k
    by (induction rs arbitrary: k) (auto simp: map_filter_simps split: option.splits)
  then show "SubscriberCount m ev = int (length (GetWebhooksForEvent m ev))"
    by (simp add: SubscriberCount_def GetWebhooksForEvent_filter gm_getd_def map_filter_simps split: option.splits)
  have "list_ex (\<lambda>r. router_target m r \<noteq> None) rs \<longleftrightarrow> List.map_filter (router_target m) rs \<noteq> []" for rs
    by (induction rs) (auto simp: map_filter_simps split: option.splits)
  then show "HasSubscribers m ev \<longleftrightarrow> GetWebhooksForEvent m ev \<noteq> []"
    by (simp add: HasSubscribers_def GetWebhooksForEvent_filter gm_getd_def map_filter_simps split: option.splits)
qed

lemma GetWebhooksForEvent_matching: "manager_ok m \<Longrightarrow> set (GetWebhooksForEvent m ev) \<subseteq> matching m ev"
proof
  fix p
  assume ok: "manager_ok m" and "p \<in> set (GetWebhooksForEvent m ev)"
  then obtain r where r: "r \<in> set (gm_getd [] (WebhookManager_eventRoutes m) ev)"
      "gm_get (WebhookManager_webhooks m) (EventRouter_webhookID r) = Some p" "Webhook_Status (webhook_at m p) = WebhookStatusActive"
    by (auto simp: in_GetWebhooksForEvent)
  then have "EventRouter_webhookID r \<in> subscribed m ev" using ok by (auto simp: manager_ok_def)
  then show "p \<in> matching m ev" using r by (auto simp: subscribed_def matching_def)
qed

lemma rebuild_matching:
  assumes "pointers_ok m" and "ranger_ok rng"
  shows "set (GetWebhooksForEvent (rebuildEventRoutes rng m) ev) = matching m ev"
proof
  show "set (GetWebhooksForEvent (rebuildEventRoutes rng m) ev) \<subseteq> matching m ev"
    using GetWebhooksForEvent_matching [OF rebuild_ok [OF assms]] by (simp add: matching_def)
  show "matching m ev \<subseteq> set (GetWebhooksForEvent (rebuildEventRoutes rng m) ev)"
  proof
    fix p
    assume "p \<in> matching m ev"
    then obtain i where i: "gm_get (WebhookManager_webhooks m) i = Some p" "ev \<in> set (Webhook_Events (webhook_at m p))"
        "Webhook_Status (webhook_at m p) = WebhookStatusActive" by (auto simp: matching_def)
    have "gm_inv (WebhookManager_webhooks m)" "Webhook_ID (webhook_at m p) = i" using assms(1) i(1) by (auto simp: pointers_ok_def)
    then have "mkRouter (webhook_at m p) \<in> set (gm_getd [] (WebhookManager_eventRoutes (rebuildEventRoutes rng m)) ev)"
      using i rebuild_routes [OF assms(2)] by blast
    then show "p \<in> set (GetWebhooksForEvent (rebuildEventRoutes rng m) ev)"
      using i \<open>Webhook_ID (webhook_at m p) = i\<close> unfolding in_GetWebhooksForEvent
      by (intro bexI [of _ "mkRouter (webhook_at m p)"]) (simp_all add: mkRouter_def)
  qed
qed

lemma example_manager_reachable: "manager_reachable example_manager"
proof -
  let ?m = "snd (projr (RegisterWebhook (\<lambda>i ks. ks) 1 0 (example_registration ''a'') NewWebhookManager))"
  have 1: "RegisterWebhook (\<lambda>i ks. ks) 1 0 (example_registration ''a'') NewWebhookManager = Inr (0, ?m)"
    by (simp add: RegisterWebhook_def Let_def example_registration_def NewWebhookManager_def)
  have "manager_reachable ?m"
    by (rule manager_reachable.register [OF manager_reachable.new _ 1]) (simp add: NewWebhookManager_def gm_has_def gm_laws)
  moreover have "\<not> gm_has (WebhookManager_webhooks ?m) 2"
    by (simp add: RegisterWebhook_def Let_def example_registration_def NewWebhookManager_def gm_has_def gm_laws)
  moreover have "RegisterWebhook (\<lambda>i ks. ks) 2 0 (example_registration ''b'') ?m = Inr (1, example_manager)"
    by (simp add: RegisterWebhook_def Let_def example_registration_def NewWebhookManager_def example_manager_def)
  ultimately show ?thesis by (rule manager_reachable.register)
qed

section \<open>Properties\<close>

text \<open>
  (C14) An event is only ever routed to webhooks that are registered, subscribed to it and active, in every state the manager
  can reach; right after a rebuild of the routes it is routed to all of them. The three queries on the routes agree.
\<close>

theorem manager_routing:
  assumes "manager_reachable m"
  shows "set (GetWebhooksForEvent m ev) \<subseteq> matching m ev \<and>
    (\<forall>rng. ranger_ok rng \<longrightarrow> set (GetWebhooksForEvent (rebuildEventRoutes rng m) ev) = matching m ev) \<and>
    SubscriberCount m ev = int (length (GetWebhooksForEvent m ev)) \<and> (HasSubscribers m ev \<longleftrightarrow> GetWebhooksForEvent m ev \<noteq> [])"
  using manager_reachable_ok [OF assms] GetWebhooksForEvent_matching rebuild_matching count_targets
  unfolding manager_ok_def by metis

theorem manager_routing_witness:
  "set (GetWebhooksForEvent (rebuildEventRoutes (\<lambda>i ks. ks) example_manager) ''run.done'') = matching example_manager ''run.done'' \<and>
    0 \<in> matching example_manager ''run.done''"
proof -
  have "GetWebhooksForEvent (rebuildEventRoutes (\<lambda>i ks. ks) example_manager) ''run.done'' = [0, 1]" by code_simp
  moreover have "set (GetWebhooksForEvent (rebuildEventRoutes (\<lambda>i ks. ks) example_manager) ''run.done'') = matching example_manager ''run.done''"
    using manager_routing [OF example_manager_reachable] by simp
  ultimately show ?thesis by (metis list.set_intros(1))
qed

text \<open>
  A webhook that is inactive while the subscriptions of another one change is lost: when it is activated again it is active,
  but no event reaches it, because the routes remember the status they were built with and activation does
  not rebuild them.
\<close>

theorem reactivated_webhook_lost:
  assumes "manager_reachable m" and "GetWebhook m i = Some p" and "Webhook_Status (webhook_at m p) \<noteq> WebhookStatusActive"
    and "j \<noteq> i" and "ranger_ok rng" and "SubscribeToEvents rng j evs m = Inr m1" and "ActivateWebhook i now m1 = Inr m2"
  shows "GetWebhook m2 i = Some p \<and> Webhook_Status (webhook_at m2 p) = WebhookStatusActive \<and>
    Webhook_Events (webhook_at m2 p) = Webhook_Events (webhook_at m p) \<and> (\<forall>ev. p \<notin> set (GetWebhooksForEvent m2 ev))"
proof -
  have ok: "pointers_ok m" using manager_reachable_ok [OF assms(1)] by (simp add: manager_ok_def)
  have p: "gm_get (WebhookManager_webhooks m) i = Some p" using assms(2) by (simp add: GetWebhook_def)
  obtain q where q: "gm_get (WebhookManager_webhooks m) j = Some q" and m1: "m1 = set_events rng q evs m"
    using assms(6) by (auto simp: SubscribeToEvents_def split: option.splits)
  have "q \<noteq> p" using pointers_inj [OF ok p] q assms(4) by blast
  have len: "p < length (WebhookManager_store m)" using ok p by (simp add: pointers_ok_def)
  let ?m = "set_webhook q ((webhook_at m q)\<lparr>Webhook_Events := evs\<rparr>) m"
  have okm: "pointers_ok ?m" using ok q by (intro set_webhook_pointers) (auto simp: pointers_ok_def)
  have at: "webhook_at ?m p = webhook_at m p" using len \<open>q \<noteq> p\<close> by simp
  have m2: "m2 = set_webhook p ((webhook_at m p)\<lparr>Webhook_Status := WebhookStatusActive, Webhook_UpdatedAt := now\<rparr>) m1"
    using assms(7) p at by (simp add: ActivateWebhook_def setWebhookStatus_def m1 set_events_def)
  have inactive: "\<not> EventRouter_active r"
    if "r \<in> set (gm_getd [] (WebhookManager_eventRoutes m2) ev)" "gm_get (WebhookManager_webhooks m2) (EventRouter_webhookID r) = Some p" for r ev
  proof -
    have "r \<in> set (gm_getd [] (WebhookManager_eventRoutes (rebuildEventRoutes rng ?m)) ev)" using that(1) by (simp add: m2 m1 set_events_def)
    then obtain k s where s: "gm_get (WebhookManager_webhooks m) k = Some s" "r = mkRouter (webhook_at ?m s)"
      using rebuild_routes [OF assms(5), of ?m r ev] okm by (auto simp: pointers_ok_def)
    moreover have "gm_get (WebhookManager_webhooks ?m) k = Some s" using s(1) by simp
    then have "Webhook_ID (webhook_at ?m s) = k" using okm unfolding pointers_ok_def by blast
    ultimately have "EventRouter_webhookID r = k" by (simp add: mkRouter_def del: set_webhook_at)
    then have "s = p" using that(2) s(1) by (simp add: m2 m1 set_events_def)
    then show ?thesis using s(2) at assms(3) by (simp add: mkRouter_def)
  qed
  then show ?thesis
    using p len by (auto simp: in_GetWebhooksForEvent GetWebhook_def m2 m1 set_events_def)
qed

theorem reactivated_webhook_lost_witness:
  "\<exists>m0 m1 m2. DeactivateWebhook 1 0 example_manager = Inr m0 \<and> SubscribeToEvents (\<lambda>i ks. ks) 2 [''run.failed''] m0 = Inr m1 \<and>
    ActivateWebhook 1 0 m1 = Inr m2 \<and> Webhook_Events (webhook_at m2 0) = [''run.done''] \<and>
    Webhook_Status (webhook_at m2 0) = WebhookStatusActive \<and> 0 \<notin> set (GetWebhooksForEvent m2 ''run.done'')"
proof -
  define m0 where "m0 = projr (DeactivateWebhook 1 0 example_manager)"
  define m1 where "m1 = projr (SubscribeToEvents (\<lambda>i ks. ks) 2 [''run.failed''] m0)"
  define m2 where "m2 = projr (ActivateWebhook 1 0 m1)"
  have 0: "DeactivateWebhook 1 0 example_manager = Inr m0" "GetWebhook m0 1 = Some 0"
      "Webhook_Status (webhook_at m0 0) \<noteq> WebhookStatusActive" "Webhook_Events (webhook_at m0 0) = [''run.done'']"
    unfolding m0_def by code_simp+
  have 1: "SubscribeToEvents (\<lambda>i ks. ks) 2 [''run.failed''] m0 = Inr m1" unfolding m1_def m0_def by code_simp
  have 2: "ActivateWebhook 1 0 m1 = Inr m2" unfolding m2_def m1_def m0_def by code_simp
  have "manager_reachable m0"
    using manager_reachable.status [OF example_manager_reachable] 0(1) by (auto simp: DeactivateWebhook_def)
  from reactivated_webhook_lost [OF this 0(2,3) _ ranger_ok_id 1 2] 0(1,4) 1 2 show ?thesis by auto
qed

end
