(* ===== verification/Webhook_History.thy ===== *)
theory Webhook_History
  imports Webhook_Delivery Go_Sort Go_Chan
begin

text \<open>
  The delivery history of \<^verbatim>\<open>internal/webhook/history.go\<close>. Its entries hold pointers to deliveries, which the notifier that
  recorded them and the history share: the deliveries are a store, a list in which a pointer is an index. An entry
  is never changed once it is recorded, so the index by identifier holds the entries themselves. Clock readings are
  arguments.
\<close>

section \<open>Data\<close>

type_synonym delivery_ptr = nat
type_synonym delivery_store = "WebhookDelivery list"

definition status_string :: "DeliveryStatus \<Rightarrow> string" where
  "status_string s =
     (case s of
        DeliveryStatusPending \<Rightarrow> ''pending'' | DeliveryStatusDelivering \<Rightarrow> ''delivering''
      | DeliveryStatusSuccess \<Rightarrow> ''success'' | DeliveryStatusFailed \<Rightarrow> ''failed''
      | DeliveryStatusRetrying \<Rightarrow> ''retrying'' | DeliveryStatusCancelled \<Rightarrow> ''cancelled'' | DeliveryStatusOther t \<Rightarrow> t)"

record HistoryFilter =
  HistoryFilter_WebhookID :: "uuid option"
  HistoryFilter_Status :: "DeliveryStatus list"
  HistoryFilter_EventType :: string
  HistoryFilter_From :: "gotime option"
  HistoryFilter_To :: "gotime option"
  HistoryFilter_Page :: int
  HistoryFilter_PerPage :: int
  HistoryFilter_OrderBy :: string

definition DefaultHistoryFilter :: HistoryFilter where
  "DefaultHistoryFilter = \<lparr>HistoryFilter_WebhookID = None, HistoryFilter_Status = [], HistoryFilter_EventType = [],
     HistoryFilter_From = None, HistoryFilter_To = None, HistoryFilter_Page = 1, HistoryFilter_PerPage = 20,
     HistoryFilter_OrderBy = ''created_at DESC''\<rparr>"

record HistoryEntry =
  HistoryEntry_Delivery :: delivery_ptr
  HistoryEntry_WebhookName :: string
  HistoryEntry_WebhookURL :: string

record PaginatedResult =
  PaginatedResult_Entries :: "HistoryEntry list"
  PaginatedResult_Total :: int
  PaginatedResult_Page :: int
  PaginatedResult_PerPage :: int
  PaginatedResult_TotalPages :: int

record RetentionConfig =
  RetentionConfig_MaxEntries :: int
  RetentionConfig_RetentionDuration :: dur
  RetentionConfig_CleanupInterval :: dur

definition DefaultRetentionConfig :: RetentionConfig where
  "DefaultRetentionConfig = \<lparr>RetentionConfig_MaxEntries = 10000, RetentionConfig_RetentionDuration = 7 * 24 * Hour,
     RetentionConfig_CleanupInterval = 1 * Hour\<rparr>"

record WebhookSummary =
  WebhookSummary_ID :: uuid
  WebhookSummary_Name :: string
  WebhookSummary_URL :: string

record WebhookHistory =
  WebhookHistory_entries :: "HistoryEntry list"
  WebhookHistory_byID :: "(uuid, HistoryEntry) gmap"
  WebhookHistory_webhooks :: "(uuid, WebhookSummary) gmap"
  WebhookHistory_retention :: RetentionConfig
  WebhookHistory_stopCh :: "unit chan"

abbreviation delivery_of :: "delivery_store \<Rightarrow> HistoryEntry \<Rightarrow> WebhookDelivery" where
  "delivery_of heap e \<equiv> heap ! HistoryEntry_Delivery e"

section \<open>Recording and looking up\<close>

definition NewWebhookHistory :: "RetentionConfig \<Rightarrow> WebhookHistory" where
  "NewWebhookHistory retention = \<lparr>WebhookHistory_entries = [], WebhookHistory_byID = gm_empty,
     WebhookHistory_webhooks = gm_empty, WebhookHistory_retention = retention, WebhookHistory_stopCh = chan_make 0\<rparr>"

definition RecordDelivery :: "delivery_store \<Rightarrow> delivery_ptr \<Rightarrow> string \<Rightarrow> string \<Rightarrow> WebhookHistory \<Rightarrow> WebhookHistory" where
  "RecordDelivery heap p webhookName webhookURL h =
     (let d = heap ! p;
          entry = \<lparr>HistoryEntry_Delivery = p, HistoryEntry_WebhookName = webhookName, HistoryEntry_WebhookURL = webhookURL\<rparr>
      in h\<lparr>WebhookHistory_entries := WebhookHistory_entries h @ [entry],
           WebhookHistory_byID := gm_set (WebhookDelivery_ID d) entry (WebhookHistory_byID h),
           WebhookHistory_webhooks := gm_set (WebhookDelivery_WebhookID d)
             \<lparr>WebhookSummary_ID = WebhookDelivery_WebhookID d, WebhookSummary_Name = webhookName,
              WebhookSummary_URL = webhookURL\<rparr> (WebhookHistory_webhooks h)\<rparr>)"

definition GetDelivery :: "WebhookHistory \<Rightarrow> uuid \<Rightarrow> HistoryEntry option" where
  "GetDelivery h deliveryID = gm_get (WebhookHistory_byID h) deliveryID"

definition UpdateDeliveryStatus ::
  "WebhookHistory \<Rightarrow> uuid \<Rightarrow> DeliveryStatus \<Rightarrow> int \<Rightarrow> string \<Rightarrow> DeliverError option \<Rightarrow> gotime \<Rightarrow> delivery_store \<Rightarrow> delivery_store" where
  "UpdateDeliveryStatus h deliveryID status statusCode responseBody errMsg now heap =
     (case gm_get (WebhookHistory_byID h) deliveryID of
        None \<Rightarrow> heap
      | Some entry \<Rightarrow>
          heap[HistoryEntry_Delivery entry := (delivery_of heap entry)
            \<lparr>WebhookDelivery_Status := status, WebhookDelivery_StatusCode := statusCode,
             WebhookDelivery_ResponseBody := responseBody,
             WebhookDelivery_Error := (if errMsg \<noteq> None then errMsg else WebhookDelivery_Error (delivery_of heap entry)),
             WebhookDelivery_UpdatedAt := now\<rparr>])"

definition UpdateDeliveryAttempt :: "WebhookHistory \<Rightarrow> uuid \<Rightarrow> int \<Rightarrow> int \<Rightarrow> gotime \<Rightarrow> delivery_store \<Rightarrow> delivery_store" where
  "UpdateDeliveryAttempt h deliveryID attempt durationMS now heap =
     (case gm_get (WebhookHistory_byID h) deliveryID of
        None \<Rightarrow> heap
      | Some entry \<Rightarrow>
          heap[HistoryEntry_Delivery entry := (delivery_of heap entry)
            \<lparr>WebhookDelivery_Attempt := attempt, WebhookDelivery_DurationMS := durationMS, WebhookDelivery_UpdatedAt := now\<rparr>])"

section \<open>Queries\<close>

definition entry_less :: "delivery_store \<Rightarrow> string \<Rightarrow> HistoryEntry \<Rightarrow> HistoryEntry \<Rightarrow> bool" where
  "entry_less heap orderBy a b =
     (let x = delivery_of heap a; y = delivery_of heap b in
      if orderBy = ''created_at ASC'' then WebhookDelivery_CreatedAt x < WebhookDelivery_CreatedAt y
      else if orderBy = ''duration_ms ASC'' then WebhookDelivery_DurationMS x < WebhookDelivery_DurationMS y
      else if orderBy = ''duration_ms DESC'' then WebhookDelivery_DurationMS x > WebhookDelivery_DurationMS y
      else if orderBy = ''status ASC'' then str_less (status_string (WebhookDelivery_Status x)) (status_string (WebhookDelivery_Status y))
      else if orderBy = ''status DESC'' then str_less (status_string (WebhookDelivery_Status y)) (status_string (WebhookDelivery_Status x))
      else WebhookDelivery_CreatedAt x > WebhookDelivery_CreatedAt y)"

definition sortEntries :: "delivery_store \<Rightarrow> HistoryEntry list \<Rightarrow> string \<Rightarrow> HistoryEntry list" where
  "sortEntries heap entries orderBy = SliceStable (entry_less heap orderBy) entries"

definition filter_matches :: "HistoryFilter \<Rightarrow> WebhookDelivery \<Rightarrow> bool" where
  "filter_matches f d \<longleftrightarrow>
     \<not> (case HistoryFilter_WebhookID f of None \<Rightarrow> False | Some i \<Rightarrow> WebhookDelivery_WebhookID d \<noteq> i) \<and>
     \<not> (length (HistoryFilter_Status f) > 0 \<and> \<not> list_ex (\<lambda>s. WebhookDelivery_Status d = s) (HistoryFilter_Status f)) \<and>
     \<not> (HistoryFilter_EventType f \<noteq> [] \<and> WebhookDelivery_EventType d \<noteq> HistoryFilter_EventType f) \<and>
     \<not> (case HistoryFilter_From f of None \<Rightarrow> False | Some t \<Rightarrow> WebhookDelivery_CreatedAt d < t) \<and>
     \<not> (case HistoryFilter_To f of None \<Rightarrow> False | Some t \<Rightarrow> WebhookDelivery_CreatedAt d > t)"

definition applyFilter :: "delivery_store \<Rightarrow> WebhookHistory \<Rightarrow> HistoryFilter \<Rightarrow> HistoryEntry list" where
  "applyFilter heap h f =
     sortEntries heap (filter (\<lambda>e. filter_matches f (delivery_of heap e)) (WebhookHistory_entries h)) (HistoryFilter_OrderBy f)"

text \<open>The product of page and page size wraps; a negative start makes the slice expression panic.\<close>

definition GetHistory :: "delivery_store \<Rightarrow> WebhookHistory \<Rightarrow> HistoryFilter \<Rightarrow> (unit, PaginatedResult) outcome" where
  "GetHistory heap h f =
     (let filtered = applyFilter heap h f;
          page = (if HistoryFilter_Page f < 1 then 1 else HistoryFilter_Page f);
          perPage = (if HistoryFilter_PerPage f < 1 \<or> HistoryFilter_PerPage f > 100 then 20 else HistoryFilter_PerPage f);
          total = int (length filtered);
          totalPages = total div perPage + (if total mod perPage \<noteq> 0 then 1 else 0);
          start = i64 ((page - 1) * perPage);
          result = \<lparr>PaginatedResult_Entries = [], PaginatedResult_Total = total, PaginatedResult_Page = page,
            PaginatedResult_PerPage = perPage, PaginatedResult_TotalPages = totalPages\<rparr>
      in if start \<ge> total then Return result
         else let end = (if start + perPage > total then total else start + perPage)
              in if start < 0 then Panic
                 else Return (result\<lparr>PaginatedResult_Entries := take (nat (end - start)) (drop (nat start) filtered)\<rparr>))"

definition GetDeliveriesByWebhook :: "delivery_store \<Rightarrow> WebhookHistory \<Rightarrow> uuid \<Rightarrow> HistoryFilter \<Rightarrow> (unit, PaginatedResult) outcome" where
  "GetDeliveriesByWebhook heap h webhookID f = GetHistory heap h (f\<lparr>HistoryFilter_WebhookID := Some webhookID\<rparr>)"

definition GetDeliveriesByStatus :: "delivery_store \<Rightarrow> WebhookHistory \<Rightarrow> DeliveryStatus \<Rightarrow> HistoryFilter \<Rightarrow> (unit, PaginatedResult) outcome" where
  "GetDeliveriesByStatus heap h status f = GetHistory heap h (f\<lparr>HistoryFilter_Status := [status]\<rparr>)"

definition GetRecentDeliveries :: "WebhookHistory \<Rightarrow> int \<Rightarrow> HistoryEntry list" where
  "GetRecentDeliveries h limit =
     (let es = WebhookHistory_entries h;
          limit = (if limit \<le> 0 \<or> limit > int (length es) then int (length es) else limit)
      in map (\<lambda>i. es ! (length es - 1 - i)) [0..<nat limit])"

definition CountDeliveries :: "delivery_store \<Rightarrow> WebhookHistory \<Rightarrow> DeliveryStatus \<Rightarrow> int" where
  "CountDeliveries heap h status =
     fold (\<lambda>e count. if WebhookDelivery_Status (delivery_of heap e) = status then count + 1 else count) (WebhookHistory_entries h) 0"

definition history_Size :: "WebhookHistory \<Rightarrow> nat" where
  "history_Size h = length (WebhookHistory_entries h)"

section \<open>Statistics\<close>

record WebhookStats =
  WebhookStats_total :: int
  WebhookStats_successful :: int
  WebhookStats_failed :: int
  WebhookStats_retrying :: int
  WebhookStats_pending :: int
  WebhookStats_avg :: rat
  WebhookStats_last :: "gotime option"

definition stats_step :: "WebhookDelivery \<Rightarrow> WebhookStats \<times> int \<times> int \<Rightarrow> WebhookStats \<times> int \<times> int" where
  "stats_step d = (\<lambda>(st, totalDuration, deliveryCount).
     let st1 = st\<lparr>WebhookStats_total := WebhookStats_total st + 1\<rparr>;
         (st2, td, dc) =
           (case WebhookDelivery_Status d of
              DeliveryStatusSuccess \<Rightarrow> (st1\<lparr>WebhookStats_successful := WebhookStats_successful st1 + 1\<rparr>,
                i64 (totalDuration + WebhookDelivery_DurationMS d), deliveryCount + 1)
            | DeliveryStatusFailed \<Rightarrow> (st1\<lparr>WebhookStats_failed := WebhookStats_failed st1 + 1\<rparr>, totalDuration, deliveryCount)
            | DeliveryStatusRetrying \<Rightarrow> (st1\<lparr>WebhookStats_retrying := WebhookStats_retrying st1 + 1\<rparr>, totalDuration, deliveryCount)
            | DeliveryStatusPending \<Rightarrow> (st1\<lparr>WebhookStats_pending := WebhookStats_pending st1 + 1\<rparr>, totalDuration, deliveryCount)
            | _ \<Rightarrow> (st1, totalDuration, deliveryCount))
     in (case WebhookStats_last st2 of
           None \<Rightarrow> st2\<lparr>WebhookStats_last := Some (WebhookDelivery_CreatedAt d)\<rparr>
         | Some t \<Rightarrow> if WebhookDelivery_CreatedAt d > t then st2\<lparr>WebhookStats_last := Some (WebhookDelivery_CreatedAt d)\<rparr> else st2,
         td, dc))"

definition GetWebhookStats :: "delivery_store \<Rightarrow> WebhookHistory \<Rightarrow> uuid \<Rightarrow> WebhookStats" where
  "GetWebhookStats heap h webhookID =
     (let (st, totalDuration, deliveryCount) =
        fold (\<lambda>e acc. if WebhookDelivery_WebhookID (delivery_of heap e) \<noteq> webhookID then acc
                       else stats_step (delivery_of heap e) acc) (WebhookHistory_entries h)
          (\<lparr>WebhookStats_total = 0, WebhookStats_successful = 0, WebhookStats_failed = 0, WebhookStats_retrying = 0,
            WebhookStats_pending = 0, WebhookStats_avg = 0, WebhookStats_last = None\<rparr>, 0, 0)
      in if deliveryCount > 0 then st\<lparr>WebhookStats_avg := of_int totalDuration / of_int deliveryCount\<rparr> else st)"

section \<open>Retention\<close>

definition retain_step ::
  "delivery_store \<Rightarrow> RetentionConfig \<Rightarrow> gotime \<Rightarrow> HistoryEntry \<Rightarrow> HistoryEntry list \<times> (uuid, HistoryEntry) gmap \<Rightarrow>
    HistoryEntry list \<times> (uuid, HistoryEntry) gmap" where
  "retain_step heap c cutoff entry = (\<lambda>(retained, newByID).
     let keepByAge = WebhookDelivery_CreatedAt (delivery_of heap entry) > cutoff;
         keepByCount = int (length retained) < RetentionConfig_MaxEntries c
     in if keepByAge \<and> keepByCount
        then (retained @ [entry], gm_set (WebhookDelivery_ID (delivery_of heap entry)) entry newByID)
        else (retained, newByID))"

definition enforceRetention :: "delivery_store \<Rightarrow> gotime \<Rightarrow> WebhookHistory \<Rightarrow> WebhookHistory" where
  "enforceRetention heap now h =
     (if length (WebhookHistory_entries h) = 0 then h
      else let c = WebhookHistory_retention h;
               cutoff = now + i64 (- RetentionConfig_RetentionDuration c);
               (retained, newByID) = fold (retain_step heap c cutoff) (WebhookHistory_entries h) ([], gm_empty)
           in h\<lparr>WebhookHistory_entries := retained, WebhookHistory_byID := newByID\<rparr>)"

definition history_Clear :: "WebhookHistory \<Rightarrow> WebhookHistory" where
  "history_Clear h = h\<lparr>WebhookHistory_entries := [], WebhookHistory_byID := gm_empty\<rparr>"

definition history_Stop :: "WebhookHistory \<Rightarrow> (unit, WebhookHistory) outcome" where
  "history_Stop h =
     (case chan_close (WebhookHistory_stopCh h) of
        Return c \<Rightarrow> Return (h\<lparr>WebhookHistory_stopCh := c\<rparr>)
      | Error e \<Rightarrow> Error e | Panic \<Rightarrow> Panic)"

text \<open>
  The goroutine \<^verbatim>\<open>retentionLoop\<close>, as what it does at each wake-up: \<open>Some now\<close> is a tick, \<open>None\<close> the closed stop channel.
  A ticker without a positive interval panics.
\<close>

fun retention_wakeups :: "delivery_store \<Rightarrow> gotime option list \<Rightarrow> WebhookHistory \<Rightarrow> WebhookHistory" where
  "retention_wakeups heap [] h = h"
| "retention_wakeups heap (Some now # ws) h = retention_wakeups heap ws (enforceRetention heap now h)"
| "retention_wakeups heap (None # ws) h = h"

definition retentionLoop :: "delivery_store \<Rightarrow> gotime option list \<Rightarrow> WebhookHistory \<Rightarrow> (unit, WebhookHistory) outcome" where
  "retentionLoop heap ws h =
     (if RetentionConfig_CleanupInterval (WebhookHistory_retention h) \<le> 0 then Panic
      else Return (retention_wakeups heap ws h))"

section \<open>Definitions for the statements\<close>

definition history_ok :: "delivery_store \<Rightarrow> WebhookHistory \<Rightarrow> bool" where
  "history_ok heap h \<longleftrightarrow> gm_inv (WebhookHistory_byID h) \<and>
     (\<forall>k e. gm_get (WebhookHistory_byID h) k = Some e \<longrightarrow>
        e \<in> set (WebhookHistory_entries h) \<and> WebhookDelivery_ID (delivery_of heap e) = k) \<and>
     (\<forall>e \<in> set (WebhookHistory_entries h). HistoryEntry_Delivery e < length heap \<and>
        gm_has (WebhookHistory_byID h) (WebhookDelivery_ID (delivery_of heap e)))"

text \<open>The states of a history in use: deliveries are allocated, recorded and updated, and the retention runs.\<close>

inductive history_reachable :: "RetentionConfig \<Rightarrow> delivery_store \<Rightarrow> WebhookHistory \<Rightarrow> bool" for c where
  new: "history_reachable c [] (NewWebhookHistory c)"
| alloc: "history_reachable c heap h \<Longrightarrow> history_reachable c (heap @ [d]) h"
| recorded: "history_reachable c heap h \<Longrightarrow> p < length heap \<Longrightarrow> history_reachable c heap (RecordDelivery heap p name url h)"
| status: "history_reachable c heap h \<Longrightarrow> history_reachable c (UpdateDeliveryStatus h i s code body err now heap) h"
| attempt: "history_reachable c heap h \<Longrightarrow> history_reachable c (UpdateDeliveryAttempt h i a ms now heap) h"
| retention: "history_reachable c heap h \<Longrightarrow> history_reachable c heap (enforceRetention heap now h)"
| clear: "history_reachable c heap h \<Longrightarrow> history_reachable c heap (history_Clear h)"

text \<open>An example: three deliveries, one minute apart.\<close>

definition example_delivery :: "uuid \<Rightarrow> gotime \<Rightarrow> WebhookDelivery" where
  "example_delivery i t = \<lparr>WebhookDelivery_ID = i, WebhookDelivery_WebhookID = 1, WebhookDelivery_EventType = ''run.done'',
     WebhookDelivery_URL = ''http://x'', WebhookDelivery_Status = DeliveryStatusSuccess, WebhookDelivery_StatusCode = 200,
     WebhookDelivery_RequestBody = ''{}'', WebhookDelivery_ResponseBody = [], WebhookDelivery_DurationMS = 5, WebhookDelivery_Attempt = 1,
     WebhookDelivery_MaxRetries = 3, WebhookDelivery_Error = None, WebhookDelivery_CreatedAt = t, WebhookDelivery_UpdatedAt = t\<rparr>"

definition example_heap :: delivery_store where
  "example_heap = [example_delivery 10 Minute, example_delivery 11 (2 * Minute), example_delivery 12 (3 * Minute)]"

definition example_history :: WebhookHistory where
  "example_history = fold (\<lambda>p. RecordDelivery example_heap p ''hook'' ''http://x'') [0, 1, 2]
     (NewWebhookHistory (DefaultRetentionConfig\<lparr>RetentionConfig_MaxEntries := 2\<rparr>))"

section \<open>Lemmas\<close>

lemma history_ok_heap:
  assumes "history_ok heap h" and "length heap \<le> length heap'"
    and "\<And>e. HistoryEntry_Delivery e < length heap \<Longrightarrow> WebhookDelivery_ID (delivery_of heap' e) = WebhookDelivery_ID (delivery_of heap e)"
  shows "history_ok heap' h"
  using assms unfolding history_ok_def by (metis order_less_le_trans)

lemma UpdateDeliveryStatus_ID:
  "p < length heap \<Longrightarrow> WebhookDelivery_ID (UpdateDeliveryStatus h i s code body err now heap ! p) = WebhookDelivery_ID (heap ! p)"
  by (cases "gm_get (WebhookHistory_byID h) i") (auto simp: UpdateDeliveryStatus_def nth_update)

lemma UpdateDeliveryAttempt_ID:
  "p < length heap \<Longrightarrow> WebhookDelivery_ID (UpdateDeliveryAttempt h i a ms now heap ! p) = WebhookDelivery_ID (heap ! p)"
  by (cases "gm_get (WebhookHistory_byID h) i") (auto simp: UpdateDeliveryAttempt_def nth_update)

lemma length_updates [simp]:
  "length (UpdateDeliveryStatus h i s code body err now heap) = length heap"
  "length (UpdateDeliveryAttempt h i a ms now heap) = length heap"
  by (simp_all add: UpdateDeliveryStatus_def UpdateDeliveryAttempt_def split: option.splits)

lemma RecordDelivery_ok: "history_ok heap h \<Longrightarrow> p < length heap \<Longrightarrow> history_ok heap (RecordDelivery heap p name url h)"
  by (auto simp: history_ok_def RecordDelivery_def Let_def gm.inv_put gm.get_put gm_has_def split: if_splits)

text \<open>The loop of the retention: what is retained is indexed, and nothing else.\<close>

lemma retain_fold:
  assumes "fold (retain_step heap c cutoff) es (r0, m0) = (r, m)"
  shows "r = r0 @ take (nat (RetentionConfig_MaxEntries c) - length r0)
      (filter (\<lambda>e. WebhookDelivery_CreatedAt (delivery_of heap e) > cutoff) es) \<and>
    m = fold (\<lambda>e. gm_set (WebhookDelivery_ID (delivery_of heap e)) e) (drop (length r0) r) m0"
  using assms
proof (induction es arbitrary: r0 m0)
  case (Cons e es)
  have step: "fold (retain_step heap c cutoff) es (retain_step heap c cutoff e (r0, m0)) = (r, m)"
    using Cons.prems by simp
  show ?case
  proof (cases "WebhookDelivery_CreatedAt (delivery_of heap e) > cutoff \<and> int (length r0) < RetentionConfig_MaxEntries c")
    case True
    then obtain k where "nat (RetentionConfig_MaxEntries c) - length r0 = Suc k"
      by (metis Suc_diff_Suc zless_nat_eq_int_zless)
    moreover from this have "nat (RetentionConfig_MaxEntries c) - Suc (length r0) = k" by simp
    moreover have "fold (retain_step heap c cutoff) es
        (r0 @ [e], gm_set (WebhookDelivery_ID (delivery_of heap e)) e m0) = (r, m)"
      using step True by (subst (asm) retain_step_def) simp
    ultimately show ?thesis using Cons.IH True by fastforce
  next
    case False
    then have "fold (retain_step heap c cutoff) es (r0, m0) = (r, m)"
      using step if_not_P [OF False] by (simp only: retain_step_def Let_def prod.case if_False)
    note Cons.IH [OF this]
    moreover have "nat (RetentionConfig_MaxEntries c) - length r0 = 0 \<or> \<not> WebhookDelivery_CreatedAt (delivery_of heap e) > cutoff"
      using False by auto
    ultimately show ?thesis by auto
  qed
qed simp

lemma enforceRetention_entries:
  "WebhookHistory_entries (enforceRetention heap now h) =
    take (nat (RetentionConfig_MaxEntries (WebhookHistory_retention h)))
      (filter (\<lambda>e. WebhookDelivery_CreatedAt (delivery_of heap e) >
          now + i64 (- RetentionConfig_RetentionDuration (WebhookHistory_retention h))) (WebhookHistory_entries h))"
  by (auto simp: enforceRetention_def Let_def dest: retain_fold split: prod.splits)

lemma enforceRetention_byID:
  "WebhookHistory_entries h \<noteq> [] \<Longrightarrow> WebhookHistory_byID (enforceRetention heap now h) =
    fold (\<lambda>e. gm_set (WebhookDelivery_ID (delivery_of heap e)) e) (WebhookHistory_entries (enforceRetention heap now h)) gm_empty"
  by (auto simp: enforceRetention_def Let_def dest: retain_fold split: prod.splits)

lemma enforceRetention_ok:
  assumes "history_ok heap h"
  shows "history_ok heap (enforceRetention heap now h)"
proof (cases "WebhookHistory_entries h = []")
  case True
  then show ?thesis using assms by (simp add: enforceRetention_def)
next
  case False
  let ?h = "enforceRetention heap now h" and ?id = "\<lambda>e. WebhookDelivery_ID (delivery_of heap e)"
  have sub: "set (WebhookHistory_entries ?h) \<subseteq> set (WebhookHistory_entries h)"
    unfolding enforceRetention_entries by (meson filter_is_subset order_trans set_take_subset)
  note m = enforceRetention_byID [OF False, of heap now]
  have "e \<in> set (WebhookHistory_entries ?h) \<and> ?id e = k" if "gm_get (WebhookHistory_byID ?h) k = Some e" for k e
  proof (cases "k \<in> ?id ` set (WebhookHistory_entries ?h)")
    case True
    from gm.get_fill_in [OF this, of "\<lambda>e. e" gm_empty] that m show ?thesis by auto
  next
    case False
    from gm.get_fill_notin [OF this, of "\<lambda>e. e" gm_empty] that m show ?thesis by (simp add: gm.get_empty)
  qed
  moreover have "gm_has (WebhookHistory_byID ?h) (?id e)" if "e \<in> set (WebhookHistory_entries ?h)" for e
    using gm.get_fill_in [of "?id e" ?id "WebhookHistory_entries ?h" "\<lambda>e. e" gm_empty] that m by (auto simp: gm_has_def)
  moreover have "gm_inv (WebhookHistory_byID ?h)" unfolding m by (rule gm.inv_fill [OF gm.inv_empty])
  ultimately show ?thesis using assms sub unfolding history_ok_def by blast
qed

lemma history_reachable_ok: "history_reachable c heap h \<Longrightarrow> history_ok heap h"
proof (induction rule: history_reachable.induct)
  case new
  show ?case by (simp add: history_ok_def NewWebhookHistory_def gm_laws)
next
  case (alloc heap h d)
  show ?case by (rule history_ok_heap [OF alloc.IH]) (simp_all add: nth_append)
next
  case (recorded heap h p name url)
  then show ?case by (simp add: RecordDelivery_ok)
next
  case (status heap h i s code body err now)
  show ?case by (rule history_ok_heap [OF status.IH]) (simp_all add: UpdateDeliveryStatus_ID)
next
  case (attempt heap h i a ms now)
  show ?case by (rule history_ok_heap [OF attempt.IH]) (simp_all add: UpdateDeliveryAttempt_ID)
next
  case (retention heap h now)
  then show ?case by (simp add: enforceRetention_ok)
next
  case (clear heap h)
  show ?case by (simp add: history_ok_def history_Clear_def gm_laws)
qed

subsection \<open>Sorting and pages\<close>

interpretation entry_order: weak_order "entry_less heap orderBy"
  by unfold_locales (auto simp: entry_less_def Let_def dest: str_less_asym str_less_neg_trans split: if_splits)

lemma applyFilter_Page [simp]: "applyFilter heap h (f\<lparr>HistoryFilter_Page := p\<rparr>) = applyFilter heap h f"
  by (simp add: applyFilter_def filter_matches_def cong: option.case_cong)

lemma concat_pages: "concat (map (\<lambda>k. take n (drop (k * n) xs)) [0..<m]) = take (m * n) xs"
  by (induction m) (simp_all add: take_add add.commute [of n])

lemma GetHistory_page:
  fixes k :: nat and heap h f
  defines "L \<equiv> applyFilter heap h f" and "pp \<equiv> HistoryFilter_PerPage f"
  assumes "1 \<le> pp" and "pp \<le> 100" and "int k * pp < 2 ^ 63"
  shows "GetHistory heap h (f\<lparr>HistoryFilter_Page := int k + 1\<rparr>) =
    Return \<lparr>PaginatedResult_Entries = take (nat pp) (drop (k * nat pp) L), PaginatedResult_Total = int (length L),
      PaginatedResult_Page = int k + 1, PaginatedResult_PerPage = pp,
      PaginatedResult_TotalPages = int (length L) div pp + (if int (length L) mod pp \<noteq> 0 then 1 else 0)\<rparr>"
proof -
  have i: "i64 (int k * pp) = int k * pp" using assms(3,5) by (intro i64_id_nonneg) simp_all
  have n: "nat (int k * pp) = k * nat pp" using assms(3) by (simp add: nat_mult_distrib)
  have le: "length L \<le> k * nat pp" if "int (length L) \<le> int k * pp"
    using that n by linarith
  have t: "take (nat (int (length L) - int k * pp)) (drop (k * nat pp) L) = drop (k * nat pp) L"
      "take (nat pp) (drop (k * nat pp) L) = drop (k * nat pp) L" if "int (length L) < int k * pp + pp"
    using that n by (auto intro!: take_all)
  have nn: "0 \<le> int k * pp" using assms(3) by simp
  show ?thesis
    using assms(3,4) i n le t nn
    by (cases "int (length L) \<le> int k * pp"; cases "int (length L) < int k * pp + pp")
      (auto simp: GetHistory_def Let_def pp_def [symmetric] L_def [symmetric] not_less not_le)
qed

lemma pages_enough:
  fixes n pp :: int
  assumes "0 \<le> n" and "0 < pp"
  defines "tp \<equiv> n div pp + (if n mod pp \<noteq> 0 then 1 else 0)"
  shows "n \<le> tp * pp \<and> (\<forall>k. 0 \<le> k \<and> k < tp \<longrightarrow> k * pp < n)"
proof -
  have n: "n = n div pp * pp + n mod pp" by simp
  have m: "0 \<le> n mod pp" "n mod pp < pp" using assms(2) by simp_all
  have "n \<le> tp * pp"
  proof (cases "n mod pp = 0")
    case False
    then have "tp * pp = n div pp * pp + pp" by (simp add: tp_def distrib_right)
    then show ?thesis using n m by linarith
  qed (use n in \<open>simp add: tp_def\<close>)
  moreover have "k * pp < n" if "0 \<le> k" "k < tp" for k
  proof (cases "n mod pp = 0")
    case True
    then have "k < n div pp" using that by (simp add: tp_def)
    then have "k * pp < n div pp * pp" using assms(2) by simp
    then show ?thesis using n True by linarith
  next
    case False
    then have "k \<le> n div pp" using that by (simp add: tp_def)
    then have "k * pp \<le> n div pp * pp" using assms(2) by (simp add: mult_right_mono)
    then show ?thesis using n m False by linarith
  qed
  ultimately show ?thesis by blast
qed

section \<open>Properties\<close>

text \<open>
  (C15) The pages of a query partition its result: for a valid page size, the pages from the first to the reported last
  one are all returned, each has at most the requested number of entries, and one after another they are the
  entries that match the filter, each exactly once, sorted by the requested key, with ties in the order of recording.
\<close>

theorem GetHistory_pages:
  fixes heap h f
  defines "L \<equiv> filter (\<lambda>e. filter_matches f (delivery_of heap e)) (WebhookHistory_entries h)"
    and "lt \<equiv> entry_less heap (HistoryFilter_OrderBy f)"
  assumes "1 \<le> HistoryFilter_PerPage f" and "HistoryFilter_PerPage f \<le> 100" and "int (length L) < 2 ^ 63"
  shows "\<exists>ps. map (\<lambda>k. GetHistory heap h (f\<lparr>HistoryFilter_Page := int k + 1\<rparr>)) [0..<length ps] = map Return ps \<and>
    (\<forall>p \<in> set ps. PaginatedResult_TotalPages p = int (length ps) \<and> PaginatedResult_Total p = int (length L) \<and>
      int (length (PaginatedResult_Entries p)) \<le> HistoryFilter_PerPage f) \<and>
    (let all = concat (map PaginatedResult_Entries ps) in
      mset all = mset L \<and> sorted_wrt (\<lambda>a b. \<not> lt b a) all \<and> (\<forall>a. filter (tied lt a) all = filter (tied lt a) L))"
proof -
  let ?pp = "HistoryFilter_PerPage f" and ?A = "applyFilter heap h f"
  have A: "?A = SliceStable lt L" by (simp add: applyFilter_def sortEntries_def L_def lt_def)
  define tp where "tp = int (length L) div ?pp + (if int (length L) mod ?pp \<noteq> 0 then 1 else 0)"
  have tp: "int (length L) \<le> tp * ?pp" "\<And>k. 0 \<le> k \<Longrightarrow> k < tp \<Longrightarrow> k * ?pp < int (length L)"
    using pages_enough [of "int (length L)" ?pp] assms(3) by (simp_all add: tp_def)
  have tp0: "0 \<le> tp" using assms(3) by (simp add: tp_def pos_imp_zdiv_nonneg_iff)
  define P where "P k = \<lparr>PaginatedResult_Entries = take (nat ?pp) (drop (k * nat ?pp) ?A), PaginatedResult_Total = int (length L),
      PaginatedResult_Page = int k + 1, PaginatedResult_PerPage = ?pp, PaginatedResult_TotalPages = tp\<rparr>" for k
  have page: "GetHistory heap h (f\<lparr>HistoryFilter_Page := int k + 1\<rparr>) = Return (P k)" if "k < nat tp" for k
  proof -
    have "int k < tp" using that by linarith
    then have "int k * ?pp < 2 ^ 63" using tp(2) [of "int k"] assms(5) by linarith
    from GetHistory_page [OF assms(3,4) this, of heap h] show ?thesis by (simp add: P_def A tp_def)
  qed
  have "length L \<le> nat tp * nat ?pp" using tp(1) tp0 assms(3) by (simp add: nat_mult_distrib [symmetric] nat_le_iff)
  then have all: "concat (map PaginatedResult_Entries (map P [0..<nat tp])) = ?A"
    using concat_pages [of "nat ?pp" ?A "nat tp"] by (simp add: comp_def P_def A)
  show ?thesis
  proof (intro exI [of _ "map P [0..<nat tp]"] conjI)
    show "map (\<lambda>k. GetHistory heap h (f\<lparr>HistoryFilter_Page := int k + 1\<rparr>)) [0..<length (map P [0..<nat tp])] =
        map Return (map P [0..<nat tp])" using page by simp
    show "\<forall>p \<in> set (map P [0..<nat tp]). PaginatedResult_TotalPages p = int (length (map P [0..<nat tp])) \<and>
        PaginatedResult_Total p = int (length L) \<and> int (length (PaginatedResult_Entries p)) \<le> ?pp"
      using tp0 assms(3) by (auto simp: P_def min_def)
    show "let all = concat (map PaginatedResult_Entries (map P [0..<nat tp])) in
        mset all = mset L \<and> sorted_wrt (\<lambda>a b. \<not> lt b a) all \<and> (\<forall>a. filter (tied lt a) all = filter (tied lt a) L)"
      unfolding all Let_def A lt_def
      by (simp add: entry_order.sorted_SliceStable entry_order.stable_SliceStable)
  qed
qed

theorem GetHistory_pages_witness:
  "\<exists>ps. map (\<lambda>k. GetHistory example_heap example_history (DefaultHistoryFilter\<lparr>HistoryFilter_PerPage := 2, HistoryFilter_Page := int k + 1\<rparr>))
      [0..<length ps] = map Return ps \<and>
    sum_list (map (\<lambda>p. length (PaginatedResult_Entries p)) ps) = 3"
proof -
  have L: "length (filter (\<lambda>e. filter_matches (DefaultHistoryFilter\<lparr>HistoryFilter_PerPage := 2\<rparr>) (delivery_of example_heap e))
      (WebhookHistory_entries example_history)) = 3" by code_simp
  obtain ps where ps: "map (\<lambda>k. GetHistory example_heap example_history (DefaultHistoryFilter\<lparr>HistoryFilter_PerPage := 2, HistoryFilter_Page := int k + 1\<rparr>))
      [0..<length ps] = map Return ps"
    "mset (concat (map PaginatedResult_Entries ps)) = mset (filter (\<lambda>e. filter_matches (DefaultHistoryFilter\<lparr>HistoryFilter_PerPage := 2\<rparr>) (delivery_of example_heap e))
      (WebhookHistory_entries example_history))"
    using GetHistory_pages [of "DefaultHistoryFilter\<lparr>HistoryFilter_PerPage := 2\<rparr>" example_heap example_history] L
    by (auto simp: Let_def)
  have "length (concat (map PaginatedResult_Entries ps)) = 3" using mset_eq_length [OF ps(2)] L by metis
  then show ?thesis using ps(1) by (auto simp: length_concat comp_def)
qed

text \<open>
  A page number from outside can crash the process: the start of the page is computed without a check for overflow, and for
  page \<open>2^62\<close> it is negative, which makes \<open>GetHistory\<close> panic on every history.
\<close>

theorem GetHistory_page_overflow:
  "GetHistory heap h (f\<lparr>HistoryFilter_Page := 2 ^ 62, HistoryFilter_PerPage := 20\<rparr>) = Panic"
  by (simp add: GetHistory_def Let_def i64_def)

text \<open>
  The index by identifier and the list of entries agree in every state the history can reach: a delivery is found
  by its identifier exactly when an entry for it is listed, and what is found is that entry.
\<close>

theorem history_consistent:
  assumes "history_reachable c heap h"
  shows "(GetDelivery h i \<noteq> None \<longleftrightarrow> (\<exists>e \<in> set (WebhookHistory_entries h). WebhookDelivery_ID (delivery_of heap e) = i)) \<and>
    (\<forall>e. GetDelivery h i = Some e \<longrightarrow> e \<in> set (WebhookHistory_entries h) \<and> HistoryEntry_Delivery e < length heap \<and>
      WebhookDelivery_ID (delivery_of heap e) = i)"
  using history_reachable_ok [OF assms] unfolding history_ok_def GetDelivery_def gm_has_def by blast

theorem history_consistent_witness:
  "\<exists>e. GetDelivery (RecordDelivery [example_delivery 10 0] 0 ''hook'' ''http://x'' (NewWebhookHistory DefaultRetentionConfig)) 10 = Some e \<and>
    HistoryEntry_Delivery e = 0"
proof -
  let ?h = "RecordDelivery [example_delivery 10 0] 0 ''hook'' ''http://x'' (NewWebhookHistory DefaultRetentionConfig)"
  have "history_reachable DefaultRetentionConfig [example_delivery 10 0] ?h"
    using history_reachable.recorded [OF history_reachable.alloc [OF history_reachable.new]] by fastforce
  from history_consistent [OF this, of 10]
  have "GetDelivery ?h 10 \<noteq> None" "\<forall>e. GetDelivery ?h 10 = Some e \<longrightarrow> HistoryEntry_Delivery e < 1"
    by (auto simp: RecordDelivery_def Let_def NewWebhookHistory_def example_delivery_def)
  then show ?thesis by auto
qed

text \<open>
  The retention keeps the entries younger than the limit in their order, and at most \<open>MaxEntries\<close> of them, the first
  ones: when there are too many it is the latest deliveries that the history forgets.
\<close>

theorem enforceRetention_keeps_oldest:
  fixes heap now h
  defines "young \<equiv> filter (\<lambda>e. WebhookDelivery_CreatedAt (delivery_of heap e) >
      now + i64 (- RetentionConfig_RetentionDuration (WebhookHistory_retention h))) (WebhookHistory_entries h)"
  shows "\<exists>dropped. young = WebhookHistory_entries (enforceRetention heap now h) @ dropped \<and>
    int (length (WebhookHistory_entries (enforceRetention heap now h))) =
      min (int (length young)) (max 0 (RetentionConfig_MaxEntries (WebhookHistory_retention h)))"
  unfolding enforceRetention_entries young_def [symmetric]
  by (rule exI [of _ "drop (nat (RetentionConfig_MaxEntries (WebhookHistory_retention h))) young"]) simp

end
