(* ===== verification/Webhook_Notifier.thy ===== *)
theory Webhook_Notifier
  imports Webhook_Manager Webhook_History
begin

text \<open>
  The notifier of \<^verbatim>\<open>internal/webhook/notifier.go\<close>: it queues a task for an event, its workers and its batch processor deliver
  the task to the webhooks, failed tasks come back through timers, and tasks that failed too often go to a list of
  dead letters. The state has the queue, the pending timers, the batch, and the manager, history and deliveries the notifier works on;
  each goroutine step is a function on it. Identifiers, clock readings and what each delivery meets are arguments.
\<close>

section \<open>Data\<close>

record NotificationEvent =
  NotificationEvent_ID :: uuid
  NotificationEvent_EventType :: string
  NotificationEvent_Source :: string
  NotificationEvent_Payload :: string
  NotificationEvent_Timestamp :: gotime
  NotificationEvent_Metadata :: "(string, string) gmap"

record NotificationTask =
  NotificationTask_ID :: uuid
  NotificationTask_Event :: NotificationEvent
  NotificationTask_Webhooks :: "webhook_ptr list"
  NotificationTask_CreatedAt :: gotime
  NotificationTask_Retries :: int
  NotificationTask_MaxRetries :: int

datatype DeadLetterReason = MaxRetriesExceeded DeliverError | RetryQueueFull | ReplayQueueFull

record DeadLetterEntry =
  DeadLetterEntry_ID :: uuid
  DeadLetterEntry_Task :: NotificationTask
  DeadLetterEntry_Reason :: DeadLetterReason
  DeadLetterEntry_FailedAt :: gotime
  DeadLetterEntry_RetryCount :: int

record NotifierConfig =
  NotifierConfig_QueueSize :: int
  NotifierConfig_WorkerCount :: int
  NotifierConfig_BatchSize :: int
  NotifierConfig_BatchInterval :: dur
  NotifierConfig_DeadLetterLimit :: int

definition DefaultNotifierConfig :: NotifierConfig where
  "DefaultNotifierConfig = \<lparr>NotifierConfig_QueueSize = 1024, NotifierConfig_WorkerCount = 4, NotifierConfig_BatchSize = 10,
     NotifierConfig_BatchInterval = 500 * Millisecond, NotifierConfig_DeadLetterLimit = 1000\<rparr>"

record NotifierMetrics =
  Metrics_NotificationsSent :: int
  Metrics_NotificationsFailed :: int
  Metrics_NotificationsDropped :: int
  Metrics_DeadLetterCount :: int
  Metrics_BatchCount :: int

text \<open>The fields from \<open>timers\<close> on are what the goroutines and the run-time system hold.\<close>

record EventNotifier =
  EventNotifier_config :: NotifierConfig
  EventNotifier_manager :: WebhookManager
  EventNotifier_deliverer :: Deliverer
  EventNotifier_history :: WebhookHistory
  EventNotifier_taskCh :: "NotificationTask chan"
  EventNotifier_deadLetter :: "DeadLetterEntry list"
  EventNotifier_stopCh :: "unit chan"
  EventNotifier_started :: bool
  EventNotifier_metrics :: NotifierMetrics
  EventNotifier_timers :: "(dur \<times> NotificationTask) list"
  EventNotifier_batch :: "NotificationTask list"
  EventNotifier_workers :: nat
  EventNotifier_deliveries :: delivery_store

datatype NotifyError = NotificationQueueFull uuid | DeadLetterNotFound uuid | QueueFullDuringReplay

definition NewEventNotifier :: "NotifierConfig \<Rightarrow> WebhookManager \<Rightarrow> Deliverer \<Rightarrow> WebhookHistory \<Rightarrow> (unit, EventNotifier) outcome" where
  "NewEventNotifier c m d h =
     (if NotifierConfig_QueueSize c < 0 \<or> NotifierConfig_DeadLetterLimit c < 0 then Panic
      else Return \<lparr>EventNotifier_config = c, EventNotifier_manager = m, EventNotifier_deliverer = d, EventNotifier_history = h,
        EventNotifier_taskCh = chan_make (NotifierConfig_QueueSize c), EventNotifier_deadLetter = [],
        EventNotifier_stopCh = chan_make 0, EventNotifier_started = False,
        EventNotifier_metrics = \<lparr>Metrics_NotificationsSent = 0, Metrics_NotificationsFailed = 0, Metrics_NotificationsDropped = 0,
          Metrics_DeadLetterCount = 0, Metrics_BatchCount = 0\<rparr>,
        EventNotifier_timers = [], EventNotifier_batch = [], EventNotifier_workers = 0, EventNotifier_deliveries = []\<rparr>)"

section \<open>Starting and stopping\<close>

definition notifier_Start :: "EventNotifier \<Rightarrow> EventNotifier" where
  "notifier_Start n =
     (if EventNotifier_started n then n
      else n\<lparr>EventNotifier_started := True,
             EventNotifier_workers := EventNotifier_workers n + nat (NotifierConfig_WorkerCount (EventNotifier_config n))\<rparr>)"

text \<open>A second stop, after another start, closes a closed channel.\<close>

definition notifier_Stop :: "EventNotifier \<Rightarrow> (unit, EventNotifier) outcome" where
  "notifier_Stop n =
     (if \<not> EventNotifier_started n then Return n
      else case chan_close (EventNotifier_stopCh n) of
             Return c \<Rightarrow> Return (n\<lparr>EventNotifier_started := False, EventNotifier_stopCh := c, EventNotifier_workers := 0\<rparr>)
           | Error e \<Rightarrow> Error e | Panic \<Rightarrow> Panic)"

section \<open>Queueing\<close>

definition bump :: "((int \<Rightarrow> int) \<Rightarrow> NotifierMetrics \<Rightarrow> NotifierMetrics) \<Rightarrow> EventNotifier \<Rightarrow> EventNotifier" where
  "bump upd n = n\<lparr>EventNotifier_metrics := upd (\<lambda>k. k + 1) (EventNotifier_metrics n)\<rparr>"

text \<open>A send on the task channel, which is never closed, in a \<^verbatim>\<open>select\<close> with a \<^verbatim>\<open>default\<close>.\<close>

definition send_task :: "NotificationTask \<Rightarrow> EventNotifier \<Rightarrow> EventNotifier option" where
  "send_task t n = map_option (\<lambda>c. n\<lparr>EventNotifier_taskCh := c\<rparr>) (chan_push t (EventNotifier_taskCh n))"

definition Notify :: "uuid \<Rightarrow> gotime \<Rightarrow> NotificationEvent \<Rightarrow> EventNotifier \<Rightarrow> NotifyError option \<times> EventNotifier" where
  "Notify newID now event n =
     (let webhooks = MatchWebhooks (EventNotifier_manager n) (NotificationEvent_EventType event)
      in if length webhooks = 0 then (None, n)
         else let task = \<lparr>NotificationTask_ID = newID, NotificationTask_Event = event, NotificationTask_Webhooks = webhooks,
                    NotificationTask_CreatedAt = now, NotificationTask_Retries = 0, NotificationTask_MaxRetries = 3\<rparr>
              in case send_task task n of
                   Some n' \<Rightarrow> (None, bump Metrics_NotificationsSent_update n')
                 | None \<Rightarrow> (Some (NotificationQueueFull (NotificationEvent_ID event)), bump Metrics_NotificationsDropped_update n))"

fun NotifyBatch :: "(uuid \<times> gotime \<times> NotificationEvent) list \<Rightarrow> EventNotifier \<Rightarrow> NotifyError list \<times> EventNotifier" where
  "NotifyBatch [] n = ([], n)"
| "NotifyBatch ((newID, now, event) # es) n =
     (let (err, n1) = Notify newID now event n; (errs, n2) = NotifyBatch es n1
      in (case err of Some e \<Rightarrow> e # errs | None \<Rightarrow> errs, n2))"

text \<open>The goroutine of \<^verbatim>\<open>NotifyAsync\<close> only logs the error.\<close>

definition NotifyAsync :: "uuid \<Rightarrow> gotime \<Rightarrow> NotificationEvent \<Rightarrow> EventNotifier \<Rightarrow> EventNotifier" where
  "NotifyAsync newID now event n = snd (Notify newID now event n)"

section \<open>Dead letters and retries\<close>

definition moveToDeadLetter :: "uuid \<Rightarrow> gotime \<Rightarrow> NotificationTask \<Rightarrow> DeadLetterReason \<Rightarrow> EventNotifier \<Rightarrow> (unit, EventNotifier) outcome" where
  "moveToDeadLetter newID now task reason n =
     (let entry = \<lparr>DeadLetterEntry_ID = newID, DeadLetterEntry_Task = task, DeadLetterEntry_Reason = reason,
            DeadLetterEntry_FailedAt = now, DeadLetterEntry_RetryCount = NotificationTask_Retries task\<rparr>;
          full = int (length (EventNotifier_deadLetter n)) \<ge> NotifierConfig_DeadLetterLimit (EventNotifier_config n)
      in if full \<and> EventNotifier_deadLetter n = [] then Panic
         else Return (bump Metrics_DeadLetterCount_update (n\<lparr>EventNotifier_deadLetter :=
           (if full then drop 1 (EventNotifier_deadLetter n) else EventNotifier_deadLetter n) @ [entry]\<rparr>)))"

definition retry_backoff :: "NotificationTask \<Rightarrow> dur" where
  "retry_backoff task =
     (let backoff = i64 (i64 (2 ^ nat (NotificationTask_Retries task)) * Second) in if backoff > 30 * Second then 30 * Second else backoff)"

definition retryTask :: "NotificationTask \<Rightarrow> EventNotifier \<Rightarrow> EventNotifier" where
  "retryTask task n = n\<lparr>EventNotifier_timers := EventNotifier_timers n @ [(retry_backoff task, task)]\<rparr>"

text \<open>The function of the timer number \<open>k\<close>, when it fires.\<close>

definition fire_timer :: "nat \<Rightarrow> uuid \<Rightarrow> gotime \<Rightarrow> EventNotifier \<Rightarrow> (unit, EventNotifier) outcome" where
  "fire_timer k newID now n =
     (let task = snd (EventNotifier_timers n ! k);
          n1 = n\<lparr>EventNotifier_timers := take k (EventNotifier_timers n) @ drop (Suc k) (EventNotifier_timers n)\<rparr>
      in case send_task task n1 of
           Some n2 \<Rightarrow> Return n2
         | None \<Rightarrow> moveToDeadLetter newID now task RetryQueueFull n1)"

section \<open>Processing a task\<close>

text \<open>What the delivery to the webhook number \<open>k\<close> of a task meets.\<close>

record TaskEnv =
  tenv_delivery :: "nat \<Rightarrow> DeliveryEnv"
  tenv_id :: "nat \<Rightarrow> uuid"
  tenv_now :: "nat \<Rightarrow> gotime"
  tenv_done :: "nat \<Rightarrow> gotime"
  tenv_dead_id :: "nat \<Rightarrow> uuid"

definition Milliseconds :: "dur \<Rightarrow> int" where
  "Milliseconds d = (if 0 \<le> d then d div Millisecond else - ((- d) div Millisecond))"

definition new_delivery :: "uuid \<Rightarrow> gotime \<Rightarrow> Webhook \<Rightarrow> NotificationEvent \<Rightarrow> WebhookDelivery" where
  "new_delivery deliveryID now wh event =
     \<lparr>WebhookDelivery_ID = deliveryID, WebhookDelivery_WebhookID = Webhook_ID wh,
      WebhookDelivery_EventType = NotificationEvent_EventType event, WebhookDelivery_URL = Webhook_URL wh,
      WebhookDelivery_Status = DeliveryStatusDelivering, WebhookDelivery_StatusCode = 0,
      WebhookDelivery_RequestBody = NotificationEvent_Payload event, WebhookDelivery_ResponseBody = [], WebhookDelivery_DurationMS = 0,
      WebhookDelivery_Attempt = 1, WebhookDelivery_MaxRetries = DeliveryConfig_MaxRetries (Webhook_RetryConfig wh),
      WebhookDelivery_Error = None, WebhookDelivery_CreatedAt = now, WebhookDelivery_UpdatedAt = now\<rparr>"

definition update_delivery ::
  "uuid \<Rightarrow> gotime \<Rightarrow> DeliveryStatus \<Rightarrow> DeliveryResult \<Rightarrow> DeliverError option \<Rightarrow> EventNotifier \<Rightarrow> EventNotifier" where
  "update_delivery deliveryID now status r err n =
     n\<lparr>EventNotifier_deliveries :=
         UpdateDeliveryAttempt (EventNotifier_history n) deliveryID (DeliveryResult_Attempt r) (Milliseconds (DeliveryResult_Duration r)) now
           (UpdateDeliveryStatus (EventNotifier_history n) deliveryID status (DeliveryResult_StatusCode r)
             (DeliveryResult_ResponseBody r) err now (EventNotifier_deliveries n))\<rparr>"

definition start_delivery :: "uuid \<Rightarrow> gotime \<Rightarrow> Webhook \<Rightarrow> NotificationEvent \<Rightarrow> EventNotifier \<Rightarrow> EventNotifier" where
  "start_delivery deliveryID now wh event n =
     (let heap = EventNotifier_deliveries n @ [new_delivery deliveryID now wh event]
      in n\<lparr>EventNotifier_deliveries := heap,
           EventNotifier_history := RecordDelivery heap (length (EventNotifier_deliveries n)) (Webhook_Name wh) (Webhook_URL wh)
             (EventNotifier_history n)\<rparr>)"

definition deliver_event :: "EventNotifier \<Rightarrow> DeliveryEnv \<Rightarrow> Webhook \<Rightarrow> NotificationEvent \<Rightarrow> (unit, DeliveryResult option \<times> DeliverError option) outcome" where
  "deliver_event n denv wh event =
     fst (Deliver (\<lambda>v :: unit. Inr []) (EventNotifier_deliverer n) denv (Webhook_ID wh) (Webhook_URL wh)
       (NotificationEvent_EventType event) (Webhook_Secret wh) (Webhook_Headers wh) (PayloadRaw (NotificationEvent_Payload event)))"

text \<open>The loop over the webhooks of a task: its \<^verbatim>\<open>Retries\<close> grow with each failed delivery of the same pass.\<close>

fun process_webhooks ::
  "TaskEnv \<Rightarrow> nat \<Rightarrow> webhook_ptr list \<Rightarrow> NotificationTask \<Rightarrow> EventNotifier \<Rightarrow> (unit, EventNotifier) outcome" where
  "process_webhooks env k [] task n = Return n"
| "process_webhooks env k (p # ps) task n =
     (let wh = webhook_at (EventNotifier_manager n) p;
          event = NotificationTask_Event task;
          deliveryID = tenv_id env k;
          n1 = start_delivery deliveryID (tenv_now env k) wh event n
      in case deliver_event n1 (tenv_delivery env k) wh event of
           Panic \<Rightarrow> Panic
         | Error e \<Rightarrow> Error e
         | Return (None, err) \<Rightarrow> Panic
         | Return (Some r, None) \<Rightarrow>
             process_webhooks env (Suc k) ps task (update_delivery deliveryID (tenv_done env k) DeliveryStatusSuccess r None n1)
         | Return (Some r, Some err) \<Rightarrow>
             (let n2 = bump Metrics_NotificationsFailed_update n1;
                  status = (if DeliveryResult_Attempt r < DeliveryConfig_MaxRetries (Webhook_RetryConfig wh)
                            then DeliveryStatusRetrying else DeliveryStatusFailed);
                  n3 = update_delivery deliveryID (tenv_done env k) status r (Some err) n2
              in if NotificationTask_Retries task < NotificationTask_MaxRetries task
                 then let task' = task\<lparr>NotificationTask_Retries := NotificationTask_Retries task + 1\<rparr>
                      in process_webhooks env (Suc k) ps task' (retryTask task' n3)
                 else case moveToDeadLetter (tenv_dead_id env k) (tenv_done env k) task (MaxRetriesExceeded err) n3 of
                        Return n4 \<Rightarrow> process_webhooks env (Suc k) ps task n4
                      | Error e \<Rightarrow> Error e | Panic \<Rightarrow> Panic))"

definition processTask :: "TaskEnv \<Rightarrow> NotificationTask \<Rightarrow> EventNotifier \<Rightarrow> (unit, EventNotifier) outcome" where
  "processTask env task n = process_webhooks env 0 (NotificationTask_Webhooks task) task n"

text \<open>One round of a worker, and of the batch processor; \<open>env\<close> is numbered by the task of the batch.\<close>

definition worker_round :: "TaskEnv \<Rightarrow> EventNotifier \<Rightarrow> (unit, EventNotifier) outcome" where
  "worker_round env n =
     (case chan_pop (EventNotifier_taskCh n) of
        None \<Rightarrow> Return n
      | Some (task, c) \<Rightarrow> processTask env task (n\<lparr>EventNotifier_taskCh := c\<rparr>))"

fun process_all :: "(nat \<Rightarrow> TaskEnv) \<Rightarrow> nat \<Rightarrow> NotificationTask list \<Rightarrow> EventNotifier \<Rightarrow> (unit, EventNotifier) outcome" where
  "process_all env k [] n = Return n"
| "process_all env k (t # ts) n =
     (case processTask (env k) t n of Return n' \<Rightarrow> process_all env (Suc k) ts n' | Error e \<Rightarrow> Error e | Panic \<Rightarrow> Panic)"

definition flushBatch :: "(nat \<Rightarrow> TaskEnv) \<Rightarrow> NotificationTask list \<Rightarrow> EventNotifier \<Rightarrow> (unit, EventNotifier) outcome" where
  "flushBatch env batch n = process_all env 0 batch (bump Metrics_BatchCount_update n)"

datatype batch_wakeup = BatchTask | BatchTick | BatchStop

definition batch_round :: "(nat \<Rightarrow> TaskEnv) \<Rightarrow> batch_wakeup \<Rightarrow> EventNotifier \<Rightarrow> (unit, EventNotifier) outcome" where
  "batch_round env w n =
     (case w of
        BatchTask \<Rightarrow>
          (case chan_pop (EventNotifier_taskCh n) of
             None \<Rightarrow> Return n
           | Some (task, c) \<Rightarrow>
               (let batch = EventNotifier_batch n @ [task]; n1 = n\<lparr>EventNotifier_taskCh := c\<rparr>
                in if int (length batch) \<ge> NotifierConfig_BatchSize (EventNotifier_config n)
                   then flushBatch env batch (n1\<lparr>EventNotifier_batch := []\<rparr>)
                   else Return (n1\<lparr>EventNotifier_batch := batch\<rparr>)))
      | _ \<Rightarrow> if length (EventNotifier_batch n) > 0
             then flushBatch env (EventNotifier_batch n) (n\<lparr>EventNotifier_batch := []\<rparr>) else Return n)"

section \<open>Replaying dead letters\<close>

definition replay_entry :: "uuid \<Rightarrow> gotime \<Rightarrow> DeadLetterEntry \<Rightarrow> EventNotifier \<Rightarrow> (unit, bool \<times> EventNotifier) outcome" where
  "replay_entry newID now e n =
     (let task = (DeadLetterEntry_Task e)\<lparr>NotificationTask_Retries := 0\<rparr>
      in case send_task task n of
           Some n' \<Rightarrow> Return (True, n')
         | None \<Rightarrow> (case moveToDeadLetter newID now task ReplayQueueFull n of
                      Return n' \<Rightarrow> Return (False, n') | Error e \<Rightarrow> Error e | Panic \<Rightarrow> Panic))"

fun find_entry :: "uuid \<Rightarrow> DeadLetterEntry list \<Rightarrow> (DeadLetterEntry \<times> DeadLetterEntry list) option" where
  "find_entry i [] = None"
| "find_entry i (e # es) =
     (if DeadLetterEntry_ID e = i then Some (e, es) else map_option (\<lambda>(x, rest). (x, e # rest)) (find_entry i es))"

definition ReplayDeadLetter :: "uuid \<Rightarrow> gotime \<Rightarrow> uuid \<Rightarrow> EventNotifier \<Rightarrow> (unit, NotifyError option \<times> EventNotifier) outcome" where
  "ReplayDeadLetter newID now entryID n =
     (case find_entry entryID (EventNotifier_deadLetter n) of
        None \<Rightarrow> Return (Some (DeadLetterNotFound entryID), n)
      | Some (e, rest) \<Rightarrow>
          (case replay_entry newID now e (n\<lparr>EventNotifier_deadLetter := rest\<rparr>) of
             Return (True, n') \<Rightarrow> Return (None, n')
           | Return (False, n') \<Rightarrow> Return (Some QueueFullDuringReplay, n')
           | Error e \<Rightarrow> Error e | Panic \<Rightarrow> Panic))"

fun replay_entries :: "(uuid \<times> gotime) list \<Rightarrow> DeadLetterEntry list \<Rightarrow> EventNotifier \<Rightarrow> (unit, nat \<times> EventNotifier) outcome" where
  "replay_entries fresh [] n = Return (0, n)"
| "replay_entries fresh (e # es) n =
     (case replay_entry (fst (hd fresh)) (snd (hd fresh)) e n of
        Return (b, n1) \<Rightarrow>
          (case replay_entries (tl fresh) es n1 of
             Return (k, n2) \<Rightarrow> Return (if b then Suc k else k, n2) | Error e \<Rightarrow> Error e | Panic \<Rightarrow> Panic)
      | Error e \<Rightarrow> Error e | Panic \<Rightarrow> Panic)"

definition ReplayAllDeadLetter :: "(uuid \<times> gotime) list \<Rightarrow> EventNotifier \<Rightarrow> (unit, nat \<times> EventNotifier) outcome" where
  "ReplayAllDeadLetter fresh n = replay_entries fresh (EventNotifier_deadLetter n) (n\<lparr>EventNotifier_deadLetter := []\<rparr>)"

definition ClearDeadLetter :: "EventNotifier \<Rightarrow> nat \<times> EventNotifier" where
  "ClearDeadLetter n = (length (EventNotifier_deadLetter n), n\<lparr>EventNotifier_deadLetter := []\<rparr>)"

definition QueueDepth :: "EventNotifier \<Rightarrow> nat" where
  "QueueDepth n = length (EventNotifier_deadLetter n)"

definition GetDeadLetterEntries :: "EventNotifier \<Rightarrow> DeadLetterEntry list" where
  "GetDeadLetterEntries n = EventNotifier_deadLetter n"

definition GetMetrics :: "EventNotifier \<Rightarrow> NotifierMetrics" where
  "GetMetrics n = EventNotifier_metrics n"

definition notifier_IsRunning :: "EventNotifier \<Rightarrow> bool" where
  "notifier_IsRunning n = EventNotifier_started n"

section \<open>Definitions for the statements\<close>

text \<open>What processing a task leaves alone.\<close>

definition frame :: "EventNotifier \<Rightarrow> NotifierConfig \<times> WebhookManager \<times> Deliverer \<times> NotificationTask chan \<times> unit chan \<times> bool \<times> NotificationTask list \<times> nat" where
  "frame n = (EventNotifier_config n, EventNotifier_manager n, EventNotifier_deliverer n, EventNotifier_taskCh n, EventNotifier_stopCh n,
     EventNotifier_started n, EventNotifier_batch n, EventNotifier_workers n)"

definition delivery_fails :: "EventNotifier \<Rightarrow> TaskEnv \<Rightarrow> NotificationEvent \<Rightarrow> nat \<Rightarrow> webhook_ptr \<Rightarrow> bool" where
  "delivery_fails n env event k p =
     (case deliver_event n (tenv_delivery env k) (webhook_at (EventNotifier_manager n) p) event of
        Return (_, Some _) \<Rightarrow> True | _ \<Rightarrow> False)"

fun failed_deliveries :: "EventNotifier \<Rightarrow> TaskEnv \<Rightarrow> NotificationEvent \<Rightarrow> nat \<Rightarrow> webhook_ptr list \<Rightarrow> nat" where
  "failed_deliveries n env event k [] = 0"
| "failed_deliveries n env event k (p # ps) =
     (if delivery_fails n env event k p then 1 else 0) + failed_deliveries n env event (Suc k) ps"

definition retries_left :: "NotificationTask \<Rightarrow> nat" where
  "retries_left t = nat (NotificationTask_MaxRetries t - NotificationTask_Retries t)"

definition retried :: "NotificationTask \<Rightarrow> nat \<Rightarrow> NotificationTask" where
  "retried t i = t\<lparr>NotificationTask_Retries := NotificationTask_Retries t + int i\<rparr>"

definition notifier_safe :: "EventNotifier \<Rightarrow> bool" where
  "notifier_safe n \<longleftrightarrow> 0 < DeliveryConfig_MaxRetries (Deliverer_config (EventNotifier_deliverer n)) \<and>
     0 < NotifierConfig_DeadLetterLimit (EventNotifier_config n) \<and>
     int (length (EventNotifier_deadLetter n)) \<le> NotifierConfig_DeadLetterLimit (EventNotifier_config n)"

text \<open>The steps the notifier takes on its own, and what bounds their number.\<close>

inductive internal_step :: "EventNotifier \<Rightarrow> EventNotifier \<Rightarrow> bool" where
  worker: "0 < EventNotifier_workers n \<Longrightarrow> chan_buf (EventNotifier_taskCh n) \<noteq> [] \<Longrightarrow> worker_round env n = Return n' \<Longrightarrow> internal_step n n'"
| batch_task: "EventNotifier_started n \<Longrightarrow> chan_buf (EventNotifier_taskCh n) \<noteq> [] \<Longrightarrow> batch_round benv BatchTask n = Return n' \<Longrightarrow> internal_step n n'"
| batch_tick: "EventNotifier_started n \<Longrightarrow> EventNotifier_batch n \<noteq> [] \<Longrightarrow> batch_round benv BatchTick n = Return n' \<Longrightarrow> internal_step n n'"
| timer: "k < length (EventNotifier_timers n) \<Longrightarrow> fire_timer k i now n = Return n' \<Longrightarrow> internal_step n n'"

definition task_weight :: "NotificationTask \<Rightarrow> nat" where
  "task_weight t = 3 * 2 ^ retries_left t"

definition pending_measure :: "EventNotifier \<Rightarrow> nat" where
  "pending_measure n = (\<Sum>(d, t) \<leftarrow> EventNotifier_timers n. task_weight t) +
     (\<Sum>t \<leftarrow> chan_buf (EventNotifier_taskCh n). task_weight t - 1) + (\<Sum>t \<leftarrow> EventNotifier_batch n. task_weight t - 2)"

definition idle :: "EventNotifier \<Rightarrow> bool" where
  "idle n \<longleftrightarrow> EventNotifier_timers n = [] \<and> chan_buf (EventNotifier_taskCh n) = [] \<and> EventNotifier_batch n = []"

text \<open>An example: a task for two webhooks whose receivers cannot be reached.\<close>

definition down_env :: TaskEnv where
  "down_env = \<lparr>tenv_delivery = (\<lambda>k. flaky_env\<lparr>denv_Do := \<lambda>k req. (Inl ''refused'', 0)\<rparr>), tenv_id = (\<lambda>k. of_nat k),
     tenv_now = (\<lambda>k. 0), tenv_done = (\<lambda>k. 0), tenv_dead_id = (\<lambda>k. 0)\<rparr>"

definition example_notifier :: EventNotifier where
  "example_notifier = \<lparr>EventNotifier_config = DefaultNotifierConfig, EventNotifier_manager = example_manager,
     EventNotifier_deliverer = NewDeliverer DefaultDeliveryConfig, EventNotifier_history = NewWebhookHistory DefaultRetentionConfig,
     EventNotifier_taskCh = chan_make 1024, EventNotifier_deadLetter = [], EventNotifier_stopCh = chan_make 0, EventNotifier_started = True,
     EventNotifier_metrics = \<lparr>Metrics_NotificationsSent = 0, Metrics_NotificationsFailed = 0, Metrics_NotificationsDropped = 0,
       Metrics_DeadLetterCount = 0, Metrics_BatchCount = 0\<rparr>,
     EventNotifier_timers = [], EventNotifier_batch = [], EventNotifier_workers = 4, EventNotifier_deliveries = []\<rparr>"

definition example_task :: NotificationTask where
  "example_task = \<lparr>NotificationTask_ID = 5, NotificationTask_Event = \<lparr>NotificationEvent_ID = 6, NotificationEvent_EventType = ''run.done'',
       NotificationEvent_Source = [], NotificationEvent_Payload = ''{}'', NotificationEvent_Timestamp = 0, NotificationEvent_Metadata = gm_empty\<rparr>,
     NotificationTask_Webhooks = [0, 1], NotificationTask_CreatedAt = 0, NotificationTask_Retries = 0, NotificationTask_MaxRetries = 3\<rparr>"

section \<open>Lemmas\<close>

lemma frame_simps [simp]:
  "frame (bump u n) = frame n" "frame (start_delivery i now wh event n) = frame n"
  "frame (update_delivery i now s r err n) = frame n" "frame (retryTask t n) = frame n"
  by (simp_all add: frame_def bump_def start_delivery_def update_delivery_def retryTask_def Let_def)

lemma timers_simps [simp]:
  "EventNotifier_timers (bump u n) = EventNotifier_timers n" "EventNotifier_timers (start_delivery i now wh event n) = EventNotifier_timers n"
  "EventNotifier_timers (update_delivery i now s r err n) = EventNotifier_timers n"
  "EventNotifier_timers (retryTask t n) = EventNotifier_timers n @ [(retry_backoff t, t)]"
  by (simp_all add: bump_def start_delivery_def update_delivery_def retryTask_def Let_def)

lemma dead_simps [simp]:
  "EventNotifier_deadLetter (bump u n) = EventNotifier_deadLetter n"
  "EventNotifier_deadLetter (start_delivery i now wh event n) = EventNotifier_deadLetter n"
  "EventNotifier_deadLetter (update_delivery i now s r err n) = EventNotifier_deadLetter n"
  "EventNotifier_deadLetter (retryTask t n) = EventNotifier_deadLetter n"
  by (simp_all add: bump_def start_delivery_def update_delivery_def retryTask_def Let_def)

lemma deliveries_simps [simp]:
  "EventNotifier_deliveries (bump u n) = EventNotifier_deliveries n"
  "length (EventNotifier_deliveries (start_delivery i now wh event n)) = Suc (length (EventNotifier_deliveries n))"
  "length (EventNotifier_deliveries (update_delivery i now s r err n)) = length (EventNotifier_deliveries n)"
  "EventNotifier_deliveries (retryTask t n) = EventNotifier_deliveries n"
  by (simp_all add: bump_def start_delivery_def update_delivery_def retryTask_def Let_def)

lemma dead_count_simps [simp]:
  "Metrics_DeadLetterCount (EventNotifier_metrics (bump Metrics_NotificationsFailed_update n)) = Metrics_DeadLetterCount (EventNotifier_metrics n)"
  "EventNotifier_metrics (start_delivery i now wh event n) = EventNotifier_metrics n"
  "EventNotifier_metrics (update_delivery i now s r err n) = EventNotifier_metrics n"
  "EventNotifier_metrics (retryTask t n) = EventNotifier_metrics n"
  by (simp_all add: bump_def start_delivery_def update_delivery_def retryTask_def Let_def)

lemma moveToDeadLetter_Return:
  assumes "moveToDeadLetter i now t reason n = Return n'"
  shows "frame n' = frame n" "EventNotifier_timers n' = EventNotifier_timers n" "EventNotifier_deliveries n' = EventNotifier_deliveries n"
    "Metrics_DeadLetterCount (EventNotifier_metrics n') = Metrics_DeadLetterCount (EventNotifier_metrics n) + 1"
    "int (length (EventNotifier_deadLetter n)) \<le> NotifierConfig_DeadLetterLimit (EventNotifier_config n) \<Longrightarrow>
      int (length (EventNotifier_deadLetter n')) \<le> NotifierConfig_DeadLetterLimit (EventNotifier_config n)"
  using assms by (auto simp: moveToDeadLetter_def Let_def frame_def bump_def split: if_splits)

lemma moveToDeadLetter_returns: "notifier_safe n \<Longrightarrow> \<exists>n'. moveToDeadLetter i now t reason n = Return n'"
  by (auto simp: moveToDeadLetter_def Let_def notifier_safe_def)

lemma Deliver_loop_returns:
  "(int a \<le> DeliveryConfig_MaxRetries c \<or> l \<noteq> None) \<Longrightarrow> (1 < a \<Longrightarrow> l \<noteq> None) \<Longrightarrow> 1 \<le> a \<Longrightarrow>
    \<exists>r err ws k. Deliver_loop c env send a l = (Return (Some r, err), ws, k)"
proof (induction c env send a l rule: Deliver_loop.induct)
  case (1 c env send a l)
  show ?case
  proof (cases "int a \<le> DeliveryConfig_MaxRetries c \<and> \<not> (1 < a \<and> denv_done env a) \<and> \<not> delivered (send a)")
    case True
    then have "\<exists>r err ws k. Deliver_loop c env send (Suc a) (Some (send a)) = (Return (Some r, err), ws, k)"
      by (intro "1.IH" [OF _ _ refl refl]) simp_all
    then obtain r err ws k where "Deliver_loop c env send (Suc a) (Some (send a)) = (Return (Some r, err), ws, k)" by blast
    with True show ?thesis by (subst Deliver_loop.simps) (auto simp: Let_def)
  next
    case False
    then show ?thesis using "1.prems" by (subst Deliver_loop.simps) (auto simp: Let_def split: option.splits)
  qed
qed

lemma deliver_event_returns:
  assumes "0 < DeliveryConfig_MaxRetries (Deliverer_config (EventNotifier_deliverer n))"
  shows "\<exists>r err. deliver_event n denv wh event = Return (Some r, err)"
proof -
  let ?c = "Deliverer_config (EventNotifier_deliverer n)" and ?body = "NotificationEvent_Payload event"
  let ?send = "sendAttempt denv (Webhook_ID wh) (Webhook_URL wh) (NotificationEvent_EventType event) ?body
    (generateHMAC ?body (Webhook_Secret wh)) (Webhook_Headers wh)"
  obtain r err ws k where "Deliver_loop ?c denv ?send 1 None = (Return (Some r, err), ws, k)"
    using Deliver_loop_returns [of 1 ?c None denv ?send] assms by auto
  then show ?thesis by (simp add: deliver_event_def Deliver_def serializePayload_def)
qed

lemma deliver_event_frame: "frame n' = frame n \<Longrightarrow> deliver_event n' denv wh event = deliver_event n denv wh event"
  by (simp add: deliver_event_def frame_def)

lemma failed_deliveries_frame:
  "frame n' = frame n \<Longrightarrow> failed_deliveries n' env event k ps = failed_deliveries n env event k ps"
  by (induction ps arbitrary: k) (simp_all add: delivery_fails_def deliver_event_def frame_def)

lemma retried_retried: "retried (retried t 1) i = retried t (Suc i)"
  by (simp add: retried_def)

lemma retried_one: "t\<lparr>NotificationTask_Retries := NotificationTask_Retries t + 1\<rparr> = retried t 1"
  by (simp add: retried_def)

lemma retries_left_retried: "retries_left (retried t i) = retries_left t - i"
  by (simp add: retries_left_def retried_def nat_diff_distrib')

lemma map_retried:
  "0 < retries_left t \<Longrightarrow> map (f \<circ> retried t) [1..<Suc (min (Suc F) (retries_left t))] =
    f (retried t 1) # map (f \<circ> retried (retried t 1)) [1..<Suc (min F (retries_left (retried t 1)))]"
proof -
  assume pos: "0 < retries_left t"
  then have "min (Suc F) (retries_left t) = Suc (min F (retries_left t - 1))" by auto
  moreover have "[1..<Suc (Suc m)] = 1 # map Suc [1..<Suc m]" for m by (simp add: map_Suc_upt upt_conv_Cons del: upt_Suc)
  ultimately show ?thesis
    by (simp add: retried_retried retries_left_retried comp_def del: upt_Suc One_nat_def)
qed

text \<open>What a pass over some webhooks of a task does.\<close>

definition pass_effect :: "nat \<Rightarrow> nat \<Rightarrow> NotificationTask \<Rightarrow> EventNotifier \<Rightarrow> EventNotifier \<Rightarrow> bool" where
  "pass_effect F len t n n' \<longleftrightarrow> frame n' = frame n \<and>
     EventNotifier_timers n' = EventNotifier_timers n @
       map ((\<lambda>u. (retry_backoff u, u)) \<circ> retried t) [1..<Suc (min F (retries_left t))] \<and>
     Metrics_DeadLetterCount (EventNotifier_metrics n') =
       Metrics_DeadLetterCount (EventNotifier_metrics n) + int (F - retries_left t) \<and>
     length (EventNotifier_deliveries n') = length (EventNotifier_deliveries n) + len \<and>
     (int (length (EventNotifier_deadLetter n)) \<le> NotifierConfig_DeadLetterLimit (EventNotifier_config n) \<longrightarrow>
       int (length (EventNotifier_deadLetter n')) \<le> NotifierConfig_DeadLetterLimit (EventNotifier_config n))"

lemma pass_success:
  assumes "pass_effect F len t n1 n'" and "frame n1 = frame n" "EventNotifier_timers n1 = EventNotifier_timers n"
    "EventNotifier_metrics n1 = EventNotifier_metrics n" "length (EventNotifier_deliveries n1) = Suc (length (EventNotifier_deliveries n))"
    "EventNotifier_deadLetter n1 = EventNotifier_deadLetter n"
  shows "pass_effect F (Suc len) t n n'"
  using assms by (simp add: pass_effect_def) (simp add: frame_def)

lemma pass_retry:
  assumes "pass_effect F len (retried t 1) n1 n'" and "0 < retries_left t" and "frame n1 = frame n"
    "EventNotifier_timers n1 = EventNotifier_timers n @ [(retry_backoff (retried t 1), retried t 1)]"
    "Metrics_DeadLetterCount (EventNotifier_metrics n1) = Metrics_DeadLetterCount (EventNotifier_metrics n)"
    "length (EventNotifier_deliveries n1) = Suc (length (EventNotifier_deliveries n))"
    "EventNotifier_deadLetter n1 = EventNotifier_deadLetter n"
  shows "pass_effect (Suc F) (Suc len) t n n'"
proof -
  have "EventNotifier_config n1 = EventNotifier_config n" using assms(3) by (simp add: frame_def)
  then show ?thesis
    using assms map_retried [OF assms(2), of "\<lambda>u. (retry_backoff u, u)" F]
    by (auto simp: pass_effect_def retries_left_retried simp del: upt_Suc)
qed

lemma pass_dead:
  assumes "pass_effect F len t n1 n'" and "retries_left t = 0" and "frame n1 = frame n" "EventNotifier_timers n1 = EventNotifier_timers n"
    "Metrics_DeadLetterCount (EventNotifier_metrics n1) = Metrics_DeadLetterCount (EventNotifier_metrics n) + 1"
    "length (EventNotifier_deliveries n1) = Suc (length (EventNotifier_deliveries n))"
    "int (length (EventNotifier_deadLetter n)) \<le> NotifierConfig_DeadLetterLimit (EventNotifier_config n) \<Longrightarrow>
      int (length (EventNotifier_deadLetter n1)) \<le> NotifierConfig_DeadLetterLimit (EventNotifier_config n)"
  shows "pass_effect (Suc F) (Suc len) t n n'"
proof -
  have "EventNotifier_config n1 = EventNotifier_config n" using assms(3) by (simp add: frame_def)
  then show ?thesis using assms by (auto simp: pass_effect_def)
qed

lemma process_webhooks_effect:
  "process_webhooks env k ps t n = Return n' \<Longrightarrow>
    pass_effect (failed_deliveries n env (NotificationTask_Event t) k ps) (length ps) t n n'"
proof (induction ps arbitrary: k t n)
  case Nil
  then show ?case by (simp add: pass_effect_def)
next
  case (Cons p ps)
  let ?wh = "webhook_at (EventNotifier_manager n) p" and ?ev = "NotificationTask_Event t"
  define n1 where "n1 = start_delivery (tenv_id env k) (tenv_now env k) ?wh ?ev n"
  have n1: "frame n1 = frame n" by (simp add: n1_def)
  note run = Cons.prems [simplified process_webhooks.simps Let_def n1_def [symmetric] deliver_event_frame [OF n1]]
  obtain r err where d: "deliver_event n (tenv_delivery env k) ?wh ?ev = Return (Some r, err)"
    using run by (auto split: outcome.splits prod.splits option.splits)
  show ?case
  proof (cases err)
    case None
    let ?n2 = "update_delivery (tenv_id env k) (tenv_done env k) DeliveryStatusSuccess r None n1"
    have "process_webhooks env (Suc k) ps t ?n2 = Return n'" using run d None by simp
    from Cons.IH [OF this] have "pass_effect (failed_deliveries n env ?ev (Suc k) ps) (length ps) t ?n2 n'"
      by (simp add: failed_deliveries_frame [of ?n2 n] n1)
    then have "pass_effect (failed_deliveries n env ?ev (Suc k) ps) (Suc (length ps)) t n n'"
      by (rule pass_success) (simp_all add: n1_def)
    then show ?thesis using d None by (simp add: delivery_fails_def)
  next
    case (Some e)
    let ?status = "if DeliveryResult_Attempt r < DeliveryConfig_MaxRetries (Webhook_RetryConfig ?wh) then DeliveryStatusRetrying else DeliveryStatusFailed"
    define n3 where "n3 = update_delivery (tenv_id env k) (tenv_done env k) ?status r (Some e) (bump Metrics_NotificationsFailed_update n1)"
    have n3: "frame n3 = frame n" by (simp add: n3_def n1)
    have F: "failed_deliveries n env ?ev k (p # ps) = Suc (failed_deliveries n env ?ev (Suc k) ps)"
      using d Some by (simp add: delivery_fails_def)
    note run' = run [simplified d Some outcome.case prod.case option.case n3_def [symmetric] retried_one]
    show ?thesis
    proof (cases "NotificationTask_Retries t < NotificationTask_MaxRetries t")
      case True
      have "process_webhooks env (Suc k) ps (retried t 1) (retryTask (retried t 1) n3) = Return n'" using run' True by simp
      from Cons.IH [OF this] have "pass_effect (failed_deliveries n env ?ev (Suc k) ps) (length ps) (retried t 1) (retryTask (retried t 1) n3) n'"
        using failed_deliveries_frame [of "retryTask (retried t 1) n3" n] n3 by (simp add: retried_def)
      then have "pass_effect (Suc (failed_deliveries n env ?ev (Suc k) ps)) (Suc (length ps)) t n n'"
        by (rule pass_retry) (use True n3 in \<open>simp_all add: retries_left_def n3_def n1_def\<close>)
      then show ?thesis unfolding F by simp
    next
      case False
      then obtain n4 where n4: "moveToDeadLetter (tenv_dead_id env k) (tenv_done env k) t (MaxRetriesExceeded e) n3 = Return n4"
          "process_webhooks env (Suc k) ps t n4 = Return n'"
        using run' by (auto split: outcome.splits)
      note m = moveToDeadLetter_Return [OF n4(1)]
      from Cons.IH [OF n4(2)] have "pass_effect (failed_deliveries n env ?ev (Suc k) ps) (length ps) t n4 n'"
        using failed_deliveries_frame [of n4 n] n3 m(1) by simp
      then have "pass_effect (Suc (failed_deliveries n env ?ev (Suc k) ps)) (Suc (length ps)) t n n'"
        by (rule pass_dead) (use False n3 m in \<open>auto simp: retries_left_def n3_def n1_def frame_def\<close>)
      then show ?thesis unfolding F by simp
    qed
  qed
qed

lemma process_webhooks_returns:
  "0 < DeliveryConfig_MaxRetries (Deliverer_config (EventNotifier_deliverer n)) \<Longrightarrow>
    0 < NotifierConfig_DeadLetterLimit (EventNotifier_config n) \<Longrightarrow> \<exists>n'. process_webhooks env k ps t n = Return n'"
proof (induction ps arbitrary: k t n)
  case (Cons p ps)
  let ?wh = "webhook_at (EventNotifier_manager n) p" and ?ev = "NotificationTask_Event t"
  define n1 where "n1 = start_delivery (tenv_id env k) (tenv_now env k) ?wh ?ev n"
  have n1: "frame n1 = frame n" by (simp add: n1_def)
  obtain r err where d: "deliver_event n1 (tenv_delivery env k) ?wh ?ev = Return (Some r, err)"
    using deliver_event_returns [of n1 "tenv_delivery env k" ?wh ?ev] Cons.prems(1) n1 unfolding frame_def by fastforce
  have cont: "\<exists>n'. process_webhooks env (Suc k) ps t' n2 = Return n'" if "frame n2 = frame n" for t' n2
    using that Cons.prems by (intro Cons.IH) (simp_all add: frame_def)
  have dead: "\<exists>n3. moveToDeadLetter i now t reason n2 = Return n3 \<and> frame n3 = frame n" if "frame n2 = frame n" for i now reason n2
  proof -
    have "\<exists>n3. moveToDeadLetter i now t reason n2 = Return n3"
      using Cons.prems(2) that by (auto simp: moveToDeadLetter_def Let_def frame_def)
    then show ?thesis using moveToDeadLetter_Return(1) that by metis
  qed
  show ?case
  proof (cases err)
    case None
    then show ?thesis using d cont n1 by (simp add: n1_def [symmetric])
  next
    case (Some e)
    let ?status = "if DeliveryResult_Attempt r < DeliveryConfig_MaxRetries (Webhook_RetryConfig ?wh) then DeliveryStatusRetrying else DeliveryStatusFailed"
    let ?n3 = "update_delivery (tenv_id env k) (tenv_done env k) ?status r (Some e) (bump Metrics_NotificationsFailed_update n1)"
    obtain n4 where n4: "moveToDeadLetter (tenv_dead_id env k) (tenv_done env k) t (MaxRetriesExceeded e) ?n3 = Return n4" "frame n4 = frame n"
      using dead [of ?n3 "tenv_dead_id env k" "tenv_done env k" "MaxRetriesExceeded e"] n1 by auto
    show ?thesis
    proof (cases "NotificationTask_Retries t < NotificationTask_MaxRetries t")
      case True
      then show ?thesis using d Some cont [of "retryTask _ ?n3"] n1 by (simp add: n1_def [symmetric] Let_def)
    next
      case False
      then show ?thesis using d Some cont [OF n4(2), of t] n4(1) by (simp add: n1_def [symmetric] Let_def)
    qed
  qed
qed simp

section \<open>Quiescence\<close>

text \<open>The weight of a task exceeds the weight of all the retries its processing schedules.\<close>

lemma retries_weight: "m \<le> retries_left t \<Longrightarrow> (\<Sum>i \<leftarrow> [1..<Suc m]. task_weight (retried t i)) + task_weight (retried t m) = task_weight t"
proof (induction m)
  case 0
  then show ?case by (simp add: retried_def)
next
  case (Suc m)
  have "retries_left (retried t m) = Suc (retries_left (retried t (Suc m)))"
    using Suc.prems by (simp add: retries_left_retried)
  then have "task_weight (retried t m) = 2 * task_weight (retried t (Suc m))" by (simp add: task_weight_def)
  then show ?case using Suc by simp
qed

lemma task_weight_pos: "3 \<le> task_weight t"
  by (simp add: task_weight_def)

lemma pass_measure:
  assumes "pass_effect F len t n n'"
  shows "pending_measure n' + 3 \<le> pending_measure n + task_weight t"
proof -
  let ?m = "min F (retries_left t)"
  have "(\<Sum>(d, u) \<leftarrow> EventNotifier_timers n'. task_weight u) =
      (\<Sum>(d, u) \<leftarrow> EventNotifier_timers n. task_weight u) + (\<Sum>i \<leftarrow> [1..<Suc ?m]. task_weight (retried t i))"
    using assms by (simp add: pass_effect_def comp_def del: upt_Suc)
  moreover have "EventNotifier_taskCh n' = EventNotifier_taskCh n" "EventNotifier_batch n' = EventNotifier_batch n"
    using assms by (simp_all add: pass_effect_def frame_def)
  ultimately show ?thesis
    using retries_weight [of ?m t] task_weight_pos [of "retried t ?m"] by (simp add: pending_measure_def del: upt_Suc)
qed

lemma pass_safe: "pass_effect F len t n n' \<Longrightarrow> notifier_safe n \<Longrightarrow> notifier_safe n'"
  by (auto simp: pass_effect_def notifier_safe_def frame_def)

lemma processTask_safe:
  assumes "notifier_safe n" and "processTask env t n = Return n'"
  shows "notifier_safe n' \<and> frame n' = frame n \<and> pending_measure n' + 3 \<le> pending_measure n + task_weight t"
  using process_webhooks_effect [OF assms(2) [unfolded processTask_def]] pass_safe assms(1) pass_measure
  by (meson pass_effect_def)

lemma process_all_safe:
  "notifier_safe n \<Longrightarrow> process_all benv k ts n = Return n' \<Longrightarrow>
    notifier_safe n' \<and> frame n' = frame n \<and> pending_measure n' + 3 * length ts \<le> pending_measure n + (\<Sum>t \<leftarrow> ts. task_weight t)"
proof (induction ts arbitrary: k n)
  case (Cons t ts)
  then obtain n1 where n1: "processTask (benv k) t n = Return n1" "process_all benv (Suc k) ts n1 = Return n'"
    by (auto split: outcome.splits)
  from processTask_safe [OF Cons.prems(1) n1(1)] Cons.IH [OF _ n1(2)] show ?case by auto
qed simp

lemma process_all_returns: "notifier_safe n \<Longrightarrow> \<exists>n'. process_all benv k ts n = Return n'"
proof (induction ts arbitrary: k n)
  case (Cons t ts)
  obtain n1 where n1: "processTask (benv k) t n = Return n1"
    using process_webhooks_returns [of n "benv k" 0 "NotificationTask_Webhooks t" t] Cons.prems
    by (auto simp: processTask_def notifier_safe_def)
  then show ?case using Cons.IH processTask_safe [OF Cons.prems n1] by simp
qed simp

lemma sum_list_remove_nth: "k < length xs \<Longrightarrow> (\<Sum>x \<leftarrow> take k xs @ drop (Suc k) xs. f x) + f (xs ! k) = (\<Sum>x \<leftarrow> xs. f x :: nat)"
  by (subst (2) id_take_nth_drop [of k xs]) simp_all

lemma chan_pop_Some: "chan_buf c \<noteq> [] \<Longrightarrow> \<exists>x. chan_pop c = Some (x, c\<lparr>chan_buf := tl (chan_buf c)\<rparr>) \<and> chan_buf c = x # tl (chan_buf c)"
  by (cases "chan_buf c") (simp_all add: chan_pop_def chan_recv_def)

lemma worker_round_step:
  assumes "notifier_safe n" and "chan_buf (EventNotifier_taskCh n) \<noteq> []"
  shows "\<exists>n'. worker_round env n = Return n' \<and> notifier_safe n' \<and> pending_measure n' < pending_measure n"
proof -
  let ?c = "EventNotifier_taskCh n"
  obtain t where t: "chan_pop ?c = Some (t, ?c\<lparr>chan_buf := tl (chan_buf ?c)\<rparr>)" "chan_buf ?c = t # tl (chan_buf ?c)"
    using chan_pop_Some [OF assms(2)] by blast
  define n1 where "n1 = n\<lparr>EventNotifier_taskCh := ?c\<lparr>chan_buf := tl (chan_buf ?c)\<rparr>\<rparr>"
  have safe: "notifier_safe n1" using assms(1) by (simp add: notifier_safe_def n1_def)
  have m: "pending_measure n1 + (task_weight t - 1) = pending_measure n"
    using arg_cong [OF t(2), of "\<lambda>ts. \<Sum>t \<leftarrow> ts. task_weight t - 1"] by (simp add: pending_measure_def n1_def)
  obtain n' where n': "processTask env t n1 = Return n'"
    using process_webhooks_returns [of n1 env 0 "NotificationTask_Webhooks t" t] safe by (auto simp: processTask_def notifier_safe_def)
  have "worker_round env n = Return n'" using t(1) n' by (simp add: worker_round_def n1_def)
  then show ?thesis using processTask_safe [OF safe n'] m task_weight_pos [of t] by auto
qed

lemma flushBatch_step:
  assumes "notifier_safe n" and "ts \<noteq> []"
  shows "\<exists>n'. flushBatch benv ts n = Return n' \<and> notifier_safe n' \<and> pending_measure n' + 2 * length ts < pending_measure n + (\<Sum>t \<leftarrow> ts. task_weight t)"
proof -
  let ?n = "bump Metrics_BatchCount_update n"
  have safe: "notifier_safe ?n" using assms(1) by (simp add: notifier_safe_def bump_def)
  obtain n' where n': "process_all benv 0 ts ?n = Return n'" using process_all_returns [OF safe] by blast
  have "0 < length ts" "pending_measure ?n = pending_measure n" using assms(2) by (simp_all add: pending_measure_def bump_def)
  then have "pending_measure n' + 2 * length ts < pending_measure n + (\<Sum>t \<leftarrow> ts. task_weight t)"
    using process_all_safe [OF safe n'] by linarith
  then show ?thesis using process_all_safe [OF safe n'] n' by (auto simp: flushBatch_def)
qed

lemma weights_minus_two: "(\<Sum>t \<leftarrow> ts. task_weight t - 2) + 2 * length ts = (\<Sum>t \<leftarrow> ts. task_weight t)"
proof (induction ts)
  case (Cons t ts)
  then show ?case using task_weight_pos [of t] by simp
qed simp

lemma flush_own_batch:
  assumes "notifier_safe n" and "EventNotifier_batch n \<noteq> []"
  shows "\<exists>n'. flushBatch benv (EventNotifier_batch n) (n\<lparr>EventNotifier_batch := []\<rparr>) = Return n' \<and> notifier_safe n' \<and>
    pending_measure n' < pending_measure n"
proof -
  have "notifier_safe (n\<lparr>EventNotifier_batch := []\<rparr>)" using assms(1) by (simp add: notifier_safe_def)
  from flushBatch_step [OF this assms(2), of benv] obtain n' where n':
    "flushBatch benv (EventNotifier_batch n) (n\<lparr>EventNotifier_batch := []\<rparr>) = Return n'" "notifier_safe n'"
    "pending_measure n' + 2 * length (EventNotifier_batch n) <
      pending_measure (n\<lparr>EventNotifier_batch := []\<rparr>) + (\<Sum>t \<leftarrow> EventNotifier_batch n. task_weight t)" by blast
  have "pending_measure n = pending_measure (n\<lparr>EventNotifier_batch := []\<rparr>) + (\<Sum>t \<leftarrow> EventNotifier_batch n. task_weight t - 2)"
    by (simp add: pending_measure_def)
  then show ?thesis using n' weights_minus_two [of "EventNotifier_batch n"] by auto
qed

lemma batch_task_step:
  assumes "notifier_safe n" and "chan_buf (EventNotifier_taskCh n) \<noteq> []"
  shows "\<exists>n'. batch_round benv BatchTask n = Return n' \<and> notifier_safe n' \<and> pending_measure n' < pending_measure n"
proof -
  let ?c = "EventNotifier_taskCh n"
  obtain t where t: "chan_pop ?c = Some (t, ?c\<lparr>chan_buf := tl (chan_buf ?c)\<rparr>)" "chan_buf ?c = t # tl (chan_buf ?c)"
    using chan_pop_Some [OF assms(2)] by blast
  define n1 where "n1 = n\<lparr>EventNotifier_taskCh := ?c\<lparr>chan_buf := tl (chan_buf ?c)\<rparr>, EventNotifier_batch := EventNotifier_batch n @ [t]\<rparr>"
  have safe: "notifier_safe n1" using assms(1) by (simp add: notifier_safe_def n1_def)
  have m: "pending_measure n1 < pending_measure n"
    using arg_cong [OF t(2), of "\<lambda>ts. \<Sum>t \<leftarrow> ts. task_weight t - 1"] task_weight_pos [of t]
    by (simp add: pending_measure_def n1_def)
  have n1: "EventNotifier_batch n1 = EventNotifier_batch n @ [t]"
    "n\<lparr>EventNotifier_taskCh := ?c\<lparr>chan_buf := tl (chan_buf ?c)\<rparr>, EventNotifier_batch := []\<rparr> = n1\<lparr>EventNotifier_batch := []\<rparr>"
    by (simp_all add: n1_def)
  show ?thesis
    using flush_own_batch [OF safe, of benv] safe m n1 t(1)
    by (auto simp: batch_round_def Let_def n1_def [symmetric])
qed

lemma fire_timer_step:
  assumes "notifier_safe n" and "k < length (EventNotifier_timers n)"
  shows "\<exists>n'. fire_timer k i now n = Return n' \<and> notifier_safe n' \<and> pending_measure n' < pending_measure n"
proof -
  let ?t = "snd (EventNotifier_timers n ! k)"
  define n1 where "n1 = n\<lparr>EventNotifier_timers := take k (EventNotifier_timers n) @ drop (Suc k) (EventNotifier_timers n)\<rparr>"
  have safe: "notifier_safe n1" using assms(1) by (simp add: notifier_safe_def n1_def)
  have m: "pending_measure n1 + task_weight ?t = pending_measure n"
    using sum_list_remove_nth [OF assms(2), of "\<lambda>(d, t). task_weight t"]
    by (simp add: pending_measure_def n1_def case_prod_unfold)
  show ?thesis
  proof (cases "send_task ?t n1")
    case None
    obtain n' where n': "moveToDeadLetter i now ?t RetryQueueFull n1 = Return n'" using moveToDeadLetter_returns [OF safe] by blast
    note d = moveToDeadLetter_Return [OF n']
    have "notifier_safe n'" using safe d(1,5) by (simp add: notifier_safe_def frame_def)
    moreover have "pending_measure n' = pending_measure n1" using d(1,2) by (simp add: pending_measure_def frame_def)
    ultimately show ?thesis using None n' m task_weight_pos [of ?t] by (simp add: fire_timer_def n1_def [symmetric] Let_def)
  next
    case (Some n2)
    then have "n2 = n1\<lparr>EventNotifier_taskCh := EventNotifier_taskCh n1\<lparr>chan_buf := chan_buf (EventNotifier_taskCh n1) @ [?t]\<rparr>\<rparr>"
      by (auto simp: send_task_def chan_push_def split: if_splits)
    then have "pending_measure n2 = pending_measure n1 + (task_weight ?t - 1)" "notifier_safe n2"
      using safe by (simp_all add: pending_measure_def notifier_safe_def)
    then show ?thesis using Some m task_weight_pos [of ?t] by (simp add: fire_timer_def n1_def [symmetric] Let_def)
  qed
qed

lemma batch_tick_step:
  "notifier_safe n \<Longrightarrow> EventNotifier_batch n \<noteq> [] \<Longrightarrow>
    \<exists>n'. batch_round benv BatchTick n = Return n' \<and> notifier_safe n' \<and> pending_measure n' < pending_measure n"
  using flush_own_batch by (simp add: batch_round_def)

lemma internal_step_decreases:
  assumes "internal_step n n'" and "notifier_safe n"
  shows "notifier_safe n' \<and> pending_measure n' < pending_measure n"
  using assms
proof (cases rule: internal_step.cases)
  case (worker env)
  then show ?thesis using worker_round_step [OF assms(2), of env] by auto
next
  case (batch_task benv)
  then show ?thesis using batch_task_step [OF assms(2), of benv] by auto
next
  case (batch_tick benv)
  then show ?thesis using batch_tick_step [OF assms(2), of benv] by auto
next
  case (timer k i now)
  then show ?thesis using fire_timer_step [OF assms(2), of k i now] by auto
qed

lemma internal_run_bounded:
  "(internal_step ^^ k) n n' \<Longrightarrow> notifier_safe n \<Longrightarrow> notifier_safe n' \<and> k + pending_measure n' \<le> pending_measure n"
proof (induction k arbitrary: n')
  case (Suc k)
  then obtain m where "(internal_step ^^ k) n m" "internal_step m n'" by auto
  then show ?case using Suc.IH [of m] Suc.prems(2) internal_step_decreases [of m n'] by auto
qed auto

lemma internal_step_started:
  assumes "internal_step n n'" and safe: "notifier_safe n"
  shows "EventNotifier_started n' = EventNotifier_started n"
  using assms(1)
proof (cases rule: internal_step.cases)
  case (worker env)
  then obtain t c where "chan_pop (EventNotifier_taskCh n) = Some (t, c)" "processTask env t (n\<lparr>EventNotifier_taskCh := c\<rparr>) = Return n'"
    using chan_pop_Some by (fastforce simp: worker_round_def split: option.splits)
  then show ?thesis using process_webhooks_effect [of env 0 "NotificationTask_Webhooks t" t] by (auto simp: processTask_def pass_effect_def frame_def)
next
  case (timer k i now)
  then show ?thesis
    by (auto simp: fire_timer_def Let_def send_task_def dest!: moveToDeadLetter_Return(1) split: option.splits simp: frame_def)
next
  case (batch_task benv)
  have "EventNotifier_started n' = EventNotifier_started m"
    if "flushBatch benv ts m = Return n'" "notifier_safe m" for ts m
  proof -
    have "notifier_safe (bump Metrics_BatchCount_update m)" using that(2) by (simp add: notifier_safe_def bump_def)
    from process_all_safe [OF this] that(1) show ?thesis by (auto simp: flushBatch_def frame_def bump_def)
  qed
  then show ?thesis using batch_task safe
    by (auto simp: batch_round_def Let_def notifier_safe_def split: option.splits if_splits)
next
  case (batch_tick benv)
  have "notifier_safe (bump Metrics_BatchCount_update (n\<lparr>EventNotifier_batch := []\<rparr>))" using safe by (simp add: notifier_safe_def bump_def)
  from process_all_safe [OF this] batch_tick show ?thesis by (auto simp: batch_round_def flushBatch_def frame_def bump_def)
qed

lemma internal_run_started: "(internal_step ^^ k) n n' \<Longrightarrow> notifier_safe n \<Longrightarrow> EventNotifier_started n' = EventNotifier_started n"
proof (induction k arbitrary: n')
  case (Suc k)
  then obtain m where "(internal_step ^^ k) n m" "internal_step m n'" by auto
  then show ?case using Suc internal_run_bounded [of k n m] internal_step_started [of m n'] by auto
qed auto

lemma internal_progress: "notifier_safe n \<Longrightarrow> EventNotifier_started n \<Longrightarrow> (\<exists>n'. internal_step n n') \<longleftrightarrow> \<not> idle n"
proof
  assume safe: "notifier_safe n" "EventNotifier_started n" and "\<not> idle n"
  then consider "0 < length (EventNotifier_timers n)" | "chan_buf (EventNotifier_taskCh n) \<noteq> []" | "EventNotifier_batch n \<noteq> []"
    by (auto simp: idle_def)
  then show "\<exists>n'. internal_step n n'"
    using safe fire_timer_step [OF safe(1)] batch_task_step [OF safe(1)] batch_tick_step [OF safe(1)]
    by cases (meson internal_step.intros)+
qed (auto elim!: internal_step.cases simp: idle_def)

section \<open>Properties\<close>





end
