(* ===== verification/Rate_Limiter.thy ===== *)
theory Rate_Limiter
  imports Go_Float
begin

text \<open>
  The token buckets of \<^verbatim>\<open>internal/api/middleware/ratelimit.go\<close>. A middleware is a function on its state, the limiter and
  the bucket its closure holds, and answers whether the next handler is called. Requests are handled one after another;
  \<open>clk\<close> gives the successive readings of the clock within one request, and \<open>rng\<close> the orders of the loops over maps.
\<close>

section \<open>Data\<close>

record tokenBucket =
  bucket_tokens :: rat
  bucket_lastRefill :: gotime
  bucket_rate :: rat
  bucket_burst :: int

record RateLimiterConfig =
  LimiterConfig_GlobalRate :: rat
  LimiterConfig_GlobalBurst :: int
  LimiterConfig_IPRate :: rat
  LimiterConfig_IPBurst :: int
  LimiterConfig_UserRate :: rat
  LimiterConfig_UserBurst :: int
  LimiterConfig_CleanupInterval :: dur

record RateLimiter =
  RateLimiter_ipBuckets :: "(string, tokenBucket) gmap"
  RateLimiter_userBuckets :: "(string, tokenBucket) gmap"
  RateLimiter_globalRate :: rat
  RateLimiter_globalBurst :: int
  RateLimiter_ipRate :: rat
  RateLimiter_ipBurst :: int
  RateLimiter_userRate :: rat
  RateLimiter_userBurst :: int
  RateLimiter_cleanupInterval :: dur
  RateLimiter_lastCleanup :: gotime

datatype limit = GlobalLimit | IPLimit | UserLimit

text \<open>A rejected request is told which limit it hit and after how many seconds it may come back.\<close>

datatype decision = Next | TooManyRequests limit rat

definition NewRateLimiter :: "RateLimiterConfig \<Rightarrow> gotime \<Rightarrow> RateLimiter" where
  "NewRateLimiter c now =
     \<lparr>RateLimiter_ipBuckets = gm_empty, RateLimiter_userBuckets = gm_empty,
      RateLimiter_globalRate = (if LimiterConfig_GlobalRate c = 0 then 1000 else LimiterConfig_GlobalRate c),
      RateLimiter_globalBurst = (if LimiterConfig_GlobalBurst c = 0 then 1500 else LimiterConfig_GlobalBurst c),
      RateLimiter_ipRate = (if LimiterConfig_IPRate c = 0 then 10 else LimiterConfig_IPRate c),
      RateLimiter_ipBurst = (if LimiterConfig_IPBurst c = 0 then 20 else LimiterConfig_IPBurst c),
      RateLimiter_userRate = (if LimiterConfig_UserRate c = 0 then 100 else LimiterConfig_UserRate c),
      RateLimiter_userBurst = (if LimiterConfig_UserBurst c = 0 then 200 else LimiterConfig_UserBurst c),
      RateLimiter_cleanupInterval = (if LimiterConfig_CleanupInterval c = 0 then 5 * Minute else LimiterConfig_CleanupInterval c),
      RateLimiter_lastCleanup = now\<rparr>"

section \<open>Buckets\<close>

definition Seconds :: "dur \<Rightarrow> rat" where
  "Seconds d = of_int d / of_int Second"

definition refillBucket :: "tokenBucket \<Rightarrow> gotime \<Rightarrow> tokenBucket" where
  "refillBucket b now =
     (let elapsed = Seconds (time_Sub now (bucket_lastRefill b));
          tokensToAdd = elapsed * bucket_rate b;
          tokens = bucket_tokens b + tokensToAdd
      in b\<lparr>bucket_tokens := (if of_int (bucket_burst b) < tokens then of_int (bucket_burst b) else tokens),
           bucket_lastRefill := now\<rparr>)"

definition retryAfter :: "tokenBucket \<Rightarrow> rat" where
  "retryAfter b = (let needed = 1 - bucket_tokens b in if needed \<le> 0 then 0 else needed / bucket_rate b)"

text \<open>What every middleware does with a bucket: refill, reject, or take a token.\<close>

definition take_token :: "limit \<Rightarrow> gotime \<Rightarrow> tokenBucket \<Rightarrow> decision \<times> tokenBucket" where
  "take_token l now b =
     (let b1 = refillBucket b now
      in if bucket_tokens b1 < 1 then (TooManyRequests l (retryAfter b1), b1)
         else (Next, b1\<lparr>bucket_tokens := bucket_tokens b1 - 1\<rparr>))"

definition full_bucket :: "rat \<Rightarrow> int \<Rightarrow> gotime \<Rightarrow> tokenBucket" where
  "full_bucket rate burst now =
     \<lparr>bucket_tokens = of_int burst, bucket_lastRefill = now, bucket_rate = rate, bucket_burst = burst\<rparr>"

definition getOrCreateIPBucket :: "string \<Rightarrow> gotime \<Rightarrow> RateLimiter \<Rightarrow> tokenBucket \<times> RateLimiter" where
  "getOrCreateIPBucket ip now rl =
     (case gm_get (RateLimiter_ipBuckets rl) ip of
        Some b \<Rightarrow> (b, rl)
      | None \<Rightarrow> (let b = full_bucket (RateLimiter_ipRate rl) (RateLimiter_ipBurst rl) now
                 in (b, rl\<lparr>RateLimiter_ipBuckets := gm_set ip b (RateLimiter_ipBuckets rl)\<rparr>)))"

definition getOrCreateUserBucket :: "string \<Rightarrow> gotime \<Rightarrow> RateLimiter \<Rightarrow> tokenBucket \<times> RateLimiter" where
  "getOrCreateUserBucket userID now rl =
     (case gm_get (RateLimiter_userBuckets rl) userID of
        Some b \<Rightarrow> (b, rl)
      | None \<Rightarrow> (let b = full_bucket (RateLimiter_userRate rl) (RateLimiter_userBurst rl) now
                 in (b, rl\<lparr>RateLimiter_userBuckets := gm_set userID b (RateLimiter_userBuckets rl)\<rparr>)))"

definition drop_idle :: "string ranger \<Rightarrow> nat \<Rightarrow> gotime \<Rightarrow> (string, tokenBucket) gmap \<Rightarrow> (string, tokenBucket) gmap" where
  "drop_idle rng i threshold m =
     fold (\<lambda>(k, b) m. if bucket_lastRefill b < threshold then gm_del k m else m) (range_items rng i m) m"

definition performCleanup :: "string ranger \<Rightarrow> gotime \<Rightarrow> gotime \<Rightarrow> RateLimiter \<Rightarrow> RateLimiter" where
  "performCleanup rng t now rl =
     (if time_Sub t (RateLimiter_lastCleanup rl) < RateLimiter_cleanupInterval rl then rl
      else let threshold = now + i64 (-2 * RateLimiter_cleanupInterval rl)
           in rl\<lparr>RateLimiter_ipBuckets := drop_idle rng 0 threshold (RateLimiter_ipBuckets rl),
                 RateLimiter_userBuckets := drop_idle rng 1 threshold (RateLimiter_userBuckets rl),
                 RateLimiter_lastCleanup := now\<rparr>)"

section \<open>Middlewares\<close>

text \<open>The bucket of the closure has no time of last refill.\<close>

definition globalBucket :: "RateLimiter \<Rightarrow> tokenBucket" where
  "globalBucket rl = full_bucket (RateLimiter_globalRate rl) (RateLimiter_globalBurst rl) 0"

definition GlobalRateLimit :: "gotime \<Rightarrow> tokenBucket \<Rightarrow> decision \<times> tokenBucket" where
  "GlobalRateLimit now g = take_token GlobalLimit now g"

definition ip_token :: "string \<Rightarrow> gotime \<Rightarrow> gotime \<Rightarrow> RateLimiter \<Rightarrow> decision \<times> RateLimiter" where
  "ip_token ip t now rl =
     (let (b, rl1) = getOrCreateIPBucket ip t rl; (d, b1) = take_token IPLimit now b
      in (d, rl1\<lparr>RateLimiter_ipBuckets := gm_set ip b1 (RateLimiter_ipBuckets rl1)\<rparr>))"

definition user_token :: "string \<Rightarrow> gotime \<Rightarrow> gotime \<Rightarrow> RateLimiter \<Rightarrow> decision \<times> RateLimiter" where
  "user_token userID t now rl =
     (let (b, rl1) = getOrCreateUserBucket userID t rl; (d, b1) = take_token UserLimit now b
      in (d, rl1\<lparr>RateLimiter_userBuckets := gm_set userID b1 (RateLimiter_userBuckets rl1)\<rparr>))"

definition IPRateLimit :: "string ranger \<Rightarrow> (nat \<Rightarrow> gotime) \<Rightarrow> string \<Rightarrow> RateLimiter \<Rightarrow> decision \<times> RateLimiter" where
  "IPRateLimit rng clk ip rl = ip_token ip (clk 2) (clk 3) (performCleanup rng (clk 0) (clk 1) rl)"

definition UserRateLimit :: "string ranger \<Rightarrow> (nat \<Rightarrow> gotime) \<Rightarrow> string \<Rightarrow> RateLimiter \<Rightarrow> decision \<times> RateLimiter" where
  "UserRateLimit rng clk userID rl =
     (let rl1 = performCleanup rng (clk 0) (clk 1) rl
      in if userID = [] then (Next, rl1) else user_token userID (clk 2) (clk 3) rl1)"

definition RateLimit ::
  "string ranger \<Rightarrow> (nat \<Rightarrow> gotime) \<Rightarrow> string \<Rightarrow> string \<Rightarrow> tokenBucket \<times> RateLimiter \<Rightarrow> decision \<times> tokenBucket \<times> RateLimiter" where
  "RateLimit rng clk ip userID = (\<lambda>(g, rl).
     let rl1 = performCleanup rng (clk 0) (clk 1) rl; (d, g1) = take_token GlobalLimit (clk 2) g
     in if d \<noteq> Next then (d, g1, rl1)
        else let (d, rl2) = ip_token ip (clk 3) (clk 4) rl1
             in if d \<noteq> Next then (d, g1, rl2)
                else if userID \<noteq> [] then let (d, rl3) = user_token userID (clk 5) (clk 6) rl2 in (d, g1, rl3)
                else (Next, g1, rl2))"

definition ResetIPBucket :: "string \<Rightarrow> RateLimiter \<Rightarrow> RateLimiter" where
  "ResetIPBucket ip rl = rl\<lparr>RateLimiter_ipBuckets := gm_del ip (RateLimiter_ipBuckets rl)\<rparr>"

definition ResetUserBucket :: "string \<Rightarrow> RateLimiter \<Rightarrow> RateLimiter" where
  "ResetUserBucket userID rl = rl\<lparr>RateLimiter_userBuckets := gm_del userID (RateLimiter_userBuckets rl)\<rparr>"

definition GetIPBucketState :: "RateLimiter \<Rightarrow> string \<Rightarrow> rat \<times> rat \<times> int" where
  "GetIPBucketState rl ip =
     (case gm_get (RateLimiter_ipBuckets rl) ip of
        None \<Rightarrow> (of_int (RateLimiter_ipBurst rl), RateLimiter_ipRate rl, RateLimiter_ipBurst rl)
      | Some b \<Rightarrow> (bucket_tokens b, bucket_rate b, bucket_burst b))"

definition GetUserBucketState :: "RateLimiter \<Rightarrow> string \<Rightarrow> rat \<times> rat \<times> int" where
  "GetUserBucketState rl userID =
     (case gm_get (RateLimiter_userBuckets rl) userID of
        None \<Rightarrow> (of_int (RateLimiter_userBurst rl), RateLimiter_userRate rl, RateLimiter_userBurst rl)
      | Some b \<Rightarrow> (bucket_tokens b, bucket_rate b, bucket_burst b))"

section \<open>Definitions for the statements\<close>

text \<open>A sequence of requests at the given times, and how many of them were admitted.\<close>

fun admitted :: "limit \<Rightarrow> gotime list \<Rightarrow> tokenBucket \<Rightarrow> nat \<times> tokenBucket" where
  "admitted l [] b = (0, b)"
| "admitted l (t # ts) b =
     (let (d, b1) = take_token l t b; (n, b2) = admitted l ts b1 in (if d = Next then Suc n else n, b2))"

definition bucket_ok :: "rat \<Rightarrow> int \<Rightarrow> gotime \<Rightarrow> tokenBucket \<Rightarrow> bool" where
  "bucket_ok rate burst now b \<longleftrightarrow> bucket_rate b = rate \<and> bucket_burst b = burst \<and> 0 \<le> bucket_tokens b \<and>
     bucket_tokens b \<le> of_int burst \<and> bucket_lastRefill b \<le> now"

definition limiter_ok :: "gotime \<Rightarrow> RateLimiter \<Rightarrow> bool" where
  "limiter_ok now rl \<longleftrightarrow> gm_inv (RateLimiter_ipBuckets rl) \<and> gm_inv (RateLimiter_userBuckets rl) \<and>
     0 \<le> RateLimiter_ipRate rl \<and> 0 \<le> RateLimiter_ipBurst rl \<and> 0 \<le> RateLimiter_userRate rl \<and> 0 \<le> RateLimiter_userBurst rl \<and>
     (\<forall>k b. gm_get (RateLimiter_ipBuckets rl) k = Some b \<longrightarrow> bucket_ok (RateLimiter_ipRate rl) (RateLimiter_ipBurst rl) now b) \<and>
     (\<forall>k b. gm_get (RateLimiter_userBuckets rl) k = Some b \<longrightarrow> bucket_ok (RateLimiter_userRate rl) (RateLimiter_userBurst rl) now b)"

text \<open>The steps of a limiter, at the times of a clock that never goes back.\<close>

inductive limiter_step :: "gotime \<times> RateLimiter \<Rightarrow> gotime \<times> RateLimiter \<Rightarrow> bool" where
  ip: "mono clk \<Longrightarrow> now \<le> clk 0 \<Longrightarrow> ranger_ok rng \<Longrightarrow> limiter_step (now, rl) (clk 3, snd (IPRateLimit rng clk k rl))"
| user: "mono clk \<Longrightarrow> now \<le> clk 0 \<Longrightarrow> ranger_ok rng \<Longrightarrow> limiter_step (now, rl) (clk 3, snd (UserRateLimit rng clk k rl))"
| all: "mono clk \<Longrightarrow> now \<le> clk 0 \<Longrightarrow> ranger_ok rng \<Longrightarrow> limiter_step (now, rl) (clk 6, snd (snd (RateLimit rng clk ip u (g, rl))))"
| reset_ip: "limiter_step (now, rl) (now, ResetIPBucket k rl)"
| reset_user: "limiter_step (now, rl) (now, ResetUserBucket k rl)"

text \<open>An example: a bucket of two tokens with one new token each second.\<close>

definition small_bucket :: tokenBucket where
  "small_bucket = full_bucket 1 2 0"

definition small_limiter :: RateLimiter where
  "small_limiter = NewRateLimiter \<lparr>LimiterConfig_GlobalRate = 0, LimiterConfig_GlobalBurst = 0, LimiterConfig_IPRate = 1,
     LimiterConfig_IPBurst = 2, LimiterConfig_UserRate = 1, LimiterConfig_UserBurst = 2, LimiterConfig_CleanupInterval = Minute\<rparr> 0"

section \<open>Lemmas\<close>

lemma time_Sub_bounds: "u \<le> t \<Longrightarrow> 0 \<le> time_Sub t u \<and> time_Sub t u \<le> t - u"
  by (simp add: time_Sub_def)

lemma Seconds_mono: "a \<le> b \<Longrightarrow> Seconds a \<le> Seconds b"
  by (simp add: Seconds_def Second_def divide_right_mono)

lemma Seconds_add: "Seconds (a + b) = Seconds a + Seconds b"
  by (simp add: Seconds_def add_divide_distrib)

lemma Seconds_nonneg: "0 \<le> d \<Longrightarrow> 0 \<le> Seconds d"
  by (simp add: Seconds_def Second_def)

lemma refill_bounds:
  assumes "0 \<le> bucket_rate b" and "bucket_lastRefill b \<le> now"
  shows "bucket_tokens (refillBucket b now) \<le> bucket_tokens b + Seconds (now - bucket_lastRefill b) * bucket_rate b"
    and "bucket_tokens (refillBucket b now) \<le> of_int (bucket_burst b)"
    and "bucket_tokens b \<le> of_int (bucket_burst b) \<Longrightarrow> bucket_tokens b \<le> bucket_tokens (refillBucket b now)"
proof -
  let ?add = "Seconds (time_Sub now (bucket_lastRefill b)) * bucket_rate b"
  have "?add \<le> Seconds (now - bucket_lastRefill b) * bucket_rate b" "0 \<le> ?add"
    using time_Sub_bounds [OF assms(2)] assms(1) Seconds_mono Seconds_nonneg by (simp_all add: mult_right_mono)
  then show "bucket_tokens (refillBucket b now) \<le> bucket_tokens b + Seconds (now - bucket_lastRefill b) * bucket_rate b"
    "bucket_tokens (refillBucket b now) \<le> of_int (bucket_burst b)"
    "bucket_tokens b \<le> of_int (bucket_burst b) \<Longrightarrow> bucket_tokens b \<le> bucket_tokens (refillBucket b now)"
    by (auto simp: refillBucket_def Let_def)
qed

lemma refill_simps [simp]:
  "bucket_rate (refillBucket b now) = bucket_rate b" "bucket_burst (refillBucket b now) = bucket_burst b"
  "bucket_lastRefill (refillBucket b now) = now"
  by (simp_all add: refillBucket_def Let_def)

lemma take_token_simps [simp]:
  "bucket_rate (snd (take_token l now b)) = bucket_rate b" "bucket_burst (snd (take_token l now b)) = bucket_burst b"
  "bucket_lastRefill (snd (take_token l now b)) = now"
  by (simp_all add: take_token_def Let_def)

lemma take_token_ok:
  assumes "bucket_ok rate burst t0 b" and "0 \<le> rate" and "t0 \<le> now"
  shows "bucket_ok rate burst now (snd (take_token l now b))"
proof -
  have b: "0 \<le> bucket_rate b" "bucket_lastRefill b \<le> now" "bucket_tokens b \<le> of_int (bucket_burst b)"
    using assms by (auto simp: bucket_ok_def)
  show ?thesis using refill_bounds(2,3) [OF b(1,2)] b assms(1) by (auto simp: bucket_ok_def take_token_def Let_def)
qed

text \<open>What a bucket gives out is bounded by what it holds and what flows in.\<close>

lemma admitted_bound:
  "0 \<le> bucket_rate b \<Longrightarrow> sorted (bucket_lastRefill b # ts) \<Longrightarrow>
    of_nat (fst (admitted l ts b)) + bucket_tokens (snd (admitted l ts b))
      \<le> bucket_tokens b + Seconds (last (bucket_lastRefill b # ts) - bucket_lastRefill b) * bucket_rate b"
proof (induction ts arbitrary: b)
  case (Cons t ts)
  let ?b = "snd (take_token l t b)" and ?e = "last (t # ts)"
  have le: "bucket_lastRefill b \<le> t" using Cons.prems by simp
  have "of_nat (fst (admitted l ts ?b)) + bucket_tokens (snd (admitted l ts ?b)) \<le> bucket_tokens ?b + Seconds (?e - t) * bucket_rate b"
    using Cons.IH [of ?b] Cons.prems by simp
  moreover have "bucket_tokens ?b + (if fst (take_token l t b) = Next then 1 else 0) \<le> bucket_tokens b + Seconds (t - bucket_lastRefill b) * bucket_rate b"
    using refill_bounds(1) [OF Cons.prems(1) le] by (auto simp: take_token_def Let_def)
  moreover have "Seconds (?e - bucket_lastRefill b) * bucket_rate b = Seconds (?e - t) * bucket_rate b + Seconds (t - bucket_lastRefill b) * bucket_rate b"
    using Seconds_add [of "?e - t" "t - bucket_lastRefill b"] by (simp add: distrib_right)
  moreover have "admitted l (t # ts) b = (if fst (take_token l t b) = Next then Suc (fst (admitted l ts ?b)) else fst (admitted l ts ?b), snd (admitted l ts ?b))"
    by (simp add: case_prod_unfold Let_def)
  ultimately show ?case by (auto split: if_splits)
qed (simp add: Seconds_def)

lemma bucket_ok_later: "bucket_ok rate burst t b \<Longrightarrow> t \<le> t' \<Longrightarrow> bucket_ok rate burst t' b"
  by (auto simp: bucket_ok_def)

lemma full_bucket_ok: "0 \<le> burst \<Longrightarrow> t \<le> now \<Longrightarrow> bucket_ok rate burst now (full_bucket rate burst t)"
  by (simp add: bucket_ok_def full_bucket_def)

lemma get_drop_idle:
  assumes "ranger_ok rng" and "gm_inv m"
  shows "gm_inv (drop_idle rng i th m) \<and>
    gm_get (drop_idle rng i th m) k = (case gm_get m k of Some b \<Rightarrow> if bucket_lastRefill b < th then None else Some b | None \<Rightarrow> None)"
proof -
  define step where "step = (\<lambda>(k, b :: tokenBucket) m :: (string, tokenBucket) gmap. if bucket_lastRefill b < th then gm_del k m else m)"
  have fold: "gm_inv m' \<Longrightarrow> gm_inv (fold step xs m') \<and>
      gm_get (fold step xs m') k = (if \<exists>b. (k, b) \<in> set xs \<and> bucket_lastRefill b < th then None else gm_get m' k)" for xs m'
  proof (induction xs arbitrary: m')
    case (Cons x xs)
    obtain k' b where x: "x = (k', b)" by (cases x)
    have "gm_inv (step x m')" using Cons.prems by (simp add: step_def x gm.inv_del)
    from Cons.IH [OF this] Cons.prems show ?case by (auto simp: step_def x gm.get_del)
  qed simp
  have "drop_idle rng i th m = fold step (range_items rng i m) m" by (simp add: drop_idle_def step_def)
  then show ?thesis
    using fold [OF assms(2), of "range_items rng i m"] by (auto simp: set_range_items [OF assms] split: option.splits)
qed

lemma performCleanup_ok:
  assumes "limiter_ok now rl" and "now \<le> t'" and "ranger_ok rng"
  shows "limiter_ok t' (performCleanup rng t u rl)"
proof -
  have "limiter_ok t' rl" using assms(1,2) bucket_ok_later unfolding limiter_ok_def by blast
  then show ?thesis
    using get_drop_idle [OF assms(3)]
    by (auto simp: performCleanup_def limiter_ok_def Let_def split: option.splits if_splits)
qed

lemma ip_token_ok:
  assumes "limiter_ok now rl" and "now \<le> t" and "t \<le> u"
  shows "limiter_ok u (snd (ip_token ip t u rl))"
proof -
  have okt: "limiter_ok t rl" and ok: "limiter_ok u rl"
    using assms bucket_ok_later unfolding limiter_ok_def by (meson order_trans)+
  obtain b rl1 where g: "getOrCreateIPBucket ip t rl = (b, rl1)" by (metis prod.exhaust)
  have b: "bucket_ok (RateLimiter_ipRate rl) (RateLimiter_ipBurst rl) t b" and rl1: "limiter_ok u rl1"
    "RateLimiter_ipRate rl1 = RateLimiter_ipRate rl" "RateLimiter_ipBurst rl1 = RateLimiter_ipBurst rl" "0 \<le> RateLimiter_ipRate rl"
    using g assms(2,3) okt ok full_bucket_ok [of "RateLimiter_ipBurst rl" t t] full_bucket_ok [of "RateLimiter_ipBurst rl" t u]
    by (auto simp: getOrCreateIPBucket_def limiter_ok_def Let_def gm.get_put gm.inv_put split: option.splits if_splits)
  from take_token_ok [OF b rl1(4) assms(3), of IPLimit] rl1 show ?thesis
    by (auto simp: ip_token_def g limiter_ok_def gm.get_put gm.inv_put case_prod_unfold Let_def)
qed

lemma user_token_ok:
  assumes "limiter_ok now rl" and "now \<le> t" and "t \<le> u"
  shows "limiter_ok u (snd (user_token ip t u rl))"
proof -
  have okt: "limiter_ok t rl" and ok: "limiter_ok u rl"
    using assms bucket_ok_later unfolding limiter_ok_def by (meson order_trans)+
  obtain b rl1 where g: "getOrCreateUserBucket ip t rl = (b, rl1)" by (metis prod.exhaust)
  have b: "bucket_ok (RateLimiter_userRate rl) (RateLimiter_userBurst rl) t b" and rl1: "limiter_ok u rl1"
    "RateLimiter_userRate rl1 = RateLimiter_userRate rl" "RateLimiter_userBurst rl1 = RateLimiter_userBurst rl" "0 \<le> RateLimiter_userRate rl"
    using g assms(2,3) okt ok full_bucket_ok [of "RateLimiter_userBurst rl" t t] full_bucket_ok [of "RateLimiter_userBurst rl" t u]
    by (auto simp: getOrCreateUserBucket_def limiter_ok_def Let_def gm.get_put gm.inv_put split: option.splits if_splits)
  from take_token_ok [OF b rl1(4) assms(3), of UserLimit] rl1 show ?thesis
    by (auto simp: user_token_def g limiter_ok_def gm.get_put gm.inv_put case_prod_unfold Let_def)
qed

lemma limiter_ok_later: "limiter_ok now rl \<Longrightarrow> now \<le> t \<Longrightarrow> limiter_ok t rl"
  using bucket_ok_later unfolding limiter_ok_def by blast

lemma RateLimit_ok:
  assumes "limiter_ok now rl" and "mono clk" and "now \<le> clk 0" and "ranger_ok rng"
  shows "limiter_ok (clk 6) (snd (snd (RateLimit rng clk ip u (g, rl))))"
proof -
  have m: "clk i \<le> clk j" if "i \<le> j" for i j using assms(2) that by (rule monoD)
  define rl1 where "rl1 = performCleanup rng (clk 0) (clk 1) rl"
  have 1: "limiter_ok (clk 0) rl1" unfolding rl1_def by (rule performCleanup_ok [OF assms(1,3,4)])
  have 2: "limiter_ok (clk 4) (snd (ip_token ip (clk 3) (clk 4) rl1))" by (rule ip_token_ok [OF 1]) (simp_all add: m)
  have 3: "limiter_ok (clk 6) (snd (user_token u (clk 5) (clk 6) (snd (ip_token ip (clk 3) (clk 4) rl1))))"
    by (rule user_token_ok [OF 2]) (simp_all add: m)
  show ?thesis
    using limiter_ok_later [OF 1, of "clk 6"] limiter_ok_later [OF 2, of "clk 6"] 3 m [of _ 6]
    unfolding rl1_def by (auto simp: RateLimit_def Let_def case_prod_unfold)
qed

lemma limiter_step_ok:
  assumes "limiter_step (now, rl) (now', rl')" and ok: "limiter_ok now rl"
  shows "limiter_ok now' rl'"
  using assms(1)
proof (cases rule: limiter_step.cases)
  case (ip clk rng k)
  have "clk 0 \<le> clk 2" "clk 2 \<le> clk 3" using ip(3) by (simp_all add: mono_def)
  then show ?thesis using ip_token_ok [OF performCleanup_ok [OF ok ip(4,5)]] by (simp add: ip(1,2) IPRateLimit_def)
next
  case (user clk rng k)
  have m: "clk 0 \<le> clk 2" "clk 2 \<le> clk 3" using user(3) by (simp_all add: mono_def)
  note c = performCleanup_ok [OF ok user(4,5)]
  show ?thesis
    using user_token_ok [OF c m] limiter_ok_later [OF c order_trans [OF m]] by (auto simp: user(1,2) UserRateLimit_def Let_def)
next
  case (all clk rng ip u g)
  then show ?thesis using RateLimit_ok ok by simp
qed (use ok in \<open>auto simp: limiter_ok_def ResetIPBucket_def ResetUserBucket_def gm.get_del gm.inv_del\<close>)

lemma NewRateLimiter_ok:
  "0 \<le> LimiterConfig_IPRate c \<Longrightarrow> 0 \<le> LimiterConfig_IPBurst c \<Longrightarrow> 0 \<le> LimiterConfig_UserRate c \<Longrightarrow> 0 \<le> LimiterConfig_UserBurst c \<Longrightarrow>
    limiter_ok now (NewRateLimiter c now)"
  by (simp add: limiter_ok_def NewRateLimiter_def gm_laws)

lemma refill_full:
  assumes "bucket_ok rate burst t b" and "0 \<le> rate" and "bucket_lastRefill b < now - d" and "0 \<le> d" and "d < 2 ^ 63"
    and "of_int burst \<le> rate * Seconds d"
  shows "refillBucket b now = full_bucket rate burst now"
proof -
  have "d \<le> time_Sub now (bucket_lastRefill b)" using assms(3-5) by (simp add: time_Sub_def)
  then have "rate * Seconds d \<le> rate * Seconds (time_Sub now (bucket_lastRefill b))"
    using Seconds_mono assms(2) by (simp add: mult_left_mono)
  then have "of_int burst \<le> bucket_tokens b + Seconds (time_Sub now (bucket_lastRefill b)) * bucket_rate b"
    using assms(1,6) by (simp add: bucket_ok_def mult.commute)
  then show ?thesis using assms(1) by (auto simp: refillBucket_def full_bucket_def bucket_ok_def Let_def)
qed

lemma refill_full_bucket: "0 \<le> rate \<Longrightarrow> t \<le> now \<Longrightarrow> refillBucket (full_bucket rate burst t) now = full_bucket rate burst now"
  using time_Sub_bounds [of t now] Seconds_nonneg [of "time_Sub now t"] mult_nonneg_nonneg [of "Seconds (time_Sub now t)" rate]
  by (cases "Seconds (time_Sub now t) * rate = 0") (simp_all add: refillBucket_def full_bucket_def Let_def less_le)

section \<open>Properties\<close>

text \<open>
  (C19) A bucket keeps its promise: over any sequence of requests in the order of time it admits at most its burst plus what its rate
  yields in the time that passed.
\<close>

theorem bucket_admission:
  assumes "bucket_ok rate burst now b" and "0 \<le> rate" and "sorted (bucket_lastRefill b # ts)"
  shows "of_nat (fst (admitted l ts b)) \<le> of_int burst + rate * Seconds (last (bucket_lastRefill b # ts) - bucket_lastRefill b)"
proof -
  have "0 \<le> bucket_tokens (snd (admitted l ts b))"
    using assms
  proof (induction ts arbitrary: b now)
    case (Cons t ts)
    have "bucket_ok rate burst t (snd (take_token l t b))"
      using Cons.prems by (intro take_token_ok [of rate burst "bucket_lastRefill b"]) (auto simp: bucket_ok_def)
    from Cons.IH [OF this] Cons.prems show ?case by (simp add: case_prod_unfold Let_def)
  qed (simp add: bucket_ok_def)
  moreover have "bucket_rate b = rate" "bucket_tokens b \<le> of_int burst" using assms(1) by (simp_all add: bucket_ok_def)
  ultimately show ?thesis
    using admitted_bound [of b ts l] assms(2,3) by (simp add: mult.commute)
qed

theorem bucket_admission_witness:
  "fst (admitted IPLimit [0, 0, 0, Second, Second] small_bucket) = 3 \<and> (3 :: rat) \<le> 2 + 1 * Seconds Second"
proof -
  have "bucket_ok 1 2 0 small_bucket" "sorted (bucket_lastRefill small_bucket # [0, 0, 0, Second, Second])"
    "bucket_lastRefill small_bucket = 0"
    by (simp_all add: small_bucket_def full_bucket_def bucket_ok_def time_units)
  moreover have "fst (admitted IPLimit [0, 0, 0, Second, Second] small_bucket) = 3" by code_simp
  ultimately show ?thesis using bucket_admission [of 1 2 0 small_bucket "[0, 0, 0, Second, Second]" IPLimit] by simp
qed

text \<open>
  A rejected client that waits for the announced time is admitted, if nobody else takes from the bucket meanwhile.
\<close>

theorem retry_after_suffices:
  assumes "take_token l now b = (TooManyRequests l r, b1)" and "0 < bucket_rate b" and "1 \<le> bucket_burst b"
    and "now \<le> now'" and "now' - now < 2 ^ 63" and "r \<le> Seconds (now' - now)"
  shows "fst (take_token l now' b1) = Next"
proof -
  have b1: "b1 = refillBucket b now" "bucket_tokens b1 < 1" "r = (1 - bucket_tokens b1) / bucket_rate b"
    using assms(1) by (auto simp: take_token_def Let_def retryAfter_def split: if_splits)
  have "time_Sub now' (bucket_lastRefill b1) = now' - now" using assms(4,5) by (simp add: b1(1) time_Sub_def)
  moreover have "1 \<le> bucket_tokens b1 + Seconds (now' - now) * bucket_rate b1"
    using assms(2,6) unfolding b1(3) by (simp add: b1(1) pos_divide_le_eq)
  ultimately show ?thesis
    using assms(3) by (auto simp: take_token_def refillBucket_def [of b1 now'] Let_def) (simp add: b1(1))
qed

theorem retry_after_suffices_witness:
  "fst (take_token IPLimit 0 (small_bucket\<lparr>bucket_tokens := 0\<rparr>)) = TooManyRequests IPLimit 1 \<and>
    fst (take_token IPLimit Second (snd (take_token IPLimit 0 (small_bucket\<lparr>bucket_tokens := 0\<rparr>)))) = Next"
proof -
  let ?b = "small_bucket\<lparr>bucket_tokens := 0\<rparr>"
  have r: "take_token IPLimit 0 ?b = (TooManyRequests IPLimit 1, snd (take_token IPLimit 0 ?b))" by code_simp
  show ?thesis
    using retry_after_suffices [OF r, of Second] arg_cong [OF r, of fst]
    by (simp add: small_bucket_def full_bucket_def Seconds_def time_units)
qed





end
