(* ===== verification/Api_Key.thy ===== *)
theory Api_Key
  imports Go_Crypto Go_Strings Go_Float
begin

text \<open>
  The API keys of \<^verbatim>\<open>internal/auth/apikey.go\<close>: the storage interface with the storage in memory, and the manager with
  its rate limit. An interface value is a record of its methods on a state \<open>'s\<close>. The package \<^verbatim>\<open>bcrypt\<close> is a pair of
  arguments, \<open>gen\<close> for \<^verbatim>\<open>GenerateFromPassword\<close> and \<open>cmp\<close> for \<^verbatim>\<open>CompareHashAndPassword\<close>;
  random bytes and readings of the clock are arguments too.
\<close>

section \<open>Data\<close>

record APIKey =
  APIKey_ID :: string
  APIKey_KeyPrefix :: string
  APIKey_KeyHash :: string
  APIKey_Name :: string
  APIKey_UserID :: string
  APIKey_Permissions :: "string list"
  APIKey_Revoked :: bool
  APIKey_ExpiresAt :: gotime
  APIKey_CreatedAt :: gotime
  APIKey_LastUsedAt :: gotime

datatype apikey_error =
    ErrInvalidAPIKey | ErrAPIKeyRevoked | ErrAPIKeyExpired | ErrKeyPrefixInvalid | ErrRateLimitExceeded
  | KeyNotFound string | KeyPrefixNotFound string | HashFailed string | StoreFailed apikey_error

definition APIKeyPrefix :: string where "APIKeyPrefix = ''nxp_''"
definition APIKeyLength :: nat where "APIKeyLength = 48"
definition BcryptCost :: int where "BcryptCost = 12"

record rateLimitEntry =
  Entry_count :: int
  Entry_windowStart :: gotime

record 's APIKeyManager =
  KeyManager_keys :: "(string, APIKey) gmap"
  KeyManager_rateLimits :: "(string, rateLimitEntry) gmap"
  KeyManager_rateLimitRate :: int
  KeyManager_rateLimitWindow :: dur
  KeyManager_storage :: 's

record 's APIKeyStorage =
  storage_Save :: "APIKey \<Rightarrow> 's \<Rightarrow> apikey_error option \<times> 's"
  storage_FindByID :: "string \<Rightarrow> 's \<Rightarrow> apikey_error + APIKey"
  storage_FindByUserID :: "string \<Rightarrow> 's \<Rightarrow> apikey_error + APIKey list"
  storage_FindByPrefix :: "string \<Rightarrow> 's \<Rightarrow> apikey_error + APIKey"
  storage_Revoke :: "string \<Rightarrow> 's \<Rightarrow> apikey_error option \<times> 's"
  storage_Delete :: "string \<Rightarrow> 's \<Rightarrow> apikey_error option \<times> 's"

section \<open>The storage in memory\<close>

text \<open>Every key is stored under its own identifier, so the map of pointers is a map of values.\<close>

record MemoryStorage =
  MemoryStorage_keys :: "(string, APIKey) gmap"

definition NewMemoryStorage :: MemoryStorage where
  "NewMemoryStorage = \<lparr>MemoryStorage_keys = gm_empty\<rparr>"

definition memory_Save :: "APIKey \<Rightarrow> MemoryStorage \<Rightarrow> apikey_error option \<times> MemoryStorage" where
  "memory_Save key s = (None, s\<lparr>MemoryStorage_keys := gm_set (APIKey_ID key) key (MemoryStorage_keys s)\<rparr>)"

definition memory_FindByID :: "string \<Rightarrow> MemoryStorage \<Rightarrow> apikey_error + APIKey" where
  "memory_FindByID kid s = (case gm_get (MemoryStorage_keys s) kid of None \<Rightarrow> Inl (KeyNotFound kid) | Some key \<Rightarrow> Inr key)"

definition memory_FindByUserID :: "string ranger \<Rightarrow> string \<Rightarrow> MemoryStorage \<Rightarrow> apikey_error + APIKey list" where
  "memory_FindByUserID rng userID s =
     Inr (filter (\<lambda>k. APIKey_UserID k = userID) (map snd (range_items rng 0 (MemoryStorage_keys s))))"

definition memory_FindByPrefix :: "string ranger \<Rightarrow> string \<Rightarrow> MemoryStorage \<Rightarrow> apikey_error + APIKey" where
  "memory_FindByPrefix rng prefix s =
     (case find (\<lambda>k. APIKey_KeyPrefix k = prefix) (map snd (range_items rng 0 (MemoryStorage_keys s))) of
        Some k \<Rightarrow> Inr k | None \<Rightarrow> Inl (KeyPrefixNotFound prefix))"

definition memory_Revoke :: "string \<Rightarrow> MemoryStorage \<Rightarrow> apikey_error option \<times> MemoryStorage" where
  "memory_Revoke kid s =
     (case gm_get (MemoryStorage_keys s) kid of
        None \<Rightarrow> (Some (KeyNotFound kid), s)
      | Some key \<Rightarrow> (None, s\<lparr>MemoryStorage_keys := gm_set kid (key\<lparr>APIKey_Revoked := True\<rparr>) (MemoryStorage_keys s)\<rparr>))"

definition memory_Delete :: "string \<Rightarrow> MemoryStorage \<Rightarrow> apikey_error option \<times> MemoryStorage" where
  "memory_Delete kid s = (None, s\<lparr>MemoryStorage_keys := gm_del kid (MemoryStorage_keys s)\<rparr>)"

definition MemoryStorage_methods :: "string ranger \<Rightarrow> MemoryStorage APIKeyStorage" where
  "MemoryStorage_methods rng =
     \<lparr>storage_Save = memory_Save, storage_FindByID = memory_FindByID, storage_FindByUserID = memory_FindByUserID rng,
      storage_FindByPrefix = memory_FindByPrefix rng, storage_Revoke = memory_Revoke, storage_Delete = memory_Delete\<rparr>"

section \<open>The manager\<close>

definition WithRateLimit :: "int \<Rightarrow> dur \<Rightarrow> 's APIKeyManager \<Rightarrow> 's APIKeyManager" where
  "WithRateLimit rate window m = m\<lparr>KeyManager_rateLimitRate := rate, KeyManager_rateLimitWindow := window\<rparr>"

text \<open>The storage is the one in memory when the caller gives none; it is the only one of the program.\<close>

definition NewAPIKeyManager ::
  "MemoryStorage option \<Rightarrow> (MemoryStorage APIKeyManager \<Rightarrow> MemoryStorage APIKeyManager) list \<Rightarrow> MemoryStorage APIKeyManager" where
  "NewAPIKeyManager storage opts =
     fold (\<lambda>opt m. opt m) opts
       \<lparr>KeyManager_keys = gm_empty, KeyManager_rateLimits = gm_empty, KeyManager_rateLimitRate = 100,
        KeyManager_rateLimitWindow = 1 * Minute,
        KeyManager_storage = (case storage of Some s \<Rightarrow> s | None \<Rightarrow> NewMemoryStorage)\<rparr>"

definition hashKey :: "(string \<Rightarrow> int \<Rightarrow> string + string) \<Rightarrow> string \<Rightarrow> string + string" where
  "hashKey gen key = gen key BcryptCost"

definition verifyKey :: "(string \<Rightarrow> string \<Rightarrow> bool) \<Rightarrow> string \<Rightarrow> string \<Rightarrow> bool" where
  "verifyKey cmp key hash = cmp hash key"

definition generateRandomKey :: "nat \<Rightarrow> (nat \<Rightarrow> byte) \<Rightarrow> string" where
  "generateRandomKey len rand = hex_EncodeToString (map rand [0..<len])"

definition generateKeyID :: "(nat \<Rightarrow> byte) \<Rightarrow> string" where
  "generateKeyID rand = hex_EncodeToString (map rand [0..<16])"

definition GenerateKey ::
  "'s APIKeyStorage \<Rightarrow> (string \<Rightarrow> int \<Rightarrow> string + string) \<Rightarrow> (nat \<Rightarrow> byte) \<Rightarrow> (nat \<Rightarrow> byte) \<Rightarrow> gotime \<Rightarrow>
   string \<Rightarrow> string \<Rightarrow> string list \<Rightarrow> gotime \<Rightarrow> 's APIKeyManager \<Rightarrow> (apikey_error + string \<times> APIKey) \<times> 's APIKeyManager" where
  "GenerateKey I gen rand rand_id now userID name permissions expiresAt m =
     (let rawKey = generateRandomKey APIKeyLength rand; prefix = APIKeyPrefix @ take 8 rawKey
      in case hashKey gen rawKey of
           Inl e \<Rightarrow> (Inl (HashFailed e), m)
         | Inr hashedKey \<Rightarrow>
             (let apiKey = \<lparr>APIKey_ID = generateKeyID rand_id, APIKey_KeyPrefix = prefix, APIKey_KeyHash = hashedKey, APIKey_Name = name,
                            APIKey_UserID = userID, APIKey_Permissions = permissions, APIKey_Revoked = False,
                            APIKey_ExpiresAt = expiresAt, APIKey_CreatedAt = now, APIKey_LastUsedAt = 0\<rparr>;
                  (err, s) = storage_Save I apiKey (KeyManager_storage m);
                  m1 = m\<lparr>KeyManager_storage := s\<rparr>
              in case err of
                   Some e \<Rightarrow> (Inl (StoreFailed e), m1)
                 | None \<Rightarrow> (Inr (prefix @ drop 8 rawKey, apiKey), m1)))"

text \<open>\<open>t\<close> and \<open>t'\<close> are the two readings of the clock; a key with the prefix but without eight more characters cannot be sliced.\<close>

definition ValidateKey ::
  "'s APIKeyStorage \<Rightarrow> (string \<Rightarrow> string \<Rightarrow> bool) \<Rightarrow> gotime \<Rightarrow> gotime \<Rightarrow> string \<Rightarrow> 's APIKeyManager \<Rightarrow>
   (apikey_error, APIKey) outcome \<times> 's APIKeyManager" where
  "ValidateKey I cmp t t' fullKey m =
     (if \<not> HasPrefix fullKey APIKeyPrefix then (Error ErrKeyPrefixInvalid, m)
      else if length fullKey < length APIKeyPrefix + 8 then (Panic, m)
      else
        let prefix = take (length APIKeyPrefix + 8) fullKey
        in case storage_FindByPrefix I prefix (KeyManager_storage m) of
             Inl e \<Rightarrow> (Error ErrInvalidAPIKey, m)
           | Inr apiKey \<Rightarrow>
               if APIKey_Revoked apiKey then (Error ErrAPIKeyRevoked, m)
               else if \<not> time_IsZero (APIKey_ExpiresAt apiKey) \<and> APIKey_ExpiresAt apiKey < t then (Error ErrAPIKeyExpired, m)
               else
                 let rawSecret = drop (length prefix) fullKey
                 in if \<not> verifyKey cmp fullKey (APIKey_KeyHash apiKey) \<and> \<not> verifyKey cmp rawSecret (APIKey_KeyHash apiKey)
                    then (Error ErrInvalidAPIKey, m)
                    else let apiKey1 = apiKey\<lparr>APIKey_LastUsedAt := t'\<rparr>
                         in (Return apiKey1, m\<lparr>KeyManager_storage := snd (storage_Save I apiKey1 (KeyManager_storage m))\<rparr>))"

definition RevokeKey :: "'s APIKeyStorage \<Rightarrow> string \<Rightarrow> 's APIKeyManager \<Rightarrow> apikey_error option \<times> 's APIKeyManager" where
  "RevokeKey I kid m = (let (e, s) = storage_Revoke I kid (KeyManager_storage m) in (e, m\<lparr>KeyManager_storage := s\<rparr>))"

definition GetKey :: "'s APIKeyStorage \<Rightarrow> string \<Rightarrow> 's APIKeyManager \<Rightarrow> apikey_error + APIKey" where
  "GetKey I kid m = storage_FindByID I kid (KeyManager_storage m)"

definition GetUserKeys :: "'s APIKeyStorage \<Rightarrow> string \<Rightarrow> 's APIKeyManager \<Rightarrow> apikey_error + APIKey list" where
  "GetUserKeys I userID m = storage_FindByUserID I userID (KeyManager_storage m)"

definition DeleteKey :: "'s APIKeyStorage \<Rightarrow> string \<Rightarrow> 's APIKeyManager \<Rightarrow> apikey_error option \<times> 's APIKeyManager" where
  "DeleteKey I kid m = (let (e, s) = storage_Delete I kid (KeyManager_storage m) in (e, m\<lparr>KeyManager_storage := s\<rparr>))"

definition CheckRateLimit :: "gotime \<Rightarrow> string \<Rightarrow> 's APIKeyManager \<Rightarrow> apikey_error option \<times> 's APIKeyManager" where
  "CheckRateLimit now key m =
     (let fresh = (None, m\<lparr>KeyManager_rateLimits := gm_set key \<lparr>Entry_count = 1, Entry_windowStart = now\<rparr> (KeyManager_rateLimits m)\<rparr>)
      in case gm_get (KeyManager_rateLimits m) key of
           None \<Rightarrow> fresh
         | Some entry \<Rightarrow>
             if KeyManager_rateLimitWindow m < time_Sub now (Entry_windowStart entry) then fresh
             else let entry1 = entry\<lparr>Entry_count := i64 (Entry_count entry + 1)\<rparr>;
                      m1 = m\<lparr>KeyManager_rateLimits := gm_set key entry1 (KeyManager_rateLimits m)\<rparr>
                  in (if KeyManager_rateLimitRate m < Entry_count entry1 then Some ErrRateLimitExceeded else None, m1))"

definition SanitizeAPIKey :: "string \<Rightarrow> string" where
  "SanitizeAPIKey fullKey = (if length fullKey \<le> 12 then ''***'' else take 12 fullKey @ ''***'')"

definition ComputeKeyFingerprint :: "string \<Rightarrow> string" where
  "ComputeKeyFingerprint fullKey = base64_EncodeToString base64_std (Sum256 (bytes fullKey))"

section \<open>Definitions for the statements\<close>

text \<open>The key with an identifier is absent or revoked.\<close>

definition unusable :: "('s \<Rightarrow> string \<Rightarrow> APIKey option) \<Rightarrow> string \<Rightarrow> 's APIKeyManager \<Rightarrow> bool" where
  "unusable lookup kid m \<longleftrightarrow> pred_option APIKey_Revoked (lookup (KeyManager_storage m) kid)"

text \<open>The operations on a manager, with new keys that do not get the identifier \<open>kid\<close>. \<open>r\<close> stands for what a storage method may choose.\<close>

inductive key_step :: "('r \<Rightarrow> 's APIKeyStorage) \<Rightarrow> ('r \<Rightarrow> bool) \<Rightarrow> string \<Rightarrow> 's APIKeyManager \<Rightarrow> 's APIKeyManager \<Rightarrow> bool"
  for I ok kid where
  generate: "ok r \<Longrightarrow> generateKeyID rand_id \<noteq> kid \<Longrightarrow>
    key_step I ok kid m (snd (GenerateKey (I r) gen rand rand_id now u n ps e m))"
| validate: "ok r \<Longrightarrow> key_step I ok kid m (snd (ValidateKey (I r) cmp t t' fullKey m))"
| revoke: "ok r \<Longrightarrow> key_step I ok kid m (snd (RevokeKey (I r) k m))"
| delete: "ok r \<Longrightarrow> key_step I ok kid m (snd (DeleteKey (I r) k m))"
| limit: "key_step I ok kid m (snd (CheckRateLimit now key m))"

definition memory_lookup :: "MemoryStorage \<Rightarrow> string \<Rightarrow> APIKey option" where
  "memory_lookup s = gm_get (MemoryStorage_keys s)"

definition memory_inv :: "MemoryStorage \<Rightarrow> bool" where
  "memory_inv s \<longleftrightarrow> gm_inv (MemoryStorage_keys s) \<and> (\<forall>(k, key) \<in> set (MemoryStorage_keys s). APIKey_ID key = k)"

text \<open>A sequence of requests with one key, and how many of them pass.\<close>

fun requests_passed :: "string \<Rightarrow> gotime list \<Rightarrow> 's APIKeyManager \<Rightarrow> nat" where
  "requests_passed key [] m = 0"
| "requests_passed key (t # ts) m =
     (let (e, m1) = CheckRateLimit t key m in (if e = None then 1 else 0) + requests_passed key ts m1)"

text \<open>An example: a hash that is the key itself behind a mark, for keys of at most 72 characters, and a storage with one key.\<close>

definition toy_gen :: "string \<Rightarrow> int \<Rightarrow> string + string" where
  "toy_gen pw cost = (if 72 < length pw then Inl ''too long'' else Inr (CHR ''$'' # pw))"

definition toy_cmp :: "string \<Rightarrow> string \<Rightarrow> bool" where
  "toy_cmp h pw \<longleftrightarrow> h = CHR ''$'' # pw"

definition one_key :: APIKey where
  "one_key = \<lparr>APIKey_ID = ''k1'', APIKey_KeyPrefix = ''nxp_01234567'', APIKey_KeyHash = ''$secret'', APIKey_Name = ''ci'',
     APIKey_UserID = ''u'', APIKey_Permissions = [], APIKey_Revoked = False, APIKey_ExpiresAt = 0, APIKey_CreatedAt = 1,
     APIKey_LastUsedAt = 0\<rparr>"

definition one_manager :: "MemoryStorage APIKeyManager" where
  "one_manager = NewAPIKeyManager (Some (snd (memory_Save one_key NewMemoryStorage))) [WithRateLimit 2 Minute]"

section \<open>The contract of a storage\<close>

locale key_storage =
  fixes I :: "'r \<Rightarrow> 's APIKeyStorage"
    and ok :: "'r \<Rightarrow> bool"
    and lookup :: "'s \<Rightarrow> string \<Rightarrow> APIKey option"
    and inv :: "'s \<Rightarrow> bool"
  assumes lookup_id: "inv s \<Longrightarrow> lookup s kid = Some k \<Longrightarrow> APIKey_ID k = kid"
    and find_id: "ok r \<Longrightarrow> inv s \<Longrightarrow> storage_FindByID (I r) kid s = Inr k \<longleftrightarrow> lookup s kid = Some k"
    and find_prefix: "ok r \<Longrightarrow> inv s \<Longrightarrow> storage_FindByPrefix (I r) p s = Inr k \<Longrightarrow>
      APIKey_KeyPrefix k = p \<and> lookup s (APIKey_ID k) = Some k"
    and find_no_prefix: "ok r \<Longrightarrow> inv s \<Longrightarrow> storage_FindByPrefix (I r) p s = Inl err \<Longrightarrow> lookup s kid = Some k \<Longrightarrow>
      APIKey_KeyPrefix k \<noteq> p"
    and find_user: "ok r \<Longrightarrow> inv s \<Longrightarrow> storage_FindByUserID (I r) u s = Inr ks \<Longrightarrow>
      set ks = {k. lookup s (APIKey_ID k) = Some k \<and> APIKey_UserID k = u}"
    and saved: "ok r \<Longrightarrow> inv s \<Longrightarrow> storage_Save (I r) k s = (e, s') \<Longrightarrow>
      inv s' \<and> lookup s' = (if e = None then (lookup s)(APIKey_ID k \<mapsto> k) else lookup s)"
    and revoked: "ok r \<Longrightarrow> inv s \<Longrightarrow> storage_Revoke (I r) kid s = (e, s') \<Longrightarrow>
      inv s' \<and> (e = None \<longleftrightarrow> lookup s kid \<noteq> None) \<and>
      lookup s' = (lookup s)(kid := map_option (\<lambda>k. k\<lparr>APIKey_Revoked := True\<rparr>) (lookup s kid))"
    and deleted: "ok r \<Longrightarrow> inv s \<Longrightarrow> storage_Delete (I r) kid s = (e, s') \<Longrightarrow>
      inv s' \<and> lookup s' = (if e = None then (lookup s)(kid := None) else lookup s)"
begin

lemma validated_key:
  assumes "ok r" and "inv (KeyManager_storage m)" and "ValidateKey (I r) cmp t t' fullKey m = (Return k', m')"
  obtains k where "lookup (KeyManager_storage m) (APIKey_ID k) = Some k" "\<not> APIKey_Revoked k" "k' = k\<lparr>APIKey_LastUsedAt := t'\<rparr>"
    "APIKey_KeyPrefix k = take 12 fullKey" "12 \<le> length fullKey" "HasPrefix fullKey APIKeyPrefix"
    "APIKey_ExpiresAt k = 0 \<or> t \<le> APIKey_ExpiresAt k"
    "cmp (APIKey_KeyHash k) fullKey \<or> cmp (APIKey_KeyHash k) (drop 12 fullKey)"
    "m' = m\<lparr>KeyManager_storage := snd (storage_Save (I r) k' (KeyManager_storage m))\<rparr>"
  using assms(3) find_prefix [OF assms(1,2), of "take 12 fullKey"]
  by (auto simp: ValidateKey_def Let_def APIKeyPrefix_def verifyKey_def time_IsZero_def min_absorb2 split: if_splits sum.splits)

lemma unusable_not_validated:
  assumes "ok r" and "inv (KeyManager_storage m)" and "unusable lookup kid m"
    and "ValidateKey (I r) cmp t t' fullKey m = (Return k', m')"
  shows "APIKey_ID k' \<noteq> kid"
  using validated_key [OF assms(1,2,4)] assms(3) unfolding unusable_def by fastforce

lemma key_step_keeps:
  assumes "key_step I ok kid m m'" and "inv (KeyManager_storage m)" and "unusable lookup kid m"
  shows "inv (KeyManager_storage m') \<and> unusable lookup kid m'"
  using assms(1)
proof (cases rule: key_step.cases)
  case (generate r rand_id gen rand now u n ps e)
  then show ?thesis
    using assms(2,3) saved [OF generate(2) assms(2)]
    by (auto simp: GenerateKey_def Let_def unusable_def split: sum.splits prod.splits option.splits)
next
  case (validate r cmp t t' fullKey)
  show ?thesis
  proof (cases "\<exists>k'. fst (ValidateKey (I r) cmp t t' fullKey m) = Return k'")
    case True
    then obtain k' where v: "ValidateKey (I r) cmp t t' fullKey m = (Return k', m')" using validate(1) by (metis prod.collapse)
    obtain e s where s: "storage_Save (I r) k' (KeyManager_storage m) = (e, s)" by (meson prod.exhaust)
    have "m' = m\<lparr>KeyManager_storage := s\<rparr>" using validated_key [OF validate(2) assms(2) v] s by (metis snd_conv)
    then show ?thesis
      using saved [OF validate(2) assms(2) s] unusable_not_validated [OF validate(2) assms(2,3) v] assms(3) by (auto simp: unusable_def)
  next
    case False
    then have "m' = m" unfolding validate(1) by (auto simp: ValidateKey_def Let_def split: sum.splits)
    then show ?thesis using assms by simp
  qed
next
  case (revoke r k)
  then show ?thesis
    using assms(2,3) revoked [OF revoke(2) assms(2), of k]
    by (auto simp: RevokeKey_def Let_def unusable_def option.pred_map split: prod.splits)
next
  case (delete r k)
  then show ?thesis
    using assms(2,3) deleted [OF delete(2) assms(2), of k]
    by (auto simp: DeleteKey_def Let_def unusable_def split: prod.splits if_splits)
next
  case (limit now key)
  then show ?thesis
    using assms(2,3) by (auto simp: CheckRateLimit_def Let_def unusable_def split: option.splits)
qed

lemma key_steps_keep:
  assumes "(key_step I ok kid)\<^sup>*\<^sup>* m m'" and "inv (KeyManager_storage m)" and "unusable lookup kid m"
  shows "inv (KeyManager_storage m') \<and> unusable lookup kid m'"
  using assms by (induction rule: rtranclp_induct) (auto dest: key_step_keeps)

lemma revoked_unusable:
  assumes "ok r" and "inv (KeyManager_storage m)" and "RevokeKey (I r) kid m = (e, m')"
  shows "inv (KeyManager_storage m') \<and> unusable lookup kid m'"
  using assms(3) revoked [OF assms(1,2), of kid]
  by (auto simp: RevokeKey_def Let_def unusable_def option.pred_map split: prod.splits)

end

section \<open>The storage in memory keeps the contract\<close>

lemma memory_lookup_ID: "memory_inv s \<Longrightarrow> memory_lookup s kid = Some k \<Longrightarrow> APIKey_ID k = kid"
  using gm_get_mem [of "MemoryStorage_keys s" kid k] by (auto simp: memory_inv_def memory_lookup_def)

lemma memory_lookup_values:
  assumes "ranger_ok rng" and "memory_inv s"
  shows "k \<in> set (map snd (range_items rng i (MemoryStorage_keys s))) \<longleftrightarrow> memory_lookup s (APIKey_ID k) = Some k"
proof -
  have "(kid, k) \<in> set (range_items rng i (MemoryStorage_keys s)) \<longleftrightarrow> memory_lookup s kid = Some k" for kid
    using set_range_items [OF assms(1), of "MemoryStorage_keys s" i] assms(2) by (simp add: memory_inv_def memory_lookup_def)
  then show ?thesis using memory_lookup_ID [OF assms(2), of _ k] by (simp add: Range_snd [symmetric] Range_iff) metis
qed

lemma memory_inv_set:
  assumes "memory_inv s" and "APIKey_ID k = kid"
  shows "memory_inv (s\<lparr>MemoryStorage_keys := gm_set kid k (MemoryStorage_keys s)\<rparr>)"
  using assms set_gm_set [of kid k "MemoryStorage_keys s"] by (auto simp: memory_inv_def gm.inv_put)

interpretation mem: key_storage MemoryStorage_methods ranger_ok memory_lookup memory_inv
proof unfold_locales
  fix s kid k
  assume "memory_inv s" "memory_lookup s kid = Some k"
  then show "APIKey_ID k = kid" using gm_get_mem [of "MemoryStorage_keys s" kid k] by (auto simp: memory_inv_def memory_lookup_def)
next
  fix r :: "string ranger" and s kid k
  show "(storage_FindByID (MemoryStorage_methods r) kid s = Inr k) = (memory_lookup s kid = Some k)"
    by (simp add: MemoryStorage_methods_def memory_FindByID_def memory_lookup_def split: option.splits)
next
  fix r s p k
  assume a: "ranger_ok r" "memory_inv s" "storage_FindByPrefix (MemoryStorage_methods r) p s = Inr k"
  then have "k \<in> set (map snd (range_items r 0 (MemoryStorage_keys s))) \<and> APIKey_KeyPrefix k = p"
    by (auto simp: MemoryStorage_methods_def memory_FindByPrefix_def find_Some_iff nth_mem split: option.splits)
  then show "APIKey_KeyPrefix k = p \<and> memory_lookup s (APIKey_ID k) = Some k" using memory_lookup_values [OF a(1,2)] by blast
next
  fix r s p err kid k
  assume a: "ranger_ok r" "memory_inv s" "storage_FindByPrefix (MemoryStorage_methods r) p s = Inl err" "memory_lookup s kid = Some k"
  then have "APIKey_ID k = kid" using gm_get_mem [of "MemoryStorage_keys s" kid k] by (auto simp: memory_inv_def memory_lookup_def)
  with a have "k \<in> set (map snd (range_items r 0 (MemoryStorage_keys s)))" using memory_lookup_values [OF a(1,2)] by simp
  with a(3) show "APIKey_KeyPrefix k \<noteq> p"
    by (auto simp: MemoryStorage_methods_def memory_FindByPrefix_def find_None_iff split: option.splits)
next
  fix r s u ks
  assume a: "ranger_ok r" "memory_inv s" "storage_FindByUserID (MemoryStorage_methods r) u s = Inr ks"
  then have "ks = filter (\<lambda>k. APIKey_UserID k = u) (map snd (range_items r 0 (MemoryStorage_keys s)))"
    by (simp add: MemoryStorage_methods_def memory_FindByUserID_def)
  then show "set ks = {k. memory_lookup s (APIKey_ID k) = Some k \<and> APIKey_UserID k = u}"
    using memory_lookup_values [OF a(1,2)] by auto
next
  fix r :: "string ranger" and s k e s'
  assume "memory_inv s" "storage_Save (MemoryStorage_methods r) k s = (e, s')"
  then show "memory_inv s' \<and> memory_lookup s' = (if e = None then (memory_lookup s)(APIKey_ID k \<mapsto> k) else memory_lookup s)"
    using memory_inv_set [of s k "APIKey_ID k"]
    by (auto simp: MemoryStorage_methods_def memory_Save_def memory_lookup_def gm.get_put fun_eq_iff)
next
  fix r :: "string ranger" and s kid e s'
  assume a: "memory_inv s" "storage_Revoke (MemoryStorage_methods r) kid s = (e, s')"
  have "APIKey_ID k = kid" if "gm_get (MemoryStorage_keys s) kid = Some k" for k
    using a(1) that gm_get_mem [of "MemoryStorage_keys s" kid k] by (auto simp: memory_inv_def)
  then have "memory_inv (s\<lparr>MemoryStorage_keys := gm_set kid (k\<lparr>APIKey_Revoked := True\<rparr>) (MemoryStorage_keys s)\<rparr>)"
    if "gm_get (MemoryStorage_keys s) kid = Some k" for k
    using that a(1) by (intro memory_inv_set) simp_all
  with a show "memory_inv s' \<and> (e = None \<longleftrightarrow> memory_lookup s kid \<noteq> None) \<and>
      memory_lookup s' = (memory_lookup s)(kid := map_option (\<lambda>k. k\<lparr>APIKey_Revoked := True\<rparr>) (memory_lookup s kid))"
    by (auto simp: MemoryStorage_methods_def memory_Revoke_def memory_lookup_def gm.get_put fun_eq_iff split: option.splits)
next
  fix r :: "string ranger" and s kid e s'
  assume "memory_inv s" "storage_Delete (MemoryStorage_methods r) kid s = (e, s')"
  then show "memory_inv s' \<and> memory_lookup s' = (if e = None then (memory_lookup s)(kid := None) else memory_lookup s)"
    using set_gm_del [of kid "MemoryStorage_keys s"]
    by (auto simp: MemoryStorage_methods_def memory_Delete_def memory_lookup_def memory_inv_def gm.get_del gm.inv_del fun_eq_iff)
qed

section \<open>Rate limit\<close>

lemma sorted_le_last: "sorted xs \<Longrightarrow> x \<in> set xs \<Longrightarrow> x \<le> last xs"
  by (induction xs) auto

lemma passed_in_window:
  assumes "gm_get (KeyManager_rateLimits m) key = Some e" and "\<forall>t\<in>set ts. Entry_windowStart e \<le> t \<and> t - Entry_windowStart e \<le> w"
    and "KeyManager_rateLimitWindow m = w" and "w < 2 ^ 63" and "0 \<le> Entry_count e" and "Entry_count e + int (length ts) < 2 ^ 63"
  shows "int (requests_passed key ts m) \<le> max 0 (KeyManager_rateLimitRate m - Entry_count e)"
  using assms
proof (induction ts arbitrary: m e)
  case (Cons t ts)
  let ?e = "e\<lparr>Entry_count := Entry_count e + 1\<rparr>"
  let ?m = "m\<lparr>KeyManager_rateLimits := gm_set key ?e (KeyManager_rateLimits m)\<rparr>"
  have "time_Sub t (Entry_windowStart e) = t - Entry_windowStart e" using Cons.prems by (simp add: time_Sub_def)
  moreover have "i64 (Entry_count e + 1) = Entry_count e + 1" using Cons.prems by (intro i64_id) (simp add: i64_range_def)
  ultimately have "CheckRateLimit t key m = (if KeyManager_rateLimitRate m < Entry_count e + 1 then Some ErrRateLimitExceeded else None, ?m)"
    using Cons.prems by (simp add: CheckRateLimit_def Let_def)
  moreover have "int (requests_passed key ts ?m) \<le> max 0 (KeyManager_rateLimitRate ?m - Entry_count ?e)"
    using Cons.prems by (intro Cons.IH) (simp_all add: gm.get_put)
  ultimately show ?case by (simp add: max_def split: if_splits)
qed simp

lemma passed_in_span:
  assumes "\<forall>e. gm_get (KeyManager_rateLimits m) key = Some e \<longrightarrow> 0 \<le> Entry_count e \<and> Entry_count e + int (length ts) < 2 ^ 63"
    and "sorted ts" and "ts \<noteq> [] \<Longrightarrow> last ts - hd ts \<le> w" and "KeyManager_rateLimitWindow m = w" and "0 \<le> w" "w < 2 ^ 63"
    and "int (length ts) < 2 ^ 62"
  shows "int (requests_passed key ts m) \<le>
    (case gm_get (KeyManager_rateLimits m) key of None \<Rightarrow> 0 | Some e \<Rightarrow> max 0 (KeyManager_rateLimitRate m - Entry_count e)) +
    max 1 (KeyManager_rateLimitRate m)"
  using assms
proof (induction ts arbitrary: m)
  case (Cons t ts)
  have le: "\<forall>u\<in>set ts. t \<le> u \<and> u - t \<le> w"
  proof
    fix u
    assume u: "u \<in> set ts"
    then have "u \<le> last ts" using Cons.prems(2) by (simp add: sorted_le_last)
    with u Cons.prems(2,3) show "t \<le> u \<and> u - t \<le> w" by (cases ts) auto
  qed
  have span: "last ts - hd ts \<le> w" if "ts \<noteq> []"
    using bspec [OF le last_in_set [OF that]] bspec [OF le hd_in_set [OF that]] by linarith
  let ?e = "\<lparr>Entry_count = 1, Entry_windowStart = t\<rparr>"
  let ?m = "m\<lparr>KeyManager_rateLimits := gm_set key ?e (KeyManager_rateLimits m)\<rparr>"
  have fresh: "int (requests_passed key ts ?m) \<le> max 0 (KeyManager_rateLimitRate m - 1)"
    using passed_in_window [of ?m key ?e ts w] le Cons.prems(4,6,7) by (simp add: gm.get_put)
  show ?case
  proof (cases "CheckRateLimit t key m = (None, ?m)")
    case True
    then show ?thesis using fresh by (auto split: option.splits)
  next
    case False
    then obtain e where e: "gm_get (KeyManager_rateLimits m) key = Some e" "\<not> w < time_Sub t (Entry_windowStart e)"
      using Cons.prems(4) by (auto simp: CheckRateLimit_def Let_def split: option.splits if_splits)
    let ?e' = "e\<lparr>Entry_count := Entry_count e + 1\<rparr>"
    let ?m' = "m\<lparr>KeyManager_rateLimits := gm_set key ?e' (KeyManager_rateLimits m)\<rparr>"
    have "i64 (Entry_count e + 1) = Entry_count e + 1" using Cons.prems(1) e(1) by (intro i64_id) (auto simp: i64_range_def)
    then have "CheckRateLimit t key m = (if KeyManager_rateLimitRate m < Entry_count e + 1 then Some ErrRateLimitExceeded else None, ?m')"
      using e Cons.prems(4) by (simp add: CheckRateLimit_def Let_def)
    moreover have "int (requests_passed key ts ?m') \<le> max 0 (KeyManager_rateLimitRate m - Entry_count ?e') + max 1 (KeyManager_rateLimitRate m)"
      using Cons.IH [OF _ _ span, of ?m'] Cons.prems e(1) by (simp add: gm.get_put)
    ultimately show ?thesis using e(1) by (simp add: max_def split: if_splits)
  qed
qed (simp split: option.splits)

section \<open>Properties\<close>

lemma GenerateKey_saves:
  assumes "GenerateKey I gen rand rand_id now userID name permissions expiresAt m = (Inr (fullKey, key), m1)"
  shows "storage_Save I key (KeyManager_storage m) = (None, KeyManager_storage m1)"
    and "fullKey = APIKeyPrefix @ generateRandomKey APIKeyLength rand"
    and "gen (generateRandomKey APIKeyLength rand) BcryptCost = Inr (APIKey_KeyHash key)"
  using assms by (auto simp: GenerateKey_def hashKey_def Let_def split: sum.splits prod.splits option.splits)

lemma memory_inv_one: "memory_inv (KeyManager_storage one_manager)"
  by code_simp

text \<open>
  (C28) A revoked key is never accepted again: whatever operations follow, as long as no new key gets its identifier, a validation does
  not return it.
\<close>

theorem revoked_key_rejected:
  assumes "memory_inv (KeyManager_storage m)" and "ranger_ok rng" "ranger_ok rng'"
    and "(key_step MemoryStorage_methods ranger_ok kid)\<^sup>*\<^sup>* (snd (RevokeKey (MemoryStorage_methods rng) kid m)) m1"
  shows "fst (ValidateKey (MemoryStorage_methods rng') cmp t t' fullKey m1) = Return k \<Longrightarrow> APIKey_ID k \<noteq> kid"
proof -
  assume v: "fst (ValidateKey (MemoryStorage_methods rng') cmp t t' fullKey m1) = Return k"
  have "memory_inv (KeyManager_storage m1) \<and> unusable memory_lookup kid m1"
    using mem.key_steps_keep [OF assms(4)] mem.revoked_unusable [OF assms(2,1) prod.collapse [symmetric]] by blast
  with v show ?thesis
    using mem.unusable_not_validated [OF assms(3), of m1 kid cmp t t' fullKey k] by (metis prod.collapse)
qed

theorem revoked_key_rejected_witness:
  "fst (ValidateKey (MemoryStorage_methods (\<lambda>i ks. ks)) toy_cmp 5 5 ''nxp_01234567secret'' one_manager) = Return (one_key\<lparr>APIKey_LastUsedAt := 5\<rparr>) \<and>
    fst (ValidateKey (MemoryStorage_methods (\<lambda>i ks. ks)) toy_cmp 5 5 ''nxp_01234567secret''
      (snd (RevokeKey (MemoryStorage_methods (\<lambda>i ks. ks)) ''k1'' one_manager))) \<noteq> Return (one_key\<lparr>APIKey_LastUsedAt := 5\<rparr>)"
proof -
  have "fst (ValidateKey (MemoryStorage_methods (\<lambda>i ks. ks)) toy_cmp 5 5 ''nxp_01234567secret'' one_manager) = Return (one_key\<lparr>APIKey_LastUsedAt := 5\<rparr>)"
    by code_simp
  moreover have "APIKey_ID (one_key\<lparr>APIKey_LastUsedAt := 5\<rparr>) = ''k1''" by (simp add: one_key_def)
  ultimately show ?thesis using revoked_key_rejected [OF memory_inv_one ranger_ok_id ranger_ok_id rtranclp.rtrancl_refl] by metis
qed

text \<open>
  (C29) A validation accepts exactly the keys it should when no two stored keys share a prefix: some stored key has the prefix, is neither
  revoked nor expired, and its hash accepts the key or the part after the prefix. The order of the storage does not matter then.
\<close>

theorem ValidateKey_accepts:
  assumes "ranger_ok rng" and "memory_inv (KeyManager_storage m)" and "HasPrefix fullKey APIKeyPrefix" and "12 \<le> length fullKey"
    and unique: "\<And>i j a b. memory_lookup (KeyManager_storage m) i = Some a \<Longrightarrow> memory_lookup (KeyManager_storage m) j = Some b \<Longrightarrow>
      APIKey_KeyPrefix a = APIKey_KeyPrefix b \<Longrightarrow> a = b"
  shows "fst (ValidateKey (MemoryStorage_methods rng) cmp t t' fullKey m) = Return k' \<longleftrightarrow>
    (\<exists>k. memory_lookup (KeyManager_storage m) (APIKey_ID k) = Some k \<and> APIKey_KeyPrefix k = take 12 fullKey \<and> \<not> APIKey_Revoked k \<and>
      (APIKey_ExpiresAt k = 0 \<or> t \<le> APIKey_ExpiresAt k) \<and>
      (cmp (APIKey_KeyHash k) fullKey \<or> cmp (APIKey_KeyHash k) (drop 12 fullKey)) \<and> k' = k\<lparr>APIKey_LastUsedAt := t'\<rparr>)"
proof
  assume "fst (ValidateKey (MemoryStorage_methods rng) cmp t t' fullKey m) = Return k'"
  then show "\<exists>k. memory_lookup (KeyManager_storage m) (APIKey_ID k) = Some k \<and> APIKey_KeyPrefix k = take 12 fullKey \<and> \<not> APIKey_Revoked k \<and>
      (APIKey_ExpiresAt k = 0 \<or> t \<le> APIKey_ExpiresAt k) \<and>
      (cmp (APIKey_KeyHash k) fullKey \<or> cmp (APIKey_KeyHash k) (drop 12 fullKey)) \<and> k' = k\<lparr>APIKey_LastUsedAt := t'\<rparr>"
    using mem.validated_key [OF assms(1,2), of cmp t t' fullKey k'] by (metis prod.collapse)
next
  assume "\<exists>k. memory_lookup (KeyManager_storage m) (APIKey_ID k) = Some k \<and> APIKey_KeyPrefix k = take 12 fullKey \<and> \<not> APIKey_Revoked k \<and>
      (APIKey_ExpiresAt k = 0 \<or> t \<le> APIKey_ExpiresAt k) \<and>
      (cmp (APIKey_KeyHash k) fullKey \<or> cmp (APIKey_KeyHash k) (drop 12 fullKey)) \<and> k' = k\<lparr>APIKey_LastUsedAt := t'\<rparr>"
  then obtain k where k: "memory_lookup (KeyManager_storage m) (APIKey_ID k) = Some k" "APIKey_KeyPrefix k = take 12 fullKey"
    "\<not> APIKey_Revoked k" "APIKey_ExpiresAt k = 0 \<or> t \<le> APIKey_ExpiresAt k"
    "cmp (APIKey_KeyHash k) fullKey \<or> cmp (APIKey_KeyHash k) (drop 12 fullKey)" "k' = k\<lparr>APIKey_LastUsedAt := t'\<rparr>" by blast
  have "storage_FindByPrefix (MemoryStorage_methods rng) (take 12 fullKey) (KeyManager_storage m) = Inr k"
  proof (cases "storage_FindByPrefix (MemoryStorage_methods rng) (take 12 fullKey) (KeyManager_storage m)")
    case (Inl e)
    then show ?thesis using mem.find_no_prefix [OF assms(1,2) Inl k(1)] k(2) by simp
  next
    case (Inr a)
    then have a: "APIKey_KeyPrefix a = APIKey_KeyPrefix k" "memory_lookup (KeyManager_storage m) (APIKey_ID a) = Some a"
      using mem.find_prefix [OF assms(1,2) Inr] k(2) by simp_all
    show ?thesis using unique [OF a(2) k(1) a(1)] Inr by simp
  qed
  with k(3-6) assms(3,4) show "fst (ValidateKey (MemoryStorage_methods rng) cmp t t' fullKey m) = Return k'"
    by (auto simp: ValidateKey_def APIKeyPrefix_def Let_def verifyKey_def time_IsZero_def min_absorb2)
qed

theorem ValidateKey_accepts_witness:
  "fst (ValidateKey (MemoryStorage_methods (\<lambda>i ks. rev ks)) toy_cmp 5 6 ''nxp_01234567secret'' one_manager) = Return (one_key\<lparr>APIKey_LastUsedAt := 6\<rparr>)"
proof -
  have l: "memory_lookup (KeyManager_storage one_manager) = [''k1'' \<mapsto> one_key]"
    by (rule ext) (simp add: memory_lookup_def one_manager_def NewAPIKeyManager_def WithRateLimit_def memory_Save_def NewMemoryStorage_def
        gm.get_put gm.get_empty one_key_def)
  have "ranger_ok (\<lambda>i ks. rev ks :: string list)" by (simp add: ranger_ok_def)
  moreover have "HasPrefix ''nxp_01234567secret'' APIKeyPrefix" by (simp add: HasPrefix_def APIKeyPrefix_def)
  moreover have "12 \<le> length ''nxp_01234567secret''" by simp
  moreover have "a = b" if "memory_lookup (KeyManager_storage one_manager) i = Some a" "memory_lookup (KeyManager_storage one_manager) j = Some b"
      "APIKey_KeyPrefix a = APIKey_KeyPrefix b" for i j a b
    using that(1,2) unfolding l by (metis fun_upd_apply option.distinct(1) option.inject)
  ultimately have "fst (ValidateKey (MemoryStorage_methods (\<lambda>i ks. rev ks)) toy_cmp 5 6 ''nxp_01234567secret'' one_manager) = Return k' \<longleftrightarrow>
    (\<exists>k. memory_lookup (KeyManager_storage one_manager) (APIKey_ID k) = Some k \<and> APIKey_KeyPrefix k = take 12 ''nxp_01234567secret'' \<and>
      \<not> APIKey_Revoked k \<and> (APIKey_ExpiresAt k = 0 \<or> 5 \<le> APIKey_ExpiresAt k) \<and>
      (toy_cmp (APIKey_KeyHash k) ''nxp_01234567secret'' \<or> toy_cmp (APIKey_KeyHash k) (drop 12 ''nxp_01234567secret'')) \<and>
      k' = k\<lparr>APIKey_LastUsedAt := 6\<rparr>)" for k'
    by (rule ValidateKey_accepts [OF _ memory_inv_one])
  then show ?thesis by (simp only:) (rule exI [of _ one_key], simp add: l one_key_def toy_cmp_def)
qed

text \<open>
  (C30) No key can be issued: a fresh key has 96 characters, and \<^verbatim>\<open>GenerateFromPassword\<close> is documented not to accept more
  than 72 bytes, so \<^verbatim>\<open>GenerateKey\<close> fails for every user, storage and choice of random bytes, and changes nothing.
\<close>

theorem GenerateKey_fails:
  assumes bcrypt_limit: "\<And>pw cost. 72 < length pw \<Longrightarrow> \<exists>e. gen pw cost = Inl e"
  shows "\<exists>e. GenerateKey I gen rand rand_id now userID name permissions expiresAt m = (Inl (HashFailed e), m)"
  using bcrypt_limit [of "generateRandomKey APIKeyLength rand" BcryptCost]
  by (auto simp: GenerateKey_def hashKey_def generateRandomKey_def APIKeyLength_def Let_def)

theorem GenerateKey_fails_witness:
  "\<exists>e. GenerateKey (MemoryStorage_methods (\<lambda>i ks. ks)) toy_gen (\<lambda>i. 7) (\<lambda>i. 9) 5 ''u'' ''ci'' [] 0 one_manager = (Inl (HashFailed e), one_manager)"
  by (rule GenerateKey_fails) (simp add: toy_gen_def)

text \<open>
  The key that is handed out would not work either: if a hash accepts no string but the one it was made from, a validation of the key
  that \<^verbatim>\<open>GenerateKey\<close> returned does not find it, since the hash is that of the key without the prefix \<^verbatim>\<open>nxp_\<close>
  and neither of the two strings the validation compares.
\<close>

theorem generated_key_rejected:
  assumes "memory_inv (KeyManager_storage m)" and "ranger_ok rng" "ranger_ok rng'"
    and bcrypt_exact: "\<And>pw pw' cost h. gen pw cost = Inr h \<Longrightarrow> cmp h pw' \<Longrightarrow> pw' = pw"
    and g: "GenerateKey (MemoryStorage_methods rng) gen rand rand_id now userID name permissions expiresAt m = (Inr (fullKey, key), m1)"
  shows "fst (ValidateKey (MemoryStorage_methods rng') cmp t t' fullKey m1) = Return k \<Longrightarrow> APIKey_ID k \<noteq> APIKey_ID key"
proof
  let ?raw = "generateRandomKey APIKeyLength rand"
  assume "fst (ValidateKey (MemoryStorage_methods rng') cmp t t' fullKey m1) = Return k" and same: "APIKey_ID k = APIKey_ID key"
  then have v: "ValidateKey (MemoryStorage_methods rng') cmp t t' fullKey m1 = (Return k, snd (ValidateKey (MemoryStorage_methods rng') cmp t t' fullKey m1))"
    by (simp add: prod_eq_iff)
  have len: "length ?raw = 96" by (simp add: generateRandomKey_def APIKeyLength_def)
  note s = GenerateKey_saves [OF g]
  have inv: "memory_inv (KeyManager_storage m1)" "memory_lookup (KeyManager_storage m1) (APIKey_ID key) = Some key"
    using mem.saved [OF assms(2,1) s(1)] by simp_all
  obtain k0 where k0: "memory_lookup (KeyManager_storage m1) (APIKey_ID k0) = Some k0" "k = k0\<lparr>APIKey_LastUsedAt := t'\<rparr>"
    "cmp (APIKey_KeyHash k0) fullKey \<or> cmp (APIKey_KeyHash k0) (drop 12 fullKey)"
    by (rule mem.validated_key [OF assms(3) inv(1) v])
  have "APIKey_ID k0 = APIKey_ID key" using same unfolding k0(2) by simp
  then have "k0 = key" using k0(1) inv(2) by (metis option.inject)
  with k0(3) bcrypt_exact [OF s(3)] have "fullKey = ?raw \<or> drop 12 fullKey = ?raw" by blast
  then have "length fullKey = 96 \<or> length fullKey - 12 = 96" using len by (metis length_drop)
  then show False using len s(2) by (simp add: APIKeyPrefix_def)
qed

theorem generated_key_rejected_witness:
  "\<exists>fullKey key m1. GenerateKey (MemoryStorage_methods (\<lambda>i ks. ks)) (\<lambda>pw cost. Inr (CHR ''$'' # pw)) (\<lambda>i. 7) (\<lambda>i. 9) 5 ''u'' ''ci'' [] 0 one_manager
      = (Inr (fullKey, key), m1) \<and>
    fst (ValidateKey (MemoryStorage_methods (\<lambda>i ks. ks)) toy_cmp 5 5 fullKey m1) \<noteq> Return (key\<lparr>APIKey_LastUsedAt := 5\<rparr>)"
proof -
  let ?g = "GenerateKey (MemoryStorage_methods (\<lambda>i ks. ks)) (\<lambda>pw cost. Inr (CHR ''$'' # pw)) (\<lambda>i. 7) (\<lambda>i. 9) 5 ''u'' ''ci'' [] 0 one_manager"
  obtain fullKey key m1 where g: "?g = (Inr (fullKey, key), m1)"
    by (simp add: GenerateKey_def hashKey_def MemoryStorage_methods_def memory_Save_def Let_def)
  have "APIKey_ID k \<noteq> APIKey_ID key" if "fst (ValidateKey (MemoryStorage_methods (\<lambda>i ks. ks)) toy_cmp 5 5 fullKey m1) = Return k" for k
    using generated_key_rejected [OF memory_inv_one ranger_ok_id ranger_ok_id _ g that] by (simp add: toy_cmp_def)
  from this [of "key\<lparr>APIKey_LastUsedAt := 5\<rparr>"] g show ?thesis by auto
qed

text \<open>
  The limit per key: within any span of the length of a window at most twice the configured rate of requests passes, and never more
  than two when the rate is not positive.
\<close>

theorem CheckRateLimit_bound:
  assumes "\<forall>e. gm_get (KeyManager_rateLimits m) key = Some e \<longrightarrow> 1 \<le> Entry_count e \<and> Entry_count e < 2 ^ 62"
    and "sorted (t # ts)" and "last (t # ts) - t \<le> KeyManager_rateLimitWindow m" and "KeyManager_rateLimitWindow m < 2 ^ 63"
    and "int (length (t # ts)) < 2 ^ 62"
  shows "int (requests_passed key (t # ts) m) \<le> 2 * max 1 (KeyManager_rateLimitRate m)"
proof -
  have "t \<le> last (t # ts)" using assms(2) sorted_le_last by (metis list.set_intros(1))
  then have w: "0 \<le> KeyManager_rateLimitWindow m" using assms(3) by linarith
  have e: "\<forall>e. gm_get (KeyManager_rateLimits m) key = Some e \<longrightarrow> 0 \<le> Entry_count e \<and> Entry_count e + int (length (t # ts)) < 2 ^ 63"
  proof (intro allI impI)
    fix e
    assume "gm_get (KeyManager_rateLimits m) key = Some e"
    then have "1 \<le> Entry_count e" "Entry_count e < 2 ^ 62" using assms(1) by blast+
    then show "0 \<le> Entry_count e \<and> Entry_count e + int (length (t # ts)) < 2 ^ 63" using assms(5) by simp
  qed
  have "int (requests_passed key (t # ts) m) \<le>
    (case gm_get (KeyManager_rateLimits m) key of None \<Rightarrow> 0 | Some e \<Rightarrow> max 0 (KeyManager_rateLimitRate m - Entry_count e)) +
    max 1 (KeyManager_rateLimitRate m)"
    using assms(3) by (intro passed_in_span [OF e assms(2) _ refl w assms(4,5)]) simp
  moreover have "(case gm_get (KeyManager_rateLimits m) key of None \<Rightarrow> 0 | Some e \<Rightarrow> max 0 (KeyManager_rateLimitRate m - Entry_count e))
      \<le> max 1 (KeyManager_rateLimitRate m)"
    using assms(1) by (auto split: option.splits)
  ultimately show ?thesis by linarith
qed

theorem CheckRateLimit_bound_witness:
  "requests_passed ''k'' [0, 59 * Second, 60 * Second, 61 * Second, 62 * Second, 63 * Second] one_manager = 4 \<and>
    int (requests_passed ''k'' [59 * Second, 60 * Second, 61 * Second, 62 * Second, 63 * Second]
      (snd (CheckRateLimit 0 ''k'' one_manager))) \<le> 2 * max 1 2"
proof -
  let ?m = "snd (CheckRateLimit 0 ''k'' one_manager)"
  have e: "gm_get (KeyManager_rateLimits ?m) ''k'' = Some \<lparr>Entry_count = 1, Entry_windowStart = 0\<rparr>" "KeyManager_rateLimitRate ?m = 2"
    "KeyManager_rateLimitWindow ?m = Minute" by code_simp+
  have "requests_passed ''k'' [0, 59 * Second, 60 * Second, 61 * Second, 62 * Second, 63 * Second] one_manager = 4" by code_simp
  then show ?thesis
    using CheckRateLimit_bound [of ?m "''k''" "59 * Second" "[60 * Second, 61 * Second, 62 * Second, 63 * Second]"]
    by (simp add: e time_units)
qed

end
