(* ===== verification/Worker_Processor.thy ===== *)
theory Worker_Processor
  imports Models Go_Http
begin

text \<open>
  The task processor of \<^verbatim>\<open>internal/worker/processor.go\<close>. What happens outside the program is a record of arguments: the
  HTTP client, the shell and the JSON package. Errors of these are strings, since the program classifies them by their text. An
  identifier stands for its rendering, and \<^const>\<open>None\<close> for the empty string.
\<close>

section \<open>Data\<close>

datatype ErrorType =
    ErrorTypeUnknown | ErrorTypeNetwork | ErrorTypeTimeout | ErrorTypeValidation | ErrorTypeAuth | ErrorTypeRateLimit
  | ErrorTypeResource | ErrorTypeInternal

definition ErrorType_String :: "ErrorType \<Rightarrow> string" where
  "ErrorType_String e =
     (case e of ErrorTypeNetwork \<Rightarrow> ''network'' | ErrorTypeTimeout \<Rightarrow> ''timeout'' | ErrorTypeValidation \<Rightarrow> ''validation''
      | ErrorTypeAuth \<Rightarrow> ''auth'' | ErrorTypeRateLimit \<Rightarrow> ''rate_limit'' | ErrorTypeResource \<Rightarrow> ''resource''
      | ErrorTypeInternal \<Rightarrow> ''internal'' | _ \<Rightarrow> ''unknown'')"

definition ErrorType_IsRetryable :: "ErrorType \<Rightarrow> bool" where
  "ErrorType_IsRetryable e =
     (case e of ErrorTypeNetwork \<Rightarrow> True | ErrorTypeTimeout \<Rightarrow> True | ErrorTypeRateLimit \<Rightarrow> True | ErrorTypeResource \<Rightarrow> True | _ \<Rightarrow> False)"

record TaskResult =
  TaskResult_TaskID :: "uuid option"
  TaskResult_Status :: TaskStatus
  TaskResult_Output :: string
  TaskResult_Error :: string
  TaskResult_ErrorType :: ErrorType
  TaskResult_Duration :: dur
  TaskResult_Retryable :: bool
  TaskResult_RetryCount :: int

record http_request =
  req_Method :: string
  req_URL :: string
  req_Headers :: "(string, string) gmap"
  req_Body :: "string option"

text \<open>
  \<^verbatim>\<open>env_Do\<close> answers with an error or with a status and what reading the body gives. \<^verbatim>\<open>env_Run\<close> answers with
  an error, if any, and the two outputs. The last two read and render the input of a transformation, and render the record of a query.
\<close>

record process_env =
  env_NewRequest :: "string \<Rightarrow> string \<Rightarrow> string option \<Rightarrow> string option"
  env_Do :: "http_request \<Rightarrow> string + int \<times> (string + string)"
  env_Run :: "string \<Rightarrow> string option \<times> string \<times> string"
  env_Unmarshal :: "string \<Rightarrow> string option"
  env_Marshal :: "string \<Rightarrow> string + string"
  env_MarshalQuery :: "string \<Rightarrow> string + string"

section \<open>Results\<close>

definition failed_result :: "string \<Rightarrow> ErrorType \<Rightarrow> bool \<Rightarrow> string \<Rightarrow> TaskResult" where
  "failed_result msg et retryable output =
     \<lparr>TaskResult_TaskID = None, TaskResult_Status = TaskStatusFailed, TaskResult_Output = output, TaskResult_Error = msg,
      TaskResult_ErrorType = et, TaskResult_Duration = 0, TaskResult_Retryable = retryable, TaskResult_RetryCount = 0\<rparr>"

definition completed_result :: "string \<Rightarrow> TaskResult" where
  "completed_result output =
     \<lparr>TaskResult_TaskID = None, TaskResult_Status = TaskStatusCompleted, TaskResult_Output = output, TaskResult_Error = [],
      TaskResult_ErrorType = ErrorTypeUnknown, TaskResult_Duration = 0, TaskResult_Retryable = False, TaskResult_RetryCount = 0\<rparr>"

text \<open>The classification of an error, given by its text.\<close>

definition classifyError :: "string option \<Rightarrow> ErrorType" where
  "classifyError err =
     (case err of
        None \<Rightarrow> ErrorTypeUnknown
      | Some e \<Rightarrow>
          let msg = ToLower e
          in if Contains msg ''timeout'' \<or> Contains msg ''deadline'' then ErrorTypeTimeout
             else if Contains msg ''connection'' \<or> Contains msg ''network'' then ErrorTypeNetwork
             else if Contains msg ''no rows'' \<or> Contains msg ''not found'' then ErrorTypeValidation
             else if Contains msg ''rate'' \<or> Contains msg ''too many'' then ErrorTypeRateLimit
             else if Contains msg ''auth'' \<or> Contains msg ''unauthorized'' then ErrorTypeAuth
             else if Contains msg ''resource'' \<or> Contains msg ''memory'' then ErrorTypeResource
             else ErrorTypeInternal)"

section \<open>The processors\<close>

definition http_status_result :: "int \<Rightarrow> string \<Rightarrow> TaskResult" where
  "http_status_result code body =
     (if 500 \<le> code then failed_result (''server error: '' @ show_int code @ '' '' @ body) ErrorTypeNetwork True body
      else if 400 \<le> code then
        (let (et, retryable) = (if code = 429 then (ErrorTypeRateLimit, True) else (ErrorTypeValidation, False))
         in failed_result (''client error: '' @ show_int code @ '' '' @ body) et retryable body)
      else completed_result body)"

definition processHTTP :: "process_env \<Rightarrow> string ranger \<Rightarrow> Task \<Rightarrow> TaskResult" where
  "processHTTP env rng task =
     (let cfg = Task_Config task;
          upper = ToUpper (TaskConfig_Method cfg);
          method = (if upper = [] then ''GET'' else upper);
          body = (if TaskConfig_Body cfg \<noteq> [] then Some (TaskConfig_Body cfg) else None)
      in case env_NewRequest env method (TaskConfig_URL cfg) body of
           Some err \<Rightarrow> failed_result (''create request: '' @ err) (classifyError (Some err)) True []
         | None \<Rightarrow>
             (let headers = fold (\<lambda>(k, v). Header_Set k v) (range_items rng 0 (TaskConfig_Headers cfg)) gm_empty;
                  req = \<lparr>req_Method = method, req_URL = TaskConfig_URL cfg, req_Headers = headers, req_Body = body\<rparr>
              in case env_Do env req of
                   Inl err \<Rightarrow> failed_result (''http request: '' @ err) (classifyError (Some err)) True []
                 | Inr (code, resp) \<Rightarrow>
                     (case resp of
                        Inl err \<Rightarrow> failed_result (''read response: '' @ err) ErrorTypeInternal False []
                      | Inr respBody \<Rightarrow> http_status_result code respBody)))"

definition processGRPC :: "Task \<Rightarrow> TaskResult" where
  "processGRPC task = failed_result ''gRPC task processing not yet implemented'' ErrorTypeInternal False []"

definition executeSQL :: "process_env \<Rightarrow> TaskConfig \<Rightarrow> string + string" where
  "executeSQL env cfg = env_MarshalQuery env (TaskConfig_SQL cfg)"

definition processSQL :: "process_env \<Rightarrow> Task \<Rightarrow> TaskResult" where
  "processSQL env task =
     (let cfg = Task_Config task
      in if TaskConfig_SQL cfg = [] then failed_result ''empty SQL query'' ErrorTypeValidation False []
         else case executeSQL env cfg of
                Inl err \<Rightarrow> (let et = classifyError (Some err) in failed_result (''sql execution: '' @ err) et (ErrorType_IsRetryable et) [])
              | Inr result \<Rightarrow> completed_result result)"

definition processScript :: "process_env \<Rightarrow> Task \<Rightarrow> TaskResult" where
  "processScript env task =
     (let cfg = Task_Config task
      in if TaskConfig_Script cfg = [] then failed_result ''empty script content'' ErrorTypeValidation False []
         else let (res, stdout, stderr) = env_Run env (TaskConfig_Script cfg)
              in case res of
                   Some err \<Rightarrow> (let errMsg = (if stderr = [] then err else stderr); et = classifyError (Some err)
                               in failed_result (''script execution: '' @ errMsg) et (ErrorType_IsRetryable et) [])
                 | None \<Rightarrow> completed_result stdout)"

definition processShell :: "process_env \<Rightarrow> Task \<Rightarrow> TaskResult" where
  "processShell env task =
     (let cfg = Task_Config task
      in if TaskConfig_Command cfg = [] then failed_result ''empty shell command'' ErrorTypeValidation False []
         else let (res, stdout, stderr) = env_Run env (TaskConfig_Command cfg)
              in case res of
                   Some err \<Rightarrow> failed_result (''shell command: '' @ stderr) (classifyError (Some err)) True []
                 | None \<Rightarrow> completed_result stdout)"

definition processWebhook :: "process_env \<Rightarrow> string ranger \<Rightarrow> Task \<Rightarrow> TaskResult" where
  "processWebhook env rng task = processHTTP env rng task"

definition processTransform :: "process_env \<Rightarrow> Task \<Rightarrow> TaskResult" where
  "processTransform env task =
     (let inp = Task_Input task
      in if inp = [] then completed_result []
         else case env_Unmarshal env inp of
                Some err \<Rightarrow> failed_result (''unmarshal input: '' @ err) ErrorTypeValidation False []
              | None \<Rightarrow>
                  (case env_Marshal env inp of
                     Inl err \<Rightarrow> failed_result (''marshal output: '' @ err) ErrorTypeInternal False []
                   | Inr output \<Rightarrow> completed_result output))"

definition task_type_string :: "TaskType \<Rightarrow> string" where
  "task_type_string t =
     (case t of TaskTypeHTTP \<Rightarrow> ''http'' | TaskTypeGRPC \<Rightarrow> ''grpc'' | TaskTypeScript \<Rightarrow> ''script'' | TaskTypeSQL \<Rightarrow> ''sql''
      | TaskTypeShell \<Rightarrow> ''shell'' | TaskTypeWebhook \<Rightarrow> ''webhook'' | TaskTypeTransform \<Rightarrow> ''transform''
      | TaskTypeNotification \<Rightarrow> ''notification'' | TaskTypeCustom \<Rightarrow> ''custom'' | TaskTypeOther s \<Rightarrow> s)"

definition ProcessTask :: "process_env \<Rightarrow> string ranger \<Rightarrow> gotime \<Rightarrow> gotime \<Rightarrow> Task \<Rightarrow> TaskResult" where
  "ProcessTask env rng start now task =
     (let result =
        (case Task_Type task of
           TaskTypeHTTP \<Rightarrow> processHTTP env rng task
         | TaskTypeGRPC \<Rightarrow> processGRPC task
         | TaskTypeSQL \<Rightarrow> processSQL env task
         | TaskTypeScript \<Rightarrow> processScript env task
         | TaskTypeShell \<Rightarrow> processShell env task
         | TaskTypeWebhook \<Rightarrow> processWebhook env rng task
         | TaskTypeTransform \<Rightarrow> processTransform env task
         | t \<Rightarrow> failed_result (''unsupported task type: '' @ task_type_string t) ErrorTypeValidation False [])
      in result\<lparr>TaskResult_Duration := time_Sub now start, TaskResult_TaskID := Some (Task_ID task)\<rparr>)"

section \<open>Properties\<close>

text \<open>A result is consistent: completed exactly without an error text, and only a failed result may be tried again.\<close>

definition result_ok :: "TaskResult \<Rightarrow> bool" where
  "result_ok r \<longleftrightarrow>
     (TaskResult_Status r = TaskStatusCompleted \<and> TaskResult_Error r = [] \<and> \<not> TaskResult_Retryable r \<and> TaskResult_ErrorType r = ErrorTypeUnknown \<or>
      TaskResult_Status r = TaskStatusFailed \<and> TaskResult_Error r \<noteq> [] \<and> TaskResult_ErrorType r \<noteq> ErrorTypeUnknown)"

lemma classifyError_known [simp]: "classifyError (Some e) \<noteq> ErrorTypeUnknown"
  by (simp add: classifyError_def Let_def)

lemma failed_result_ok: "msg \<noteq> [] \<Longrightarrow> et \<noteq> ErrorTypeUnknown \<Longrightarrow> result_ok (failed_result msg et b out)"
  by (simp add: result_ok_def failed_result_def)

lemma completed_result_ok: "result_ok (completed_result out)"
  by (simp add: result_ok_def completed_result_def)

lemmas result_oks [simp] = failed_result_ok completed_result_ok

lemma http_status_result_ok: "result_ok (http_status_result code body)"
  by (simp add: http_status_result_def)

lemma processHTTP_ok: "result_ok (processHTTP env rng task)"
  by (simp add: processHTTP_def Let_def http_status_result_ok split: option.split sum.split)

lemma process_oks:
  "result_ok (processSQL env task)" "result_ok (processScript env task)" "result_ok (processShell env task)"
  "result_ok (processTransform env task)" "result_ok (processGRPC task)"
  by (auto simp: processSQL_def processScript_def processShell_def processTransform_def processGRPC_def Let_def
      split: option.splits sum.splits prod.splits)

lemma ProcessTask_ok: "result_ok (ProcessTask env rng start now task)"
proof -
  have "result_ok (r\<lparr>TaskResult_Duration := d, TaskResult_TaskID := i\<rparr>) = result_ok r" for r d i by (simp add: result_ok_def)
  then show ?thesis
    by (auto simp: ProcessTask_def Let_def processWebhook_def processHTTP_ok process_oks split: TaskType.splits)
qed

text \<open>
  Whatever the task and the world outside, the processor returns a result for this task, which is either completed without an error or
  failed with an error text and a known class of error; a completed result is never marked as worth a retry.
\<close>

theorem ProcessTask_result:
  "result_ok (ProcessTask env rng start now task) \<and> TaskResult_TaskID (ProcessTask env rng start now task) = Some (Task_ID task)"
  using ProcessTask_ok by (simp add: ProcessTask_def Let_def)

text \<open>
  An HTTP task fails for good on every status from 400 to 499 but 429, is tried again on 429 and from 500 on, and completes below 400.
\<close>

lemma http_status_retry:
  "TaskResult_Retryable (http_status_result code body) \<longleftrightarrow> code = 429 \<or> 500 \<le> code"
  "TaskResult_Status (http_status_result code body) = TaskStatusCompleted \<longleftrightarrow> code < 400"
  by (auto simp: http_status_result_def failed_result_def completed_result_def)

text \<open>
  The text decides: a request that cannot be created is tried again however hopeless, and a message that mentions a generated value counts
  as a rate limit.
\<close>

lemma hopeless_request_retried:
  assumes "Task_Type task = TaskTypeHTTP" and "\<And>m u b. env_NewRequest env m u b = Some err"
  shows "TaskResult_Retryable (ProcessTask env rng start now task)"
  using assms by (simp add: ProcessTask_def processHTTP_def failed_result_def Let_def)

lemma classify_generated: "classifyError (Some ''cannot generate file'') = ErrorTypeRateLimit"
  by code_simp

end
