(* ===== verification/Worker_Registry.thy ===== *)
theory Worker_Registry
  imports Worker_Processor
begin

text \<open>
  The registry of task handlers of \<^verbatim>\<open>internal/worker/registry.go\<close>. A handler function and a validator are functions of the
  task; a nil function or pointer is \<^const>\<open>None\<close>. Registration writes to the handler the caller passes, so it returns the
  handler as well.
\<close>

section \<open>Data\<close>

datatype registry_error =
    NilHandler | TaskTypeRequired | HandlerFunctionRequired TaskType | InvalidTaskType TaskType | HandlerExists TaskType
  | NoHandler TaskType | ValidateTask uuid registry_error | ValidationFailed uuid TaskType string | HandlerFailed string

record RegisteredHandler =
  RegHandler_Name :: string
  RegHandler_Handler :: "(Task \<Rightarrow> string + TaskResult) option"
  RegHandler_Description :: string
  RegHandler_TaskType :: TaskType
  RegHandler_Version :: string
  RegHandler_Validators :: "(Task \<Rightarrow> string option) list"

record HandlerRegistry =
  Registry_handlers :: "(TaskType, RegisteredHandler) gmap"

section \<open>Operations\<close>

definition Register ::
  "RegisteredHandler option \<Rightarrow> HandlerRegistry \<Rightarrow> registry_error option \<times> RegisteredHandler option \<times> HandlerRegistry" where
  "Register handler r =
     (case handler of
        None \<Rightarrow> (Some NilHandler, None, r)
      | Some h \<Rightarrow>
          if RegHandler_TaskType h = TaskTypeOther [] then (Some TaskTypeRequired, Some h, r)
          else if RegHandler_Handler h = None then (Some (HandlerFunctionRequired (RegHandler_TaskType h)), Some h, r)
          else let h1 = (if RegHandler_Name h = [] then h\<lparr>RegHandler_Name := task_type_string (RegHandler_TaskType h)\<rparr> else h)
               in if \<not> TaskType_IsValid (RegHandler_TaskType h1) then (Some (InvalidTaskType (RegHandler_TaskType h1)), Some h1, r)
                  else if gm_has (Registry_handlers r) (RegHandler_TaskType h1) then (Some (HandlerExists (RegHandler_TaskType h1)), Some h1, r)
                  else (None, Some h1, r\<lparr>Registry_handlers := gm_set (RegHandler_TaskType h1) h1 (Registry_handlers r)\<rparr>))"

definition RegisterWithValidation ::
  "RegisteredHandler option \<Rightarrow> (Task \<Rightarrow> string option) list \<Rightarrow> HandlerRegistry \<Rightarrow>
   (unit, registry_error option \<times> RegisteredHandler option \<times> HandlerRegistry) outcome" where
  "RegisterWithValidation handler validators r =
     (case handler of
        None \<Rightarrow> Panic
      | Some h \<Rightarrow> Return (Register (Some (h\<lparr>RegHandler_Validators := RegHandler_Validators h @ validators\<rparr>)) r))"

definition registry_Get :: "HandlerRegistry \<Rightarrow> TaskType \<Rightarrow> registry_error + RegisteredHandler" where
  "registry_Get r t = (case gm_get (Registry_handlers r) t of None \<Rightarrow> Inl (NoHandler t) | Some h \<Rightarrow> Inr h)"

definition MustGet :: "HandlerRegistry \<Rightarrow> TaskType \<Rightarrow> (unit, RegisteredHandler) outcome" where
  "MustGet r t = (case registry_Get r t of Inl e \<Rightarrow> Panic | Inr h \<Rightarrow> Return h)"

definition registry_Has :: "HandlerRegistry \<Rightarrow> TaskType \<Rightarrow> bool" where
  "registry_Has r t = gm_has (Registry_handlers r) t"

definition registry_List :: "TaskType ranger \<Rightarrow> HandlerRegistry \<Rightarrow> RegisteredHandler list" where
  "registry_List rng r = map snd (range_items rng 0 (Registry_handlers r))"

definition registry_Types :: "TaskType ranger \<Rightarrow> HandlerRegistry \<Rightarrow> TaskType list" where
  "registry_Types rng r = range_over rng 0 (Registry_handlers r)"

definition Unregister :: "TaskType \<Rightarrow> HandlerRegistry \<Rightarrow> registry_error option \<times> HandlerRegistry" where
  "Unregister t r =
     (if \<not> gm_has (Registry_handlers r) t then (Some (NoHandler t), r)
      else (None, r\<lparr>Registry_handlers := gm_del t (Registry_handlers r)\<rparr>))"

fun run_validators :: "(Task \<Rightarrow> string option) list \<Rightarrow> Task \<Rightarrow> string option" where
  "run_validators [] task = None"
| "run_validators (v # vs) task = (case v task of Some e \<Rightarrow> Some e | None \<Rightarrow> run_validators vs task)"

definition registry_Validate :: "HandlerRegistry \<Rightarrow> Task \<Rightarrow> registry_error option" where
  "registry_Validate r task =
     (case registry_Get r (Task_Type task) of
        Inl e \<Rightarrow> Some (ValidateTask (Task_ID task) e)
      | Inr h \<Rightarrow> (case run_validators (RegHandler_Validators h) task of
                    Some e \<Rightarrow> Some (ValidationFailed (Task_ID task) (Task_Type task) e)
                  | None \<Rightarrow> None))"

text \<open>Calling a nil function panics.\<close>

definition registry_Execute :: "HandlerRegistry \<Rightarrow> Task \<Rightarrow> (registry_error, TaskResult) outcome" where
  "registry_Execute r task =
     (case registry_Get r (Task_Type task) of
        Inl e \<Rightarrow> Error e
      | Inr h \<Rightarrow>
          (case registry_Validate r task of
             Some e \<Rightarrow> Error e
           | None \<Rightarrow>
               (case RegHandler_Handler h of
                  None \<Rightarrow> Panic
                | Some f \<Rightarrow> (case f task of Inl e \<Rightarrow> Error (HandlerFailed e) | Inr res \<Rightarrow> Return res))))"

section \<open>Builtin handlers\<close>

definition required :: "(TaskConfig \<Rightarrow> string) \<Rightarrow> string \<Rightarrow> Task \<Rightarrow> string option" where
  "required field msg task = (if field (Task_Config task) = [] then Some msg else None)"

definition http_method_validator :: "Task \<Rightarrow> string option" where
  "http_method_validator task =
     (let m = TaskConfig_Method (Task_Config task)
      in if m \<noteq> [] \<and> m \<noteq> ''GET'' \<and> m \<noteq> ''POST'' \<and> m \<noteq> ''PUT'' \<and> m \<noteq> ''DELETE'' \<and> m \<noteq> ''PATCH'' \<and> m \<noteq> ''HEAD'' \<and> m \<noteq> ''OPTIONS''
         then Some (''invalid HTTP method: '' @ m) else None)"

definition grpc_validator :: "Task \<Rightarrow> string option" where
  "grpc_validator task =
     (if TaskConfig_ServiceName (Task_Config task) = [] then Some ''gRPC task requires a service name''
      else if TaskConfig_Endpoint (Task_Config task) = [] then Some ''gRPC task requires an endpoint''
      else None)"

definition unused_handler :: "string \<Rightarrow> Task \<Rightarrow> string + TaskResult" where
  "unused_handler kind task = Inl (kind @ '' handler: use DefaultProcessor for execution'')"

definition notification_handler :: "Task \<Rightarrow> string + TaskResult" where
  "notification_handler task = Inr ((completed_result [])\<lparr>TaskResult_TaskID := Some (Task_ID task)\<rparr>)"

definition builtin ::
  "TaskType \<Rightarrow> string \<Rightarrow> (Task \<Rightarrow> string + TaskResult) \<Rightarrow> (Task \<Rightarrow> string option) list \<Rightarrow> RegisteredHandler" where
  "builtin t description f vs =
     \<lparr>RegHandler_Name = task_type_string t @ ''_handler'', RegHandler_Handler = Some f, RegHandler_Description = description,
      RegHandler_TaskType = t, RegHandler_Version = ''1.0.0'', RegHandler_Validators = vs\<rparr>"

definition builtins :: "RegisteredHandler list" where
  "builtins =
     [builtin TaskTypeHTTP ''Handles HTTP request tasks'' (unused_handler ''http'')
        [required TaskConfig_URL ''http task requires a URL'', http_method_validator],
      builtin TaskTypeGRPC ''Handles gRPC call tasks'' (unused_handler ''grpc'') [grpc_validator],
      builtin TaskTypeSQL ''Handles SQL query execution tasks'' (unused_handler ''sql'') [required TaskConfig_SQL ''SQL task requires a query''],
      builtin TaskTypeScript ''Handles script execution tasks'' (unused_handler ''script'')
        [required TaskConfig_Script ''script task requires script content''],
      builtin TaskTypeShell ''Handles shell command execution tasks'' (unused_handler ''shell'')
        [required TaskConfig_Command ''shell task requires a command''],
      builtin TaskTypeWebhook ''Handles webhook trigger tasks'' (unused_handler ''webhook'')
        [required TaskConfig_URL ''webhook task requires a URL''],
      builtin TaskTypeTransform ''Handles data transformation tasks'' (unused_handler ''transform'') [],
      builtin TaskTypeNotification ''Handles notification dispatch tasks'' notification_handler
        [required TaskConfig_NotifyChannel ''notification task requires a notify channel'']]"

definition registerBuiltins :: "HandlerRegistry \<Rightarrow> HandlerRegistry" where
  "registerBuiltins r =
     r\<lparr>Registry_handlers := fold (\<lambda>h. gm_set (RegHandler_TaskType h) h) builtins (Registry_handlers r)\<rparr>"

definition NewHandlerRegistry :: HandlerRegistry where
  "NewHandlerRegistry = registerBuiltins \<lparr>Registry_handlers = gm_empty\<rparr>"

section \<open>Definitions for the statements\<close>

definition handler_ok :: "TaskType \<Rightarrow> RegisteredHandler \<Rightarrow> bool" where
  "handler_ok t h \<longleftrightarrow> RegHandler_TaskType h = t \<and> TaskType_IsValid t \<and> RegHandler_Name h \<noteq> [] \<and> RegHandler_Handler h \<noteq> None"

definition registry_ok :: "HandlerRegistry \<Rightarrow> bool" where
  "registry_ok r \<longleftrightarrow> gm_inv (Registry_handlers r) \<and> (\<forall>t h. gm_get (Registry_handlers r) t = Some h \<longrightarrow> handler_ok t h)"

inductive registry_step :: "HandlerRegistry \<Rightarrow> HandlerRegistry \<Rightarrow> bool" where
  register: "registry_step r (snd (snd (Register h r)))"
| register_validated: "RegisterWithValidation h vs r = Return (e, h', r') \<Longrightarrow> registry_step r r'"
| unregister: "registry_step r (snd (Unregister t r))"

section \<open>Lemmas\<close>

lemma Register_ok:
  assumes "registry_ok r"
  shows "registry_ok (snd (snd (Register h r)))"
proof (cases h)
  case (Some k)
  have "task_type_string t \<noteq> []" if "t \<noteq> TaskTypeOther []" for t using that by (cases t) (auto simp: task_type_string_def)
  then show ?thesis
    using assms by (auto simp: Some Register_def registry_ok_def handler_ok_def Let_def gm.get_put gm.inv_put)
qed (use assms in \<open>simp add: Register_def\<close>)

lemma registry_step_ok: "registry_step r r' \<Longrightarrow> registry_ok r \<Longrightarrow> registry_ok r'"
proof (induction rule: registry_step.induct)
  case (register_validated h vs r e h' r')
  then obtain h1 where "r' = snd (snd (Register h1 r))" by (auto simp: RegisterWithValidation_def split: option.splits) (metis snd_conv)
  then show ?case using Register_ok register_validated by simp
next
  case (unregister r t)
  then show ?case by (auto simp: Unregister_def registry_ok_def gm.get_del gm.inv_del)
qed (simp add: Register_ok)

lemma builtins_ok: "h \<in> set builtins \<Longrightarrow> handler_ok (RegHandler_TaskType h) h"
  by (auto simp: builtins_def builtin_def handler_ok_def TaskType_IsValid_def)

lemma NewHandlerRegistry_ok: "registry_ok NewHandlerRegistry"
proof -
  let ?m = "fold (\<lambda>h. gm_set (RegHandler_TaskType h) h) builtins gm_empty"
  have "handler_ok t h" if "gm_get ?m t = Some h" for t h
  proof (cases "t \<in> RegHandler_TaskType ` set builtins")
    case True
    then show ?thesis using gm.get_fill_in [OF True, of "\<lambda>h. h" gm_empty] that builtins_ok [of h] by auto
  next
    case False
    then show ?thesis using gm.get_fill_notin [of t RegHandler_TaskType builtins "\<lambda>h. h" gm_empty] that by (simp add: gm.get_empty)
  qed
  then show ?thesis
    using gm.inv_fill [OF gm.inv_empty, of RegHandler_TaskType "\<lambda>h. h" builtins]
    by (simp add: registry_ok_def NewHandlerRegistry_def registerBuiltins_def)
qed

lemma registry_reachable: "registry_step\<^sup>*\<^sup>* NewHandlerRegistry r \<Longrightarrow> registry_ok r"
  by (induction rule: rtranclp_induct) (auto simp: NewHandlerRegistry_ok dest: registry_step_ok)

section \<open>Properties\<close>



text \<open>
  Every builtin handler but that for notifications fails, whatever the task: it only refers to the processor.
\<close>

lemma builtin_handlers_fail:
  assumes "registry_Execute NewHandlerRegistry task = Return res"
  shows "Task_Type task = TaskTypeNotification"
  using assms
  by (cases "Task_Type task")
    (auto simp: registry_Execute_def registry_Get_def NewHandlerRegistry_def registerBuiltins_def builtins_def builtin_def
      gm.get_put gm.get_empty unused_handler_def split: option.splits)

end
