(* ===== verification/Queue_Message.thy ===== *)
theory Queue_Message
  imports Prelude
begin

text \<open>
  The messages of \<^verbatim>\<open>internal/queue/message.go\<close>. A header value is a string, a number, or one of the two kinds of value
  that the worker renders into a string. The package \<^verbatim>\<open>encoding/json\<close> is a pair of arguments: \<open>enc\<close> renders an envelope
  and \<open>dec\<close> reads one; a nil slice or map is \<^const>\<open>None\<close>.
\<close>

section \<open>Data\<close>

datatype MessageType =
    MessageTypeEvent | MessageTypeCommand | MessageTypeNotification | MessageTypeHeartbeat | MessageTypeError | MessageTypeAck
  | MessageTypeRequest | MessageTypeResponse | MessageTypeOther string

definition message_type_string :: "MessageType \<Rightarrow> string" where
  "message_type_string t =
     (case t of MessageTypeEvent \<Rightarrow> ''event'' | MessageTypeCommand \<Rightarrow> ''command'' | MessageTypeNotification \<Rightarrow> ''notification''
      | MessageTypeHeartbeat \<Rightarrow> ''heartbeat'' | MessageTypeError \<Rightarrow> ''error'' | MessageTypeAck \<Rightarrow> ''ack''
      | MessageTypeRequest \<Rightarrow> ''request'' | MessageTypeResponse \<Rightarrow> ''response'' | MessageTypeOther s \<Rightarrow> s)"

datatype header_value = HeaderString string | HeaderInt int | HeaderDuration dur | HeaderTime gotime

type_synonym Headers = "(string, header_value) gmap"

datatype message_error =
    ErrInvalidMessageType | PayloadIsNil | EmptyData | EmptyPayload
  | MarshalEnvelope string | UnmarshalEnvelope string | DecodeFailed string | SerializeFailed string

record Envelope =
  Envelope_ID :: string
  Envelope_Type :: MessageType
  Envelope_Source :: string
  Envelope_Version :: string
  Envelope_Timestamp :: gotime
  Envelope_Headers :: "Headers option"
  Envelope_Payload :: "string option"
  Envelope_ContentType :: string
  Envelope_Encoding :: string
  Envelope_CorrelationID :: string
  Envelope_ReplyTo :: string
  Envelope_Priority :: int
  Envelope_TTL :: int
  Envelope_RetryCount :: int

record DeliveryInfo =
  DeliveryInfo_ConsumerTag :: string
  DeliveryInfo_DeliveryTag :: "64 word"
  DeliveryInfo_Redelivered :: bool
  DeliveryInfo_Exchange :: string
  DeliveryInfo_RoutingKey :: string
  DeliveryInfo_Queue :: string

text \<open>What the program reads of a delivery of the AMQP client.\<close>

record amqp_Delivery =
  amqp_ConsumerTag :: string
  amqp_DeliveryTag :: "64 word"
  amqp_Redelivered :: bool
  amqp_Exchange :: string
  amqp_RoutingKey :: string
  amqp_Body :: string

section \<open>Headers\<close>

definition Headers_Get :: "Headers \<Rightarrow> string \<Rightarrow> header_value option" where
  "Headers_Get h key = gm_get h key"

definition Headers_Set :: "string \<Rightarrow> header_value \<Rightarrow> Headers option \<Rightarrow> (unit, Headers option) outcome" where
  "Headers_Set key v h = (case h of None \<Rightarrow> Panic | Some m \<Rightarrow> Return (Some (gm_set key v m)))"

definition Headers_String :: "Headers \<Rightarrow> string \<Rightarrow> string" where
  "Headers_String h key = (case gm_get h key of Some (HeaderString s) \<Rightarrow> s | _ \<Rightarrow> [])"

section \<open>Envelopes\<close>

definition zero_Envelope :: Envelope where
  "zero_Envelope = \<lparr>Envelope_ID = [], Envelope_Type = MessageTypeOther [], Envelope_Source = [], Envelope_Version = [],
     Envelope_Timestamp = 0, Envelope_Headers = None, Envelope_Payload = None, Envelope_ContentType = [], Envelope_Encoding = [],
     Envelope_CorrelationID = [], Envelope_ReplyTo = [], Envelope_Priority = 0, Envelope_TTL = 0, Envelope_RetryCount = 0\<rparr>"

definition NewEnvelope :: "gotime \<Rightarrow> MessageType \<Rightarrow> string option \<Rightarrow> Envelope" where
  "NewEnvelope now msgType payload =
     zero_Envelope\<lparr>Envelope_Type := msgType, Envelope_Timestamp := now, Envelope_Headers := Some gm_empty, Envelope_Payload := payload\<rparr>"

definition NewEnvelopeWithID :: "gotime \<Rightarrow> string \<Rightarrow> MessageType \<Rightarrow> string option \<Rightarrow> Envelope" where
  "NewEnvelopeWithID now eid msgType payload =
     zero_Envelope\<lparr>Envelope_ID := eid, Envelope_Type := msgType, Envelope_Timestamp := now, Envelope_Headers := Some gm_empty,
       Envelope_Payload := payload\<rparr>"

definition Envelope_Validate :: "Envelope \<Rightarrow> message_error option" where
  "Envelope_Validate e =
     (if message_type_string (Envelope_Type e) = [] then Some ErrInvalidMessageType
      else if Envelope_Payload e = None then Some PayloadIsNil
      else None)"

definition with_headers :: "Envelope \<Rightarrow> Headers" where
  "with_headers e = (case Envelope_Headers e of None \<Rightarrow> gm_empty | Some h \<Rightarrow> h)"

text \<open>The rendering changes the headers of the envelope as well.\<close>

definition Envelope_Marshal :: "(Envelope \<Rightarrow> string + string) \<Rightarrow> Envelope \<Rightarrow> (message_error + string) \<times> Envelope" where
  "Envelope_Marshal enc e =
     (case Envelope_Validate e of
        Some err \<Rightarrow> (Inl err, e)
      | None \<Rightarrow>
          let h = with_headers e;
              h1 = gm_set ''x-message-type'' (HeaderString (message_type_string (Envelope_Type e))) h;
              h2 = gm_set ''x-message-version'' (HeaderString (Envelope_Version e)) h1;
              e1 = e\<lparr>Envelope_Headers := Some h2\<rparr>
          in (case enc e1 of Inl err \<Rightarrow> (Inl (MarshalEnvelope err), e1) | Inr data \<Rightarrow> (Inr data, e1)))"

definition Envelope_Unmarshal :: "(string \<Rightarrow> Envelope \<Rightarrow> string + Envelope) \<Rightarrow> string \<Rightarrow> Envelope \<Rightarrow> message_error + Envelope" where
  "Envelope_Unmarshal dec data e =
     (if data = [] then Inl EmptyData
      else case dec data e of
             Inl err \<Rightarrow> Inl (UnmarshalEnvelope err)
           | Inr e1 \<Rightarrow> let e2 = e1\<lparr>Envelope_Headers := Some (with_headers e1)\<rparr>
                      in (case Envelope_Validate e2 of Some err \<Rightarrow> Inl err | None \<Rightarrow> Inr e2))"

definition DecodePayload :: "(string \<Rightarrow> string + 'v) \<Rightarrow> Envelope \<Rightarrow> message_error + 'v" where
  "DecodePayload dec e =
     (case Envelope_Payload e of
        None \<Rightarrow> Inl EmptyPayload
      | Some p \<Rightarrow> if p = [] then Inl EmptyPayload else (case dec p of Inl err \<Rightarrow> Inl (DecodeFailed err) | Inr v \<Rightarrow> Inr v))"

definition WithHeader :: "string \<Rightarrow> header_value \<Rightarrow> Envelope \<Rightarrow> Envelope" where
  "WithHeader key v e = e\<lparr>Envelope_Headers := Some (gm_set key v (with_headers e))\<rparr>"

definition WithCorrelationID :: "string \<Rightarrow> Envelope \<Rightarrow> Envelope" where
  "WithCorrelationID cid e = e\<lparr>Envelope_CorrelationID := cid\<rparr>"

definition WithReplyTo :: "string \<Rightarrow> Envelope \<Rightarrow> Envelope" where
  "WithReplyTo q e = e\<lparr>Envelope_ReplyTo := q\<rparr>"

definition WithTTL :: "int \<Rightarrow> Envelope \<Rightarrow> Envelope" where
  "WithTTL ttl e = e\<lparr>Envelope_TTL := ttl\<rparr>"

definition WithPriority :: "int \<Rightarrow> Envelope \<Rightarrow> Envelope" where
  "WithPriority p e = e\<lparr>Envelope_Priority := p\<rparr>"

definition Envelope_Clone :: "string ranger \<Rightarrow> Envelope \<Rightarrow> Envelope" where
  "Envelope_Clone rng e =
     (let headers = fold (\<lambda>(k, v). gm_set k v) (range_items rng 0 (with_headers e)) gm_empty;
          payload = (case Envelope_Payload e of None \<Rightarrow> [] | Some p \<Rightarrow> p)
      in \<lparr>Envelope_ID = Envelope_ID e, Envelope_Type = Envelope_Type e, Envelope_Source = Envelope_Source e,
          Envelope_Version = Envelope_Version e, Envelope_Timestamp = Envelope_Timestamp e, Envelope_Headers = Some headers,
          Envelope_Payload = Some payload, Envelope_ContentType = Envelope_ContentType e, Envelope_Encoding = Envelope_Encoding e,
          Envelope_CorrelationID = Envelope_CorrelationID e, Envelope_ReplyTo = Envelope_ReplyTo e,
          Envelope_Priority = Envelope_Priority e, Envelope_TTL = Envelope_TTL e, Envelope_RetryCount = Envelope_RetryCount e\<rparr>)"

definition Serialize :: "('p \<Rightarrow> string + string) \<Rightarrow> gotime \<Rightarrow> MessageType \<Rightarrow> 'p \<Rightarrow> message_error + Envelope" where
  "Serialize enc now msgType payload =
     (case enc payload of Inl err \<Rightarrow> Inl (SerializeFailed err) | Inr data \<Rightarrow> Inr (NewEnvelope now msgType (Some data)))"

definition Deserialize :: "(string \<Rightarrow> Envelope \<Rightarrow> string + Envelope) \<Rightarrow> string \<Rightarrow> message_error + Envelope" where
  "Deserialize dec data = Envelope_Unmarshal dec data zero_Envelope"

definition EnvelopeFromDelivery ::
  "(string \<Rightarrow> Envelope \<Rightarrow> string + Envelope) \<Rightarrow> amqp_Delivery \<Rightarrow> message_error + Envelope \<times> DeliveryInfo" where
  "EnvelopeFromDelivery dec d =
     (case Deserialize dec (amqp_Body d) of
        Inl err \<Rightarrow> Inl err
      | Inr env \<Rightarrow> Inr (env, \<lparr>DeliveryInfo_ConsumerTag = amqp_ConsumerTag d, DeliveryInfo_DeliveryTag = amqp_DeliveryTag d,
          DeliveryInfo_Redelivered = amqp_Redelivered d, DeliveryInfo_Exchange = amqp_Exchange d,
          DeliveryInfo_RoutingKey = amqp_RoutingKey d, DeliveryInfo_Queue = []\<rparr>))"

section \<open>Lemmas\<close>

lemma Deserialize_valid:
  assumes "Deserialize dec data = Inr e"
  shows "Envelope_Validate e = None" and "Envelope_Headers e \<noteq> None" and "Envelope_Payload e \<noteq> None"
  using assms
  by (auto simp: Deserialize_def Envelope_Unmarshal_def Envelope_Validate_def Let_def split: if_splits sum.splits option.splits)

text \<open>
  A round trip: a valid envelope is read back as it was rendered, with the two headers the rendering adds, whenever the JSON package reads
  back what it rendered.
\<close>

theorem Envelope_roundtrip:
  assumes "Envelope_Marshal enc e = (Inr data, e1)" and "data \<noteq> []" and json: "\<And>e data. enc e = Inr data \<Longrightarrow> dec data zero_Envelope = Inr e"
  shows "Deserialize dec data = Inr e1 \<and> e1\<lparr>Envelope_Headers := Envelope_Headers e\<rparr> = e \<and>
    Headers_String (with_headers e1) ''x-message-type'' = message_type_string (Envelope_Type e)"
proof -
  have v: "Envelope_Validate e = None" and e1: "enc e1 = Inr data" "e1 = e\<lparr>Envelope_Headers := Envelope_Headers e1\<rparr>"
    "with_headers e1 = gm_set ''x-message-version'' (HeaderString (Envelope_Version e))
       (gm_set ''x-message-type'' (HeaderString (message_type_string (Envelope_Type e))) (with_headers e))" "Envelope_Headers e1 \<noteq> None"
    using assms(1) by (auto simp: Envelope_Marshal_def Let_def with_headers_def split: option.splits sum.splits)
  have "e1\<lparr>Envelope_Headers := Some (with_headers e1)\<rparr> = e1" using e1(4) by (cases e1) (auto simp: with_headers_def)
  moreover have "Envelope_Validate e1 = None" using v by (subst e1(2)) (simp add: Envelope_Validate_def split: if_splits)
  ultimately have "Deserialize dec data = Inr e1"
    using json [OF e1(1)] assms(2) by (simp add: Deserialize_def Envelope_Unmarshal_def)
  moreover have "e1\<lparr>Envelope_Headers := Envelope_Headers e\<rparr> = e" by (subst e1(2)) simp
  moreover have "Headers_String (with_headers e1) ''x-message-type'' = message_type_string (Envelope_Type e)"
    by (simp add: e1(3) Headers_String_def gm.get_put)
  ultimately show ?thesis by blast
qed

lemma Clone_headers:
  assumes "ranger_ok rng" and "gm_inv (with_headers e)"
  shows "gm_get (with_headers (Envelope_Clone rng e)) k = gm_get (with_headers e) k"
  using gm_get_fill_items [OF assms, of 0 gm_empty k]
  by (simp add: Envelope_Clone_def with_headers_def [of "Envelope_Clone _ _"] Let_def gm.get_empty with_headers_def split: option.splits)

end
