(* ===== verification/Worker_Handler.thy ===== *)
theory Worker_Handler
  imports Queue_Message Worker_Processor
begin

text \<open>
  The message handler of \<^verbatim>\<open>internal/worker/handler.go\<close>: what it does with one delivery. The calls that change the broker
  or the database are listed, in order, as actions; their outcomes, the JSON package, the processor and the state of the context are a
  record of arguments. The rendering of durations and times in headers is left out.
\<close>

section \<open>Data\<close>

record HandlerConfig =
  HandlerConfig_TaskTimeout :: dur
  HandlerConfig_MaxRetries :: int
  HandlerConfig_DLQName :: string
  HandlerConfig_RetryExchange :: string
  HandlerConfig_RetryRoutingKey :: string
  HandlerConfig_AckOnSuccess :: bool
  HandlerConfig_NackOnFailure :: bool
  HandlerConfig_RequeueOnNack :: bool

definition DefaultHandlerConfig :: HandlerConfig where
  "DefaultHandlerConfig =
     \<lparr>HandlerConfig_TaskTimeout = 60 * Second, HandlerConfig_MaxRetries = 3, HandlerConfig_DLQName = ''tasks.dlq'',
      HandlerConfig_RetryExchange = ''tasks.retry'', HandlerConfig_RetryRoutingKey = ''task.retry'', HandlerConfig_AckOnSuccess = True,
      HandlerConfig_NackOnFailure = True, HandlerConfig_RequeueOnNack = False\<rparr>"

record publishing =
  pub_ContentType :: string
  pub_Body :: string
  pub_Timestamp :: gotime
  pub_Headers :: Headers

text \<open>A message is acknowledged, or rejected with or without putting it back into its queue.\<close>

datatype action =
    Ack | Nack bool | Publish string publishing | UpdateStatus uuid TaskStatus string | IncrementRetry uuid string

datatype handler_error =
    AckFailed string | NackFailed string | NackForRetryFailed string | NackAfterDLQFailed string
  | MarshalForDLQ message_error | AcquireChannelForDLQ string

record handler_env =
  henv_decode :: "string \<Rightarrow> Envelope \<Rightarrow> string + Envelope"
  henv_decode_task :: "string \<Rightarrow> string + Task"
  henv_encode :: "Envelope \<Rightarrow> string + string"
  henv_cancelled :: bool
  henv_ProcessTask :: "Task \<Rightarrow> TaskResult option \<times> string option"
  henv_Ack :: "string option"
  henv_Nack :: "string option"
  henv_AcquireChannel :: "string option"
  henv_render :: "message_error + string \<Rightarrow> string"
  henv_now :: gotime

section \<open>Operations\<close>

definition handleSuccess :: "HandlerConfig \<Rightarrow> handler_env \<Rightarrow> Task \<Rightarrow> handler_error option \<times> action list" where
  "handleSuccess cfg env task =
     (let upd = UpdateStatus (Task_ID task) TaskStatusCompleted []
      in if HandlerConfig_AckOnSuccess cfg then (map_option AckFailed (henv_Ack env), [upd, Ack])
         else (None, [upd]))"

text \<open>The wait that is announced before the next attempt; shifting by a negative count shifts by more than the width of the word.\<close>

definition retry_delay :: "int \<Rightarrow> dur" where
  "retry_delay retryCount =
     (let d = i64 ((if retryCount < 0 \<or> 64 \<le> retryCount then 0 else i64 (2 ^ nat retryCount)) * Second)
      in if 30 * Second < d then 30 * Second else d)"

text \<open>The envelope with its new headers is returned too; the handler does not use it any more.\<close>

definition handleRetry ::
  "HandlerConfig \<Rightarrow> handler_env \<Rightarrow> Envelope \<Rightarrow> Task \<Rightarrow> string \<Rightarrow> int \<Rightarrow> handler_error option \<times> action list \<times> Envelope" where
  "handleRetry cfg env e task errMsg retryCount =
     (let d = retry_delay retryCount;
          h = gm_set ''x-retry-count'' (HeaderInt (i64 (retryCount + 1))) (with_headers e);
          h = gm_set ''x-retry-delay'' (HeaderDuration d) h;
          h = gm_set ''x-original-error'' (HeaderString errMsg) h;
          h = gm_set ''x-next-retry'' (HeaderTime (henv_now env + d)) h;
          e1 = e\<lparr>Envelope_RetryCount := i64 (retryCount + 1), Envelope_Headers := Some h\<rparr>;
          inc = IncrementRetry (Task_ID task) errMsg
      in if HandlerConfig_NackOnFailure cfg
         then (map_option NackForRetryFailed (henv_Nack env), [inc, Nack (HandlerConfig_RequeueOnNack cfg)], e1)
         else (None, [inc], e1))"

definition reject :: "HandlerConfig \<Rightarrow> handler_env \<Rightarrow> handler_error \<Rightarrow> handler_error option \<times> action list" where
  "reject cfg env err =
     (if HandlerConfig_NackOnFailure cfg then (map_option NackFailed (henv_Nack env), [Nack False]) else (Some err, []))"

definition routeToDLQ ::
  "HandlerConfig \<Rightarrow> handler_env \<Rightarrow> amqp_Delivery \<Rightarrow> Envelope \<Rightarrow> string \<Rightarrow> handler_error option \<times> action list" where
  "routeToDLQ cfg env msg e errMsg =
     (case fst (Envelope_Marshal (henv_encode env) e) of
        Inl err \<Rightarrow> reject cfg env (MarshalForDLQ err)
      | Inr payload \<Rightarrow>
          (case henv_AcquireChannel env of
             Some err \<Rightarrow> reject cfg env (AcquireChannelForDLQ err)
           | None \<Rightarrow>
               let h = gm_set ''x-failed-at'' (HeaderTime (henv_now env)) (gm_set ''x-error'' (HeaderString errMsg)
                         (gm_set ''x-original-routing-key'' (HeaderString (amqp_RoutingKey msg)) gm_empty));
                   pub = Publish (HandlerConfig_DLQName cfg)
                     \<lparr>pub_ContentType = ''application/json'', pub_Body = payload, pub_Timestamp = henv_now env, pub_Headers = h\<rparr>
               in if HandlerConfig_NackOnFailure cfg then (map_option NackAfterDLQFailed (henv_Nack env), [pub, Nack False])
                  else (None, [pub])))"

definition handleProcessingError ::
  "HandlerConfig \<Rightarrow> handler_env \<Rightarrow> amqp_Delivery \<Rightarrow> Envelope \<Rightarrow> Task \<Rightarrow> TaskResult option \<Rightarrow> string option \<Rightarrow>
   handler_error option \<times> action list" where
  "handleProcessingError cfg env msg e task result procErr =
     (let errMsg = (case result of None \<Rightarrow> [] | Some r \<Rightarrow> TaskResult_Error r);
          errMsg = (case procErr of Some p \<Rightarrow> if errMsg = [] then p else errMsg | None \<Rightarrow> errMsg);
          retryable = (case result of None \<Rightarrow> False | Some r \<Rightarrow> TaskResult_Retryable r);
          retryCount = Envelope_RetryCount e
      in if retryable \<and> retryCount < HandlerConfig_MaxRetries cfg
         then (let (err, acts, _) = handleRetry cfg env e task errMsg retryCount in (err, acts))
         else (let (err, acts) = routeToDLQ cfg env msg e errMsg in (err, UpdateStatus (Task_ID task) TaskStatusFailed errMsg # acts)))"

definition handleDeserializeError ::
  "HandlerConfig \<Rightarrow> handler_env \<Rightarrow> amqp_Delivery \<Rightarrow> message_error + string \<Rightarrow> handler_error option \<times> action list" where
  "handleDeserializeError cfg env msg err =
     (let h = gm_set ''x-original-routing-key'' (HeaderString (amqp_RoutingKey msg)) (gm_set ''x-failed-at'' (HeaderTime (henv_now env))
                (gm_set ''x-error'' (HeaderString (''deserialize_error: '' @ henv_render env err)) gm_empty));
          pub = Publish (HandlerConfig_DLQName cfg)
            \<lparr>pub_ContentType = ''application/octet-stream'', pub_Body = amqp_Body msg, pub_Timestamp = henv_now env, pub_Headers = h\<rparr>
      in (map_option NackFailed (henv_Nack env), (if henv_AcquireChannel env = None then [pub] else []) @ [Nack False]))"

definition handleTimeout :: "HandlerConfig \<Rightarrow> handler_env \<Rightarrow> Envelope \<Rightarrow> handler_error option \<times> action list" where
  "handleTimeout cfg env e =
     (let payload = (case fst (Envelope_Marshal (henv_encode env) e) of Inl err \<Rightarrow> [] | Inr p \<Rightarrow> p);
          h = gm_set ''x-failed-at'' (HeaderTime (henv_now env)) (gm_set ''x-timeout'' (HeaderDuration (HandlerConfig_TaskTimeout cfg))
                (gm_set ''x-error'' (HeaderString ''task_timeout'') gm_empty));
          pub = Publish (HandlerConfig_DLQName cfg)
            \<lparr>pub_ContentType = ''application/json'', pub_Body = payload, pub_Timestamp = henv_now env, pub_Headers = h\<rparr>
      in (map_option NackFailed (henv_Nack env), (if henv_AcquireChannel env = None then [pub] else []) @ [Nack False]))"

definition nil_result :: "Task \<Rightarrow> TaskResult" where
  "nil_result task =
     (failed_result ''nil result from processor'' ErrorTypeInternal False [])\<lparr>TaskResult_TaskID := Some (Task_ID task)\<rparr>"

definition HandleDelivery :: "HandlerConfig \<Rightarrow> handler_env \<Rightarrow> amqp_Delivery \<Rightarrow> handler_error option \<times> action list" where
  "HandleDelivery cfg env msg =
     (case EnvelopeFromDelivery (henv_decode env) msg of
        Inl err \<Rightarrow> handleDeserializeError cfg env msg (Inl err)
      | Inr (e, info) \<Rightarrow>
          (case henv_decode_task env (case Envelope_Payload e of None \<Rightarrow> [] | Some p \<Rightarrow> p) of
             Inl err \<Rightarrow> handleDeserializeError cfg env msg (Inr err)
           | Inr task \<Rightarrow>
               if henv_cancelled env then handleTimeout cfg env e
               else case henv_ProcessTask env task of
                      (result, Some err) \<Rightarrow> handleProcessingError cfg env msg e task result (Some err)
                    | (result, None) \<Rightarrow>
                        (let r = (case result of None \<Rightarrow> nil_result task | Some r \<Rightarrow> r)
                         in if TaskResult_Status r = TaskStatusFailed then handleProcessingError cfg env msg e task (Some r) None
                            else handleSuccess cfg env task)))"

section \<open>Definitions for the statements\<close>

fun settles :: "action \<Rightarrow> bool" where
  "settles Ack = True"
| "settles (Nack requeue) = True"
| "settles a = False"

text \<open>The processor of the program as the handler sees it: it always returns a result and no error.\<close>

definition default_processor :: "process_env \<Rightarrow> string ranger \<Rightarrow> gotime \<Rightarrow> gotime \<Rightarrow> Task \<Rightarrow> TaskResult option \<times> string option" where
  "default_processor penv rng start now task = (Some (ProcessTask penv rng start now task), None)"

text \<open>An example: a delivery whose body is a task, and a processor that fails.\<close>

definition example_env :: "TaskResult \<Rightarrow> handler_env" where
  "example_env r =
     \<lparr>henv_decode = (\<lambda>s e. Inr ((NewEnvelope 0 MessageTypeCommand (Some s))\<lparr>Envelope_ID := ''m1''\<rparr>)),
      henv_decode_task = (\<lambda>s. Inr (NewTask 7 0 8 s TaskTypeHTTP)), henv_encode = (\<lambda>e. Inr ''encoded''), henv_cancelled = False,
      henv_ProcessTask = (\<lambda>t. (Some r, None)), henv_Ack = None, henv_Nack = None, henv_AcquireChannel = None,
      henv_render = (\<lambda>e. ''error''), henv_now = 5\<rparr>"

definition idle_env :: process_env where
  "idle_env = \<lparr>env_NewRequest = (\<lambda>m u b. None), env_Do = (\<lambda>r. Inr (200, Inr [])), env_Run = (\<lambda>s. (None, [], [])),
     env_Unmarshal = (\<lambda>s. None), env_Marshal = Inr, env_MarshalQuery = Inr\<rparr>"

definition grpc_env :: handler_env where
  "grpc_env = (example_env (completed_result []))\<lparr>henv_decode_task := (\<lambda>s. Inr (NewTask 7 0 8 s TaskTypeGRPC)),
     henv_ProcessTask := default_processor idle_env (\<lambda>i ks. ks) 0 1\<rparr>"

definition example_msg :: amqp_Delivery where
  "example_msg = \<lparr>amqp_ConsumerTag = ''c'', amqp_DeliveryTag = 1, amqp_Redelivered = False, amqp_Exchange = [], amqp_RoutingKey = ''tasks'',
     amqp_Body = ''task''\<rparr>"

section \<open>Lemmas\<close>

lemmas handler_defs = handleSuccess_def handleRetry_def routeToDLQ_def handleProcessingError_def handleDeserializeError_def
  handleTimeout_def reject_def

text \<open>Each handler ends with the one action that settles the message.\<close>

definition settled_last :: "action list \<Rightarrow> bool" where
  "settled_last acts \<longleftrightarrow> acts \<noteq> [] \<and> settles (last acts) \<and> (\<forall>a\<in>set (butlast acts). \<not> settles a)"

lemma settled_last_simps [simp]:
  "settled_last [a] = settles a" "settled_last (a # b # acts) = (\<not> settles a \<and> settled_last (b # acts))"
  by (auto simp: settled_last_def)

lemma settled_last_cons: "settled_last acts \<Longrightarrow> \<not> settles a \<Longrightarrow> settled_last (a # acts)"
  by (cases acts) (auto simp: settled_last_def)

lemma settled_handlers:
  "HandlerConfig_AckOnSuccess cfg \<Longrightarrow> settled_last (snd (handleSuccess cfg env task))"
  "HandlerConfig_NackOnFailure cfg \<Longrightarrow> settled_last (fst (snd (handleRetry cfg env e task errMsg n)))"
  "settled_last (snd (handleDeserializeError cfg env msg err))"
  "settled_last (snd (handleTimeout cfg env e))"
  "HandlerConfig_NackOnFailure cfg \<Longrightarrow> settled_last (snd (routeToDLQ cfg env msg e errMsg))"
  by (auto simp: handler_defs Let_def split: sum.split option.split)

lemma settled_processing_error:
  "HandlerConfig_NackOnFailure cfg \<Longrightarrow> settled_last (snd (handleProcessingError cfg env msg e task result procErr))"
  using settled_handlers(2,5) by (auto simp: handleProcessingError_def Let_def case_prod_unfold intro!: settled_last_cons)

lemma processing_failed:
  assumes "EnvelopeFromDelivery (henv_decode env) msg = Inr (e, info)" and "Envelope_Payload e = Some p"
    and "henv_decode_task env p = Inr task" and "\<not> henv_cancelled env"
    and "henv_ProcessTask env task = (Some r, None)" and "TaskResult_Status r = TaskStatusFailed"
  shows "HandleDelivery cfg env msg = handleProcessingError cfg env msg e task (Some r) None"
  using assms by (simp add: HandleDelivery_def)

section \<open>Properties\<close>





text \<open>
  (C23) Retries are never counted: when a task fails in a way worth a retry and attempts are left, the handler only notes the retry in the
  database and rejects the message; the envelope with the new count is published nowhere. Every further delivery of the same body is handled
  in the same way, so the limit of retries is never reached; and with the default configuration the message is not put back at all.
\<close>

theorem retry_never_counted:
  assumes "EnvelopeFromDelivery (henv_decode env) msg = Inr (e, info)" and "Envelope_Payload e = Some p"
    and "henv_decode_task env p = Inr task" and "\<not> henv_cancelled env"
    and "henv_ProcessTask env task = (Some r, None)" and "TaskResult_Status r = TaskStatusFailed"
    and "TaskResult_Retryable r" and "Envelope_RetryCount e < HandlerConfig_MaxRetries cfg" and "HandlerConfig_NackOnFailure cfg"
    and "amqp_Body msg' = amqp_Body msg"
  shows "snd (HandleDelivery cfg env msg') = [IncrementRetry (Task_ID task) (TaskResult_Error r), Nack (HandlerConfig_RequeueOnNack cfg)]"
proof -
  obtain info' where "EnvelopeFromDelivery (henv_decode env) msg' = Inr (e, info')"
    using assms(1,10) by (auto simp: EnvelopeFromDelivery_def split: sum.splits)
  from processing_failed [OF this assms(2-6)] show ?thesis
    using assms(7-9) by (simp add: handleProcessingError_def handleRetry_def Let_def)
qed

theorem retry_never_counted_witness:
  "snd (HandleDelivery DefaultHandlerConfig (example_env (failed_result ''down'' ErrorTypeNetwork True [])) example_msg)
    = [IncrementRetry 7 ''down'', Nack False]"
proof -
  let ?e = "(NewEnvelope 0 MessageTypeCommand (Some ''task''))\<lparr>Envelope_ID := ''m1''\<rparr>"
  have "\<exists>info. EnvelopeFromDelivery (henv_decode (example_env (failed_result ''down'' ErrorTypeNetwork True []))) example_msg = Inr (?e, info)"
    by (simp add: example_env_def example_msg_def EnvelopeFromDelivery_def Deserialize_def Envelope_Unmarshal_def Envelope_Validate_def
        NewEnvelope_def zero_Envelope_def message_type_string_def with_headers_def)
  then obtain info where "EnvelopeFromDelivery (henv_decode (example_env (failed_result ''down'' ErrorTypeNetwork True []))) example_msg = Inr (?e, info)" ..
  from retry_never_counted [OF this, of "''task''" "NewTask 7 0 8 ''task'' TaskTypeHTTP" "failed_result ''down'' ErrorTypeNetwork True []"
      DefaultHandlerConfig example_msg]
  show ?thesis
    by (simp add: example_env_def NewEnvelope_def zero_Envelope_def failed_result_def DefaultHandlerConfig_def NewTask_def)
qed

end
