(* ===== verification/Worker_Pool.thy ===== *)
theory Worker_Pool
  imports Queue_Message Go_Chan Go_Strings Go_Float
begin

text \<open>
  The pool of \<^verbatim>\<open>internal/worker/pool.go\<close>. Workers are shared between the pool's slice and the goroutines that run them,
  so they live in a store, and both refer to them by position; \<^verbatim>\<open>loops\<close> lists the goroutines of \<^verbatim>\<open>workerRun\<close> that have
  not returned, which is what the wait group counts. The critical sections run one after another; an operation that waits for a lock its own
  goroutine holds returns \<^const>\<open>None\<close>. Factors are exact.
\<close>

section \<open>Data\<close>

record WorkerMetrics =
  WorkerMetrics_WorkerID :: string
  WorkerMetrics_TasksProcessed :: int
  WorkerMetrics_TasksSucceeded :: int
  WorkerMetrics_TasksFailed :: int
  WorkerMetrics_TasksRetried :: int
  WorkerMetrics_TotalDuration :: dur
  WorkerMetrics_AvgDuration :: dur
  WorkerMetrics_LastActivity :: gotime
  WorkerMetrics_IsBusy :: bool
  WorkerMetrics_CurrentTaskID :: string
  WorkerMetrics_Panics :: int

record PoolConfig =
  PoolConfig_MinWorkers :: int
  PoolConfig_MaxWorkers :: int
  PoolConfig_ScaleUpFactor :: rat
  PoolConfig_ScaleDownFactor :: rat
  PoolConfig_IdleThreshold :: dur
  PoolConfig_CheckInterval :: dur
  PoolConfig_QueueLength :: int
  PoolConfig_TaskTimeout :: dur
  PoolConfig_ShutdownTimeout :: dur

definition DefaultPoolConfig :: PoolConfig where
  "DefaultPoolConfig =
     \<lparr>PoolConfig_MinWorkers = 1, PoolConfig_MaxWorkers = 20, PoolConfig_ScaleUpFactor = 3 / 4, PoolConfig_ScaleDownFactor = 1 / 4,
      PoolConfig_IdleThreshold = 30 * Second, PoolConfig_CheckInterval = 5 * Second, PoolConfig_QueueLength = 100,
      PoolConfig_TaskTimeout = 60 * Second, PoolConfig_ShutdownTimeout = 15 * Second\<rparr>"

record poolWorker =
  poolWorker_id :: string
  poolWorker_index :: nat
  poolWorker_started :: gotime
  poolWorker_tasks :: int
  poolWorker_panics :: int
  poolWorker_lastTask :: gotime
  poolWorker_busy :: bool
  poolWorker_current :: string

record workerTask =
  workerTask_msg :: amqp_Delivery
  workerTask_env :: "Envelope option"
  workerTask_info :: "DeliveryInfo option"

record WorkerPool =
  WorkerPool_cfg :: PoolConfig
  WorkerPool_store :: "poolWorker list"
  WorkerPool_workers :: "nat list"
  WorkerPool_loops :: "nat list"
  WorkerPool_taskCh :: "workerTask chan"
  WorkerPool_metrics :: "(string, WorkerMetrics) gmap"
  WorkerPool_running :: bool
  WorkerPool_errors :: "string list"
  WorkerPool_workerSeq :: int

record PoolMetrics =
  PoolMetrics_TotalWorkers :: nat
  PoolMetrics_BusyWorkers :: nat
  PoolMetrics_IdleWorkers :: int
  PoolMetrics_QueueDepth :: nat
  PoolMetrics_QueueCapacity :: nat

datatype submit_error = PoolNotRunning | ContextDone | QueueFull int

section \<open>Workers\<close>

text \<open>A channel cannot have a negative capacity.\<close>

definition NewWorkerPool :: "PoolConfig \<Rightarrow> (unit, WorkerPool) outcome" where
  "NewWorkerPool cfg0 =
     (let cfg1 = (if PoolConfig_MinWorkers cfg0 \<le> 0 then cfg0\<lparr>PoolConfig_MinWorkers := 1\<rparr> else cfg0);
          cfg = (if PoolConfig_MaxWorkers cfg1 < PoolConfig_MinWorkers cfg1 then cfg1\<lparr>PoolConfig_MaxWorkers := PoolConfig_MinWorkers cfg1\<rparr> else cfg1)
      in if PoolConfig_QueueLength cfg < 0 then Panic
         else Return \<lparr>WorkerPool_cfg = cfg, WorkerPool_store = [], WorkerPool_workers = [], WorkerPool_loops = [],
           WorkerPool_taskCh = chan_make (PoolConfig_QueueLength cfg), WorkerPool_metrics = gm_empty, WorkerPool_running = False,
           WorkerPool_errors = [], WorkerPool_workerSeq = 0\<rparr>)"

definition addWorker :: "gotime \<Rightarrow> WorkerPool \<Rightarrow> WorkerPool" where
  "addWorker now wp =
     (let seq = i64 (WorkerPool_workerSeq wp + 1);
          k = length (WorkerPool_store wp);
          w = \<lparr>poolWorker_id = ''worker-'' @ show_int seq, poolWorker_index = length (WorkerPool_workers wp), poolWorker_started = now,
               poolWorker_tasks = 0, poolWorker_panics = 0, poolWorker_lastTask = 0, poolWorker_busy = False, poolWorker_current = []\<rparr>
      in wp\<lparr>WorkerPool_workerSeq := seq, WorkerPool_store := WorkerPool_store wp @ [w], WorkerPool_workers := WorkerPool_workers wp @ [k],
            WorkerPool_loops := WorkerPool_loops wp @ [k]\<rparr>)"

definition removeWorker :: "int \<Rightarrow> WorkerPool \<Rightarrow> WorkerPool" where
  "removeWorker index wp =
     (let ws = WorkerPool_workers wp
      in if index < 0 \<or> int (length ws) \<le> index then wp
         else wp\<lparr>WorkerPool_workers := take (nat index) ws @ drop (nat index + 1) ws\<rparr>)"

definition pool_Start :: "gotime \<Rightarrow> WorkerPool \<Rightarrow> WorkerPool" where
  "pool_Start now wp = (addWorker now ^^ nat (PoolConfig_MinWorkers (WorkerPool_cfg wp))) (wp\<lparr>WorkerPool_running := True\<rparr>)"

text \<open>
  The context that the workers watch is a fresh background context and never done, so stopping cannot end a goroutine: the wait for them ends
  with the last of them or with the timeout.
\<close>

definition cancelContext_done :: bool where
  "cancelContext_done = False"

definition pool_Stop :: "WorkerPool \<Rightarrow> WorkerPool" where
  "pool_Stop wp = (if \<not> WorkerPool_running wp then wp else wp\<lparr>WorkerPool_running := False, WorkerPool_workers := []\<rparr>)"

text \<open>When both the channel and the context are ready, \<open>pick\<close> says that the context is chosen.\<close>

definition pool_Submit :: "bool \<Rightarrow> bool \<Rightarrow> workerTask \<Rightarrow> WorkerPool \<Rightarrow> submit_error option \<times> WorkerPool" where
  "pool_Submit ctx_done pick task wp =
     (if \<not> WorkerPool_running wp then (Some PoolNotRunning, wp)
      else case chan_push task (WorkerPool_taskCh wp) of
             Some c \<Rightarrow> if ctx_done \<and> pick then (Some ContextDone, wp) else (None, wp\<lparr>WorkerPool_taskCh := c\<rparr>)
           | None \<Rightarrow> if ctx_done then (Some ContextDone, wp)
                     else (Some (QueueFull (PoolConfig_QueueLength (WorkerPool_cfg wp))), wp))"

definition pool_addError :: "string \<Rightarrow> WorkerPool \<Rightarrow> WorkerPool" where
  "pool_addError err wp =
     (let es = WorkerPool_errors wp @ [err]
      in wp\<lparr>WorkerPool_errors := (if 1000 < length es then drop (length es - 500) es else es)\<rparr>)"

definition updateMetrics :: "nat \<Rightarrow> gotime \<Rightarrow> gotime \<Rightarrow> string option chan \<Rightarrow> WorkerPool \<Rightarrow> WorkerPool" where
  "updateMetrics k start now resultCh wp =
     (let err = (case fst (chan_recv resultCh) of Received e \<Rightarrow> e | _ \<Rightarrow> None);
          w = WorkerPool_store wp ! k;
          m = \<lparr>WorkerMetrics_WorkerID = poolWorker_id w, WorkerMetrics_TasksProcessed = poolWorker_tasks w, WorkerMetrics_TasksSucceeded = 0,
               WorkerMetrics_TasksFailed = 0, WorkerMetrics_TasksRetried = 0, WorkerMetrics_TotalDuration = time_Sub now start,
               WorkerMetrics_AvgDuration = 0, WorkerMetrics_LastActivity = now, WorkerMetrics_IsBusy = False, WorkerMetrics_CurrentTaskID = [],
               WorkerMetrics_Panics = poolWorker_panics w\<rparr>;
          (m, wp) = (case err of Some e \<Rightarrow> (m\<lparr>WorkerMetrics_TasksFailed := 1\<rparr>, pool_addError e wp)
                                | None \<Rightarrow> (m\<lparr>WorkerMetrics_TasksSucceeded := 1\<rparr>, wp))
      in wp\<lparr>WorkerPool_metrics := gm_set (WorkerMetrics_WorkerID m) m (WorkerPool_metrics wp)\<rparr>)"

definition set_worker :: "nat \<Rightarrow> (poolWorker \<Rightarrow> poolWorker) \<Rightarrow> WorkerPool \<Rightarrow> WorkerPool" where
  "set_worker k f wp = wp\<lparr>WorkerPool_store := (WorkerPool_store wp)[k := f (WorkerPool_store wp ! k)]\<rparr>"

text \<open>
  A task without an envelope makes the worker panic before its cleanup is deferred. \<open>sent\<close> says that the select chose the channel, which
  has room for the one result, and not the context.
\<close>

definition pool_processTask :: "nat \<Rightarrow> workerTask \<Rightarrow> bool \<Rightarrow> gotime \<Rightarrow> gotime \<Rightarrow> WorkerPool \<Rightarrow> bool \<times> WorkerPool" where
  "pool_processTask k task sent start now wp =
     (let wp1 = set_worker k (\<lambda>w. w\<lparr>poolWorker_busy := True, poolWorker_tasks := i64 (poolWorker_tasks w + 1)\<rparr>) wp
      in case workerTask_env task of
           None \<Rightarrow> (False, wp1)
         | Some e \<Rightarrow>
             (let wp2 = set_worker k (\<lambda>w. w\<lparr>poolWorker_current := Envelope_ID e\<rparr>) wp1;
                  resultCh = \<lparr>chan_buf = (if sent then [None] else []), chan_cap = 1, chan_closed = True\<rparr>;
                  wp3 = set_worker k (\<lambda>w. w\<lparr>poolWorker_busy := False, poolWorker_lastTask := now, poolWorker_current := []\<rparr>) wp2
              in (True, updateMetrics k start now resultCh wp3)))"

text \<open>One round of the loop of a worker: it takes a task, if there is one, and ends with a panic of the task.\<close>

definition workerRun_round :: "nat \<Rightarrow> bool \<Rightarrow> gotime \<Rightarrow> gotime \<Rightarrow> WorkerPool \<Rightarrow> WorkerPool" where
  "workerRun_round k sent start now wp =
     (if cancelContext_done then wp\<lparr>WorkerPool_loops := removeAll k (WorkerPool_loops wp)\<rparr>
      else case chan_pop (WorkerPool_taskCh wp) of
             None \<Rightarrow> wp
           | Some (task, c) \<Rightarrow>
               (let (returned, wp1) = pool_processTask k task sent start now (wp\<lparr>WorkerPool_taskCh := c\<rparr>)
                in if returned then wp1
                   else (set_worker k (\<lambda>w. w\<lparr>poolWorker_panics := i64 (poolWorker_panics w + 1)\<rparr>) wp1)
                          \<lparr>WorkerPool_loops := removeAll k (WorkerPool_loops wp1)\<rparr>))"

section \<open>Supervision\<close>

text \<open>The removal waits for the lock that the check itself holds.\<close>

definition checkWorkerHealth :: "WorkerPool \<Rightarrow> WorkerPool option" where
  "checkWorkerHealth wp =
     (if \<exists>k\<in>set (WorkerPool_workers wp). 3 < poolWorker_panics (WorkerPool_store wp ! k) then None else Some wp)"

fun truncate_loop :: "nat \<Rightarrow> int \<Rightarrow> int \<Rightarrow> 'a list \<Rightarrow> 'a list" where
  "truncate_loop 0 removeFrom minWorkers ws = ws"
| "truncate_loop (Suc i) removeFrom minWorkers ws =
     (if removeFrom \<le> int i \<and> minWorkers \<le> int i then truncate_loop i removeFrom minWorkers (take i ws) else ws)"

definition scale_by :: "nat \<Rightarrow> int" where
  "scale_by tot = max 1 (int (tot div 4))"

text \<open>The queue's length is read first; without any worker the pool locks twice.\<close>

definition pool_scale :: "gotime \<Rightarrow> WorkerPool \<Rightarrow> WorkerPool option" where
  "pool_scale now wp =
     (let cfg = WorkerPool_cfg wp;
          tot = length (WorkerPool_workers wp);
          queueLen = length (chan_buf (WorkerPool_taskCh wp));
          capacity = chan_cap (WorkerPool_taskCh wp)
      in if tot = 0 then None
         else if 0 < capacity \<and> PoolConfig_ScaleUpFactor cfg \<le> of_nat queueLen / of_nat capacity \<and> int tot < PoolConfig_MaxWorkers cfg then
           (let n = scale_by tot;
                n = (if PoolConfig_MaxWorkers cfg < int tot + n then PoolConfig_MaxWorkers cfg - int tot else n)
            in Some ((addWorker now ^^ nat n) wp))
         else
           (let busyCount = length (filter (\<lambda>k. poolWorker_busy (WorkerPool_store wp ! k)) (WorkerPool_workers wp));
                idleRatio = of_nat (tot - busyCount) / of_nat tot
            in if PoolConfig_ScaleDownFactor cfg \<le> idleRatio \<and> PoolConfig_MinWorkers cfg < int tot \<and> queueLen = 0 then
                 (let removeFrom = int tot - scale_by tot;
                      removeFrom = (if removeFrom < PoolConfig_MinWorkers cfg then PoolConfig_MinWorkers cfg else removeFrom)
                  in Some (wp\<lparr>WorkerPool_workers := truncate_loop tot removeFrom (PoolConfig_MinWorkers cfg) (WorkerPool_workers wp)\<rparr>))
               else Some wp))"

section \<open>Queries\<close>

definition pool_Metrics :: "string ranger \<Rightarrow> WorkerPool \<Rightarrow> WorkerMetrics list" where
  "pool_Metrics rng wp = map snd (range_items rng 0 (WorkerPool_metrics wp))"

definition pool_PoolMetrics :: "WorkerPool \<Rightarrow> PoolMetrics" where
  "pool_PoolMetrics wp =
     (let tot = length (WorkerPool_workers wp);
          busy = length (filter (\<lambda>k. poolWorker_busy (WorkerPool_store wp ! k)) (WorkerPool_workers wp))
      in \<lparr>PoolMetrics_TotalWorkers = tot, PoolMetrics_BusyWorkers = busy, PoolMetrics_IdleWorkers = int tot - int busy,
          PoolMetrics_QueueDepth = length (chan_buf (WorkerPool_taskCh wp)), PoolMetrics_QueueCapacity = chan_cap (WorkerPool_taskCh wp)\<rparr>)"

definition pool_Errors :: "WorkerPool \<Rightarrow> string list" where
  "pool_Errors wp = WorkerPool_errors wp"

definition pool_IsRunning :: "WorkerPool \<Rightarrow> bool" where
  "pool_IsRunning wp = WorkerPool_running wp"

section \<open>Definitions for the statements\<close>

text \<open>What the goroutines of a running pool and its callers do, in any order.\<close>

inductive pool_step :: "WorkerPool \<Rightarrow> WorkerPool \<Rightarrow> bool" where
  submit: "pool_step wp (snd (pool_Submit ctx_done pick task wp))"
| round: "k \<in> set (WorkerPool_loops wp) \<Longrightarrow> pool_step wp (workerRun_round k sent start now wp)"
| health: "checkWorkerHealth wp = Some wp' \<Longrightarrow> pool_step wp wp'"
| scale: "pool_scale now wp = Some wp' \<Longrightarrow> pool_step wp wp'"

definition pool_inv :: "WorkerPool \<Rightarrow> bool" where
  "pool_inv wp \<longleftrightarrow>
     (let cfg = WorkerPool_cfg wp in
      1 \<le> PoolConfig_MinWorkers cfg \<and> PoolConfig_MinWorkers cfg \<le> int (length (WorkerPool_workers wp)) \<and>
      int (length (WorkerPool_workers wp)) \<le> PoolConfig_MaxWorkers cfg \<and>
      distinct (WorkerPool_workers wp) \<and> set (WorkerPool_workers wp) \<subseteq> {..<length (WorkerPool_store wp)} \<and>
      distinct (WorkerPool_loops wp) \<and> set (WorkerPool_loops wp) \<subseteq> {..<length (WorkerPool_store wp)} \<and>
      (\<forall>k<length (WorkerPool_store wp). poolWorker_panics (WorkerPool_store wp ! k) = (if k \<in> set (WorkerPool_loops wp) then 0 else 1)) \<and>
      length (chan_buf (WorkerPool_taskCh wp)) \<le> chan_cap (WorkerPool_taskCh wp) \<and> WorkerPool_errors wp = [] \<and> WorkerPool_running wp)"

text \<open>A small pool: one or two workers and a queue of one task.\<close>

definition small_config :: PoolConfig where
  "small_config = DefaultPoolConfig\<lparr>PoolConfig_MaxWorkers := 2, PoolConfig_QueueLength := 1\<rparr>"

definition small_task :: workerTask where
  "small_task = \<lparr>workerTask_msg = \<lparr>amqp_ConsumerTag = [], amqp_DeliveryTag = 0, amqp_Redelivered = False, amqp_Exchange = [],
     amqp_RoutingKey = [], amqp_Body = []\<rparr>, workerTask_env = Some zero_Envelope, workerTask_info = None\<rparr>"

text \<open>A small pool at rest, with \<open>n\<close> goroutines or more.\<close>

definition at_rest :: "nat \<Rightarrow> WorkerPool \<Rightarrow> bool" where
  "at_rest n wp \<longleftrightarrow> WorkerPool_cfg wp = small_config \<and> pool_inv wp \<and> length (WorkerPool_workers wp) = 1 \<and>
     chan_buf (WorkerPool_taskCh wp) = [] \<and> chan_cap (WorkerPool_taskCh wp) = 1 \<and> 0 < n \<and> n \<le> length (WorkerPool_loops wp) \<and>
     (\<forall>w\<in>set (WorkerPool_store wp). \<not> poolWorker_busy w)"

section \<open>Lemmas\<close>

lemma addWorker_simps [simp]:
  "WorkerPool_cfg (addWorker now wp) = WorkerPool_cfg wp" "WorkerPool_taskCh (addWorker now wp) = WorkerPool_taskCh wp"
  "WorkerPool_errors (addWorker now wp) = WorkerPool_errors wp" "WorkerPool_running (addWorker now wp) = WorkerPool_running wp"
  "WorkerPool_workers (addWorker now wp) = WorkerPool_workers wp @ [length (WorkerPool_store wp)]"
  "WorkerPool_loops (addWorker now wp) = WorkerPool_loops wp @ [length (WorkerPool_store wp)]"
  "length (WorkerPool_store (addWorker now wp)) = Suc (length (WorkerPool_store wp))"
  by (simp_all add: addWorker_def Let_def)

lemma addWorker_store:
  "k < length (WorkerPool_store wp) \<Longrightarrow> WorkerPool_store (addWorker now wp) ! k = WorkerPool_store wp ! k"
  "poolWorker_panics (WorkerPool_store (addWorker now wp) ! length (WorkerPool_store wp)) = 0"
  "poolWorker_busy (WorkerPool_store (addWorker now wp) ! length (WorkerPool_store wp)) = False"
  by (simp_all add: addWorker_def Let_def nth_append)

lemma addWorkers_simps [simp]:
  "WorkerPool_cfg ((addWorker now ^^ n) wp) = WorkerPool_cfg wp" "WorkerPool_taskCh ((addWorker now ^^ n) wp) = WorkerPool_taskCh wp"
  "WorkerPool_errors ((addWorker now ^^ n) wp) = WorkerPool_errors wp" "WorkerPool_running ((addWorker now ^^ n) wp) = WorkerPool_running wp"
  "length (WorkerPool_workers ((addWorker now ^^ n) wp)) = length (WorkerPool_workers wp) + n"
  "length (WorkerPool_loops ((addWorker now ^^ n) wp)) = length (WorkerPool_loops wp) + n"
  by (induction n) simp_all

text \<open>The part of the invariant that does not depend on the number of workers.\<close>

definition pool_store_inv :: "WorkerPool \<Rightarrow> bool" where
  "pool_store_inv wp \<longleftrightarrow>
     distinct (WorkerPool_workers wp) \<and> set (WorkerPool_workers wp) \<subseteq> {..<length (WorkerPool_store wp)} \<and>
     distinct (WorkerPool_loops wp) \<and> set (WorkerPool_loops wp) \<subseteq> {..<length (WorkerPool_store wp)} \<and>
     (\<forall>k<length (WorkerPool_store wp). poolWorker_panics (WorkerPool_store wp ! k) = (if k \<in> set (WorkerPool_loops wp) then 0 else 1))"

lemma pool_inv_store: "pool_inv wp \<longleftrightarrow> pool_store_inv wp \<and> 1 \<le> PoolConfig_MinWorkers (WorkerPool_cfg wp) \<and>
    PoolConfig_MinWorkers (WorkerPool_cfg wp) \<le> int (length (WorkerPool_workers wp)) \<and>
    int (length (WorkerPool_workers wp)) \<le> PoolConfig_MaxWorkers (WorkerPool_cfg wp) \<and>
    length (chan_buf (WorkerPool_taskCh wp)) \<le> chan_cap (WorkerPool_taskCh wp) \<and> WorkerPool_errors wp = [] \<and> WorkerPool_running wp"
  by (auto simp: pool_inv_def pool_store_inv_def Let_def)

lemma addWorker_store_inv: "pool_store_inv wp \<Longrightarrow> pool_store_inv (addWorker now wp)"
  by (auto simp: pool_store_inv_def addWorker_store less_Suc_eq)

lemma addWorkers_store_inv: "pool_store_inv wp \<Longrightarrow> pool_store_inv ((addWorker now ^^ n) wp)"
  by (induction n) (simp_all add: addWorker_store_inv)

lemma truncate_loop_take: "length ws = n \<Longrightarrow> 0 \<le> a \<Longrightarrow> truncate_loop n a b ws = take (nat (max a b)) ws"
proof (induction n arbitrary: ws)
  case (Suc n)
  have "truncate_loop n a b (take n ws) = take (nat (max a b)) (take n ws)" using Suc.prems by (intro Suc.IH) simp_all
  moreover have "nat (max a b) \<le> n \<longleftrightarrow> a \<le> int n \<and> b \<le> int n" by (simp add: nat_le_iff)
  ultimately show ?case using Suc.prems(1) by (auto simp: min_absorb1)
qed simp

lemma take_store_inv: "pool_store_inv wp \<Longrightarrow> pool_store_inv (wp\<lparr>WorkerPool_workers := take n (WorkerPool_workers wp)\<rparr>)"
  using set_take_subset [of n "WorkerPool_workers wp"] by (auto simp: pool_store_inv_def)

lemma pool_scale_inv:
  assumes "pool_inv wp"
  obtains wp' where "pool_scale now wp = Some wp'" "pool_inv wp'"
proof -
  let ?cfg = "WorkerPool_cfg wp" and ?tot = "length (WorkerPool_workers wp)"
  have inv: "pool_store_inv wp" "1 \<le> PoolConfig_MinWorkers ?cfg" "PoolConfig_MinWorkers ?cfg \<le> int ?tot"
    "int ?tot \<le> PoolConfig_MaxWorkers ?cfg" "length (chan_buf (WorkerPool_taskCh wp)) \<le> chan_cap (WorkerPool_taskCh wp)"
    "WorkerPool_errors wp = []" "WorkerPool_running wp"
    using assms by (auto simp: pool_inv_store)
  have up: "pool_inv ((addWorker now ^^ nat n) wp)" if "0 \<le> n" "int ?tot + n \<le> PoolConfig_MaxWorkers ?cfg" for n
    using inv that by (auto simp: pool_inv_store addWorkers_store_inv)
  have down: "pool_inv (wp\<lparr>WorkerPool_workers := truncate_loop ?tot a (PoolConfig_MinWorkers ?cfg) (WorkerPool_workers wp)\<rparr>)" if "0 \<le> a" for a
    using inv that by (auto simp: pool_inv_store truncate_loop_take take_store_inv)
  have "?tot \<noteq> 0" using inv by linarith
  then have "\<exists>wp'. pool_scale now wp = Some wp' \<and> pool_inv wp'"
    using up down inv assms by (auto simp: pool_scale_def Let_def scale_by_def)
  then show ?thesis using that by blast
qed

lemma pool_health_inv:
  assumes "pool_inv wp"
  shows "checkWorkerHealth wp = Some wp"
proof -
  have "poolWorker_panics (WorkerPool_store wp ! k) \<le> 1" if "k \<in> set (WorkerPool_workers wp)" for k
  proof -
    have "k < length (WorkerPool_store wp)" using assms that by (auto simp: pool_inv_store pool_store_inv_def)
    then show ?thesis using assms by (simp add: pool_inv_store pool_store_inv_def)
  qed
  then show ?thesis by (force simp: checkWorkerHealth_def)
qed

lemma set_worker_store_inv:
  assumes "pool_store_inv wp" and "\<And>w. poolWorker_panics (f w) = poolWorker_panics w"
  shows "pool_store_inv (set_worker k f wp)"
  using assms by (auto simp: pool_store_inv_def set_worker_def nth_update)

lemma set_worker_simps [simp]:
  "WorkerPool_cfg (set_worker k f wp) = WorkerPool_cfg wp" "WorkerPool_taskCh (set_worker k f wp) = WorkerPool_taskCh wp"
  "WorkerPool_errors (set_worker k f wp) = WorkerPool_errors wp" "WorkerPool_running (set_worker k f wp) = WorkerPool_running wp"
  "WorkerPool_workers (set_worker k f wp) = WorkerPool_workers wp" "WorkerPool_loops (set_worker k f wp) = WorkerPool_loops wp"
  by (simp_all add: set_worker_def)

text \<open>A result that is received is nil, so the metrics count a success and no error is kept.\<close>

lemma updateMetrics_simps [simp]:
  assumes "chan_buf c \<in> {[], [None]}"
  shows "WorkerPool_cfg (updateMetrics k start now c wp) = WorkerPool_cfg wp"
    and "WorkerPool_taskCh (updateMetrics k start now c wp) = WorkerPool_taskCh wp"
    and "WorkerPool_errors (updateMetrics k start now c wp) = WorkerPool_errors wp"
    and "WorkerPool_running (updateMetrics k start now c wp) = WorkerPool_running wp"
    and "WorkerPool_workers (updateMetrics k start now c wp) = WorkerPool_workers wp"
    and "WorkerPool_loops (updateMetrics k start now c wp) = WorkerPool_loops wp"
    and "WorkerPool_store (updateMetrics k start now c wp) = WorkerPool_store wp"
  using assms by (auto simp: updateMetrics_def chan_recv_def Let_def)

lemma store_inv_cong:
  "WorkerPool_workers wp' = WorkerPool_workers wp \<Longrightarrow> WorkerPool_loops wp' = WorkerPool_loops wp \<Longrightarrow> WorkerPool_store wp' = WorkerPool_store wp \<Longrightarrow>
    pool_store_inv wp' = pool_store_inv wp"
  by (simp add: pool_store_inv_def)

lemma pool_processTask_inv:
  assumes "pool_processTask k task sent start now wp = (b, wp')" and "pool_store_inv wp"
  shows "pool_store_inv wp'" and "WorkerPool_cfg wp' = WorkerPool_cfg wp" and "WorkerPool_taskCh wp' = WorkerPool_taskCh wp"
    and "WorkerPool_errors wp' = WorkerPool_errors wp" and "WorkerPool_running wp' = WorkerPool_running wp"
    and "WorkerPool_workers wp' = WorkerPool_workers wp" and "WorkerPool_loops wp' = WorkerPool_loops wp"
    and "b \<longleftrightarrow> workerTask_env task \<noteq> None"
proof -
  let ?wp1 = "set_worker k (\<lambda>w. w\<lparr>poolWorker_busy := True, poolWorker_tasks := i64 (poolWorker_tasks w + 1)\<rparr>) wp"
  have 1: "pool_store_inv ?wp1" using assms(2) by (intro set_worker_store_inv) simp_all
  let ?wp3 = "\<lambda>c. set_worker k (\<lambda>w. w\<lparr>poolWorker_busy := False, poolWorker_lastTask := now, poolWorker_current := []\<rparr>)
      (set_worker k (\<lambda>w. w\<lparr>poolWorker_current := c\<rparr>) ?wp1)"
  let ?ch = "\<lparr>chan_buf = (if sent then [None] else []), chan_cap = 1, chan_closed = True\<rparr>"
  have "pool_store_inv (set_worker k (\<lambda>w. w\<lparr>poolWorker_current := c\<rparr>) ?wp1)" for c by (rule set_worker_store_inv [OF 1]) simp
  then have 3: "pool_store_inv (?wp3 c)" for c by (rule set_worker_store_inv) simp
  have "pool_store_inv (updateMetrics k start now ?ch (?wp3 c))" for c
    using 3 [of c] by (subst store_inv_cong) simp_all
  then show "pool_store_inv wp'" using assms(1) 1 by (cases "workerTask_env task") (auto simp: pool_processTask_def Let_def)
  show "WorkerPool_cfg wp' = WorkerPool_cfg wp" "WorkerPool_taskCh wp' = WorkerPool_taskCh wp"
    "WorkerPool_errors wp' = WorkerPool_errors wp" "WorkerPool_running wp' = WorkerPool_running wp"
    "WorkerPool_workers wp' = WorkerPool_workers wp" "WorkerPool_loops wp' = WorkerPool_loops wp" "b \<longleftrightarrow> workerTask_env task \<noteq> None"
    using assms(1) by (auto simp: pool_processTask_def Let_def split: option.splits)
qed

lemma workerRun_round_inv:
  assumes "pool_inv wp" and "k \<in> set (WorkerPool_loops wp)"
  shows "pool_inv (workerRun_round k sent start now wp)"
proof (cases "chan_pop (WorkerPool_taskCh wp)")
  case None
  then show ?thesis using assms by (simp add: workerRun_round_def cancelContext_done_def)
next
  case (Some p)
  obtain task c where p: "chan_pop (WorkerPool_taskCh wp) = Some (task, c)" using Some by (cases p) simp
  obtain b wp1 where q: "pool_processTask k task sent start now (wp\<lparr>WorkerPool_taskCh := c\<rparr>) = (b, wp1)" by (meson prod.exhaust)
  have "pool_store_inv (wp\<lparr>WorkerPool_taskCh := c\<rparr>)" using assms(1) by (simp add: pool_inv_store store_inv_cong [of "wp\<lparr>WorkerPool_taskCh := c\<rparr>" wp])
  note wp1 = pool_processTask_inv [OF q this]
  have inv1: "pool_inv wp1" using assms(1) wp1 ch.pop_Some [OF p] by (auto simp: pool_inv_store)
  have k: "k < length (WorkerPool_store wp1)" "k \<in> set (WorkerPool_loops wp1)" using wp1 assms(2) by (auto simp: pool_store_inv_def)
  let ?wp2 = "(set_worker k (\<lambda>w. w\<lparr>poolWorker_panics := i64 (poolWorker_panics w + 1)\<rparr>) wp1)\<lparr>WorkerPool_loops := removeAll k (WorkerPool_loops wp1)\<rparr>"
  have "poolWorker_panics (WorkerPool_store wp1 ! k) = 0" using wp1(1) k by (simp add: pool_store_inv_def)
  then have "pool_store_inv ?wp2"
    using wp1(1) k by (auto simp: pool_store_inv_def set_worker_def nth_update i64_def distinct_removeAll)
  then have "pool_inv ?wp2" using inv1 by (simp add: pool_inv_store)
  with inv1 show ?thesis by (simp add: workerRun_round_def cancelContext_done_def p q)
qed

lemma pool_step_inv: "pool_step wp wp' \<Longrightarrow> pool_inv wp \<Longrightarrow> pool_inv wp' \<and> WorkerPool_cfg wp' = WorkerPool_cfg wp"
proof (induction rule: pool_step.induct)
  case (submit wp ctx_done pick task)
  then show ?case
    by (auto simp: pool_Submit_def pool_inv_store store_inv_cong [of "wp\<lparr>WorkerPool_taskCh := _\<rparr>" wp] chan_push_def split: option.splits if_splits)
next
  case (round k wp sent start now)
  have "WorkerPool_cfg (workerRun_round k sent start now wp) = WorkerPool_cfg wp"
    by (simp add: workerRun_round_def cancelContext_done_def pool_processTask_def Let_def case_prod_unfold split: option.splits)
  then show ?case using workerRun_round_inv round by blast
next
  case (health wp wp')
  then show ?case using pool_health_inv by simp
next
  case (scale now wp wp')
  have "WorkerPool_cfg wp' = WorkerPool_cfg wp"
    using scale(1) by (auto simp: pool_scale_def Let_def split: if_splits)
  then show ?case using pool_scale_inv [OF scale(2), of now] scale(1) by (metis option.inject)
qed

lemma pool_Start_inv:
  assumes "NewWorkerPool cfg = Return wp0"
  shows "pool_inv (pool_Start now wp0)" and "WorkerPool_cfg (pool_Start now wp0) = WorkerPool_cfg wp0"
proof -
  have wp0: "WorkerPool_store wp0 = []" "WorkerPool_workers wp0 = []" "WorkerPool_loops wp0 = []" "WorkerPool_errors wp0 = []"
    "1 \<le> PoolConfig_MinWorkers (WorkerPool_cfg wp0)" "PoolConfig_MinWorkers (WorkerPool_cfg wp0) \<le> PoolConfig_MaxWorkers (WorkerPool_cfg wp0)"
    "chan_buf (WorkerPool_taskCh wp0) = []"
    using assms by (auto simp: NewWorkerPool_def Let_def chan_make_def split: if_splits)
  then have "pool_store_inv (wp0\<lparr>WorkerPool_running := True\<rparr>)" by (simp add: pool_store_inv_def)
  then show "pool_inv (pool_Start now wp0)" using wp0 by (simp add: pool_inv_store pool_Start_def addWorkers_store_inv)
  show "WorkerPool_cfg (pool_Start now wp0) = WorkerPool_cfg wp0" by (simp add: pool_Start_def)
qed

lemma pool_reachable:
  "pool_step\<^sup>*\<^sup>* wp wp' \<Longrightarrow> pool_inv wp \<Longrightarrow> pool_inv wp' \<and> WorkerPool_cfg wp' = WorkerPool_cfg wp"
  by (induction rule: rtranclp_induct) (auto dest: pool_step_inv)

section \<open>Properties\<close>

text \<open>
  (C24) A running pool keeps its size: in every reachable state the number of its workers is between the configured bounds, the queue is within
  its capacity, no error is recorded, and neither the health check nor the scaling waits for a lock it holds.
\<close>

theorem pool_size:
  assumes "NewWorkerPool cfg = Return wp0" and "pool_step\<^sup>*\<^sup>* (pool_Start now wp0) wp"
  shows "PoolConfig_MinWorkers (WorkerPool_cfg wp0) \<le> int (length (WorkerPool_workers wp)) \<and>
    int (length (WorkerPool_workers wp)) \<le> PoolConfig_MaxWorkers (WorkerPool_cfg wp0) \<and>
    length (chan_buf (WorkerPool_taskCh wp)) \<le> chan_cap (WorkerPool_taskCh wp) \<and> pool_Errors wp = [] \<and>
    checkWorkerHealth wp = Some wp \<and> pool_scale t wp \<noteq> None"
proof -
  have inv: "pool_inv wp" "WorkerPool_cfg wp = WorkerPool_cfg wp0"
    using pool_reachable [OF assms(2)] pool_Start_inv [OF assms(1)] by simp_all
  then show ?thesis
    using pool_health_inv pool_scale_inv [OF inv(1), of t] by (auto simp: pool_inv_store pool_Errors_def)
qed

theorem pool_size_witness:
  "\<exists>wp0. NewWorkerPool small_config = Return wp0 \<and>
    length (WorkerPool_workers (snd (pool_Submit False False small_task (pool_Start 0 wp0)))) \<le> 2 \<and>
    chan_buf (WorkerPool_taskCh (snd (pool_Submit False False small_task (pool_Start 0 wp0)))) = [small_task]"
proof -
  obtain wp0 where wp0: "NewWorkerPool small_config = Return wp0" "PoolConfig_MaxWorkers (WorkerPool_cfg wp0) = 2"
      "chan_buf (WorkerPool_taskCh wp0) = []" "chan_cap (WorkerPool_taskCh wp0) = 1"
    by (simp add: NewWorkerPool_def small_config_def DefaultPoolConfig_def chan_make_def)
  have "pool_step\<^sup>*\<^sup>* (pool_Start 0 wp0) (snd (pool_Submit False False small_task (pool_Start 0 wp0)))"
    using pool_step.submit by (rule r_into_rtranclp)
  from pool_size [OF wp0(1) this, of 0] wp0(2)
  have "length (WorkerPool_workers (snd (pool_Submit False False small_task (pool_Start 0 wp0)))) \<le> 2" by simp
  moreover have "chan_buf (WorkerPool_taskCh (snd (pool_Submit False False small_task (pool_Start 0 wp0)))) = [small_task]"
    using wp0 by (simp add: pool_Submit_def chan_push_def pool_Start_def)
  ultimately show ?thesis using wp0(1) by blast
qed

lemma round_task:
  assumes "chan_pop (WorkerPool_taskCh wp) = Some (task, c)" and "workerTask_env task = Some e"
  shows "WorkerPool_cfg (workerRun_round k sent start now wp) = WorkerPool_cfg wp"
    and "WorkerPool_taskCh (workerRun_round k sent start now wp) = c"
    and "WorkerPool_workers (workerRun_round k sent start now wp) = WorkerPool_workers wp"
    and "WorkerPool_loops (workerRun_round k sent start now wp) = WorkerPool_loops wp"
    and "\<exists>w. WorkerPool_store (workerRun_round k sent start now wp) = (WorkerPool_store wp)[k := w] \<and> \<not> poolWorker_busy w"
proof -
  show "WorkerPool_cfg (workerRun_round k sent start now wp) = WorkerPool_cfg wp"
    "WorkerPool_taskCh (workerRun_round k sent start now wp) = c"
    "WorkerPool_workers (workerRun_round k sent start now wp) = WorkerPool_workers wp"
    "WorkerPool_loops (workerRun_round k sent start now wp) = WorkerPool_loops wp"
    using assms by (simp_all add: workerRun_round_def cancelContext_done_def pool_processTask_def Let_def)
  let ?f = "\<lambda>w. w\<lparr>poolWorker_busy := True, poolWorker_tasks := i64 (poolWorker_tasks w + 1)\<rparr>"
  let ?st = "(WorkerPool_store wp)[k := ?f (WorkerPool_store wp ! k)]"
  define ws where "ws = ?st[k := (?st ! k)\<lparr>poolWorker_current := Envelope_ID e\<rparr>] ! k"
  have "WorkerPool_store (workerRun_round k sent start now wp) =
      (WorkerPool_store wp)[k := ws\<lparr>poolWorker_busy := False, poolWorker_lastTask := now, poolWorker_current := []\<rparr>]"
    unfolding ws_def using assms
    by (simp add: workerRun_round_def cancelContext_done_def pool_processTask_def Let_def set_worker_def del: list_update_overwrite)
      (simp only: list_update_overwrite)
  then show "\<exists>w. WorkerPool_store (workerRun_round k sent start now wp) = (WorkerPool_store wp)[k := w] \<and> \<not> poolWorker_busy w"
    by (intro exI [of _ "ws\<lparr>poolWorker_busy := False, poolWorker_lastTask := now, poolWorker_current := []\<rparr>"] conjI) simp_all
qed

lemma rest_cycle:
  assumes "at_rest n wp"
  shows "\<exists>wp'. pool_step\<^sup>*\<^sup>* wp wp' \<and> at_rest (Suc n) wp'"
proof -
  note rest = assms [unfolded at_rest_def]
  let ?c = "WorkerPool_taskCh wp"
  define wp1 where "wp1 = wp\<lparr>WorkerPool_taskCh := ?c\<lparr>chan_buf := [small_task]\<rparr>\<rparr>"
  define wp2 where "wp2 = addWorker 0 wp1"
  define k where "k = hd (WorkerPool_loops wp2)"
  define wp3 where "wp3 = workerRun_round k True 0 0 wp2"
  define wp4 where "wp4 = wp3\<lparr>WorkerPool_workers := take 1 (WorkerPool_workers wp3)\<rparr>"
  have s1: "pool_step wp wp1"
    using pool_step.submit [of wp False False small_task] rest by (simp add: wp1_def pool_Submit_def chan_push_def pool_inv_store)
  have s2: "pool_step wp1 wp2"
    using rest by (intro pool_step.scale [of 0])
      (simp add: wp2_def wp1_def pool_scale_def Let_def small_config_def DefaultPoolConfig_def scale_by_def)
  have k: "k \<in> set (WorkerPool_loops wp2)" unfolding k_def by (rule hd_in_set) (simp add: wp2_def)
  have s3: "pool_step wp2 wp3" unfolding wp3_def by (rule pool_step.round [OF k])
  have inv2: "pool_inv wp2" using rest pool_step_inv [OF s1] pool_step_inv [OF s2] by blast
  have inv3: "pool_inv wp3" using pool_step_inv [OF s3 inv2] by blast
  have c2: "WorkerPool_cfg wp2 = small_config" "WorkerPool_taskCh wp2 = ?c\<lparr>chan_buf := [small_task]\<rparr>"
    "length (WorkerPool_workers wp2) = 2" "length (WorkerPool_loops wp2) = Suc (length (WorkerPool_loops wp))"
    using rest by (simp_all add: wp2_def wp1_def)
  have b2: "\<forall>w\<in>set (WorkerPool_store wp2). \<not> poolWorker_busy w"
    using rest by (auto simp: wp2_def wp1_def addWorker_def Let_def)
  have pop: "chan_pop (WorkerPool_taskCh wp2) = Some (small_task, ?c)" "workerTask_env small_task = Some zero_Envelope"
    using rest c2(2) by (simp_all add: chan_pop_def chan_recv_def small_task_def)
  note r = round_task [OF pop, of k True 0 0, folded wp3_def]
  have c3: "WorkerPool_cfg wp3 = small_config" "WorkerPool_taskCh wp3 = ?c" "WorkerPool_workers wp3 = WorkerPool_workers wp2"
    "WorkerPool_loops wp3 = WorkerPool_loops wp2" by (simp_all add: r c2(1))
  obtain w where w: "WorkerPool_store wp3 = (WorkerPool_store wp2)[k := w]" "\<not> poolWorker_busy w" using r(5) by blast
  have b3: "\<forall>w\<in>set (WorkerPool_store wp3). \<not> poolWorker_busy w"
    using b2 w(2) set_update_subset_insert [of "WorkerPool_store wp2" k w] unfolding w(1) by auto
  have "filter (\<lambda>j. poolWorker_busy (WorkerPool_store wp3 ! j)) (WorkerPool_workers wp3) = []"
    using b3 inv3 by (auto simp: filter_empty_conv pool_inv_store pool_store_inv_def)
  then have "pool_scale 0 wp3 = Some wp4"
    using c2(3) c3 rest by (simp add: pool_scale_def Let_def wp4_def small_config_def DefaultPoolConfig_def scale_by_def truncate_loop_take)
  then have s4: "pool_step wp3 wp4" by (rule pool_step.scale)
  have "at_rest (Suc n) wp4"
    using pool_step_inv [OF s4 inv3] rest c2 c3 b3 by (simp add: at_rest_def wp4_def)
  moreover have "pool_step\<^sup>*\<^sup>* wp wp4" using s1 s2 s3 s4 by (meson converse_rtranclp_into_rtranclp rtranclp.rtrancl_refl)
  ultimately show ?thesis by blast
qed

text \<open>
  (C25) Scaling down ends no goroutine, and neither does stopping the pool: there is a configuration with at most two workers for which every
  number of goroutines is exceeded in some reachable state, all of them still running after the pool was stopped.
\<close>

theorem pool_goroutines_leak:
  "\<exists>wp0. NewWorkerPool small_config = Return wp0 \<and> PoolConfig_MaxWorkers (WorkerPool_cfg wp0) = 2 \<and>
    (\<forall>n. \<exists>wp. pool_step\<^sup>*\<^sup>* (pool_Start 0 wp0) wp \<and> length (WorkerPool_workers wp) = 1 \<and> n \<le> length (WorkerPool_loops wp) \<and>
      n \<le> length (WorkerPool_loops (pool_Stop wp)))"
proof -
  obtain wp0 where wp0: "NewWorkerPool small_config = Return wp0" "WorkerPool_cfg wp0 = small_config"
      "WorkerPool_workers wp0 = []" "WorkerPool_loops wp0 = []" "WorkerPool_store wp0 = []" "WorkerPool_taskCh wp0 = chan_make 1"
    by (simp add: NewWorkerPool_def small_config_def DefaultPoolConfig_def)
  have "nat (PoolConfig_MinWorkers small_config) = 1" by (simp add: small_config_def DefaultPoolConfig_def)
  then have start: "at_rest 1 (pool_Start 0 wp0)"
    using pool_Start_inv [OF wp0(1), of 0] wp0(2-6) by (simp add: at_rest_def pool_Start_def chan_make_def addWorker_def Let_def)
  have "\<exists>wp. pool_step\<^sup>*\<^sup>* (pool_Start 0 wp0) wp \<and> at_rest (Suc n) wp" for n
  proof (induction n)
    case 0
    then show ?case using start by auto
  next
    case (Suc n)
    then obtain wp where "pool_step\<^sup>*\<^sup>* (pool_Start 0 wp0) wp" "at_rest (Suc n) wp" by blast
    then show ?case using rest_cycle [of "Suc n" wp] by (meson rtranclp_trans)
  qed
  moreover have "length (WorkerPool_workers wp) = 1 \<and> n \<le> length (WorkerPool_loops wp) \<and> n \<le> length (WorkerPool_loops (pool_Stop wp))"
    if "at_rest (Suc n) wp" for n wp
    using that by (simp add: at_rest_def pool_Stop_def)
  moreover have "PoolConfig_MaxWorkers (WorkerPool_cfg wp0) = 2" by (simp add: wp0(2) small_config_def)
  ultimately show ?thesis using wp0(1) by blast
qed

end
