(* ===== verification/Worker_Health.thy ===== *)
theory Worker_Health
  imports Worker_Pool
begin

text \<open>
  The health reports of \<^verbatim>\<open>internal/worker/health.go\<close> on a worker pool. The check of the broker and the figures of the Go
  runtime are arguments; the rendering of a report as JSON is left out.
\<close>

section \<open>Data\<close>

datatype HealthStatus = HealthStatusHealthy | HealthStatusDegraded | HealthStatusUnhealthy

record ComponentHealth =
  ComponentHealth_Name :: string
  ComponentHealth_Status :: HealthStatus
  ComponentHealth_Message :: string
  ComponentHealth_LastCheck :: gotime
  ComponentHealth_Latency :: dur

record HealthMetrics =
  HealthMetrics_TasksProcessed :: int
  HealthMetrics_TasksSucceeded :: int
  HealthMetrics_TasksFailed :: int
  HealthMetrics_TasksRetried :: int
  HealthMetrics_ActiveWorkers :: nat
  HealthMetrics_IdleWorkers :: int
  HealthMetrics_QueueDepth :: nat
  HealthMetrics_QueueCapacity :: nat
  HealthMetrics_AvgProcessTime :: rat
  HealthMetrics_ErrorRate :: rat
  HealthMetrics_PanicCount :: int

record SystemInfo =
  SystemInfo_GoVersion :: string
  SystemInfo_NumCPU :: int
  SystemInfo_NumGoroutine :: int
  SystemInfo_MemoryAllocMB :: rat
  SystemInfo_MemoryTotalMB :: rat
  SystemInfo_MemorySysMB :: rat
  SystemInfo_GCStats :: string

record WorkerHealthReport =
  HealthReport_WorkerID :: string
  HealthReport_Hostname :: string
  HealthReport_Status :: HealthStatus
  HealthReport_Uptime :: dur
  HealthReport_StartedAt :: gotime
  HealthReport_LastHeartbeat :: gotime
  HealthReport_Components :: "ComponentHealth list"
  HealthReport_Metrics :: HealthMetrics
  HealthReport_System :: SystemInfo

record HealthReporter =
  HealthReporter_workerID :: string
  HealthReporter_hostname :: string
  HealthReporter_startedAt :: gotime
  HealthReporter_lastReport :: "WorkerHealthReport option"
  HealthReporter_heartbeats :: int

text \<open>The runtime: its version, the number of processors and goroutines, and three sizes in bytes.\<close>

record runtime_info =
  runtime_Version :: string
  runtime_NumCPU :: int
  runtime_NumGoroutine :: int
  runtime_Alloc :: nat
  runtime_TotalAlloc :: nat
  runtime_Sys :: nat

section \<open>Operations\<close>

definition NewHealthReporter :: "string \<Rightarrow> string \<Rightarrow> gotime \<Rightarrow> HealthReporter" where
  "NewHealthReporter workerID hostname now =
     \<lparr>HealthReporter_workerID = workerID, HealthReporter_hostname = hostname, HealthReporter_startedAt = now,
      HealthReporter_lastReport = None, HealthReporter_heartbeats = 0\<rparr>"

definition checkRabbitMQ :: "gotime \<Rightarrow> gotime \<Rightarrow> string option \<Rightarrow> ComponentHealth" where
  "checkRabbitMQ start now err =
     (let (status, msg) = (case err of None \<Rightarrow> (HealthStatusHealthy, [])
                                      | Some e \<Rightarrow> (HealthStatusUnhealthy, ''rabbitmq health check failed: '' @ e))
      in \<lparr>ComponentHealth_Name = ''rabbitmq'', ComponentHealth_Status = status, ComponentHealth_Message = msg,
          ComponentHealth_LastCheck = now, ComponentHealth_Latency = time_Sub now start\<rparr>)"

definition checkComponents :: "gotime \<Rightarrow> gotime \<Rightarrow> string option \<Rightarrow> WorkerPool \<Rightarrow> ComponentHealth list" where
  "checkComponents start now rmq_err wp =
     (let pm = pool_PoolMetrics wp;
          (poolStatus, poolMsg) =
            (if PoolMetrics_TotalWorkers pm = 0 then (HealthStatusUnhealthy, ''no workers running'')
             else if 95 / 100 < (of_nat (PoolMetrics_BusyWorkers pm) / of_nat (PoolMetrics_TotalWorkers pm) :: rat)
             then (HealthStatusDegraded, ''worker pool near capacity'')
             else (HealthStatusHealthy, []))
      in [checkRabbitMQ start now rmq_err,
          \<lparr>ComponentHealth_Name = ''worker_pool'', ComponentHealth_Status = poolStatus, ComponentHealth_Message = poolMsg,
           ComponentHealth_LastCheck = now, ComponentHealth_Latency = 0\<rparr>] @
         (if pool_IsRunning wp then []
          else [\<lparr>ComponentHealth_Name = ''pool_runner'', ComponentHealth_Status = HealthStatusUnhealthy,
                 ComponentHealth_Message = ''worker pool is not running'', ComponentHealth_LastCheck = now, ComponentHealth_Latency = 0\<rparr>]))"

fun aggregate_from :: "bool \<Rightarrow> ComponentHealth list \<Rightarrow> HealthStatus" where
  "aggregate_from hasDegraded [] = (if hasDegraded then HealthStatusDegraded else HealthStatusHealthy)"
| "aggregate_from hasDegraded (c # cs) =
     (if ComponentHealth_Status c = HealthStatusUnhealthy then HealthStatusUnhealthy
      else aggregate_from (hasDegraded \<or> ComponentHealth_Status c = HealthStatusDegraded) cs)"

definition aggregateStatus :: "ComponentHealth list \<Rightarrow> HealthStatus" where
  "aggregateStatus components = aggregate_from False components"

definition sum64 :: "int list \<Rightarrow> int" where
  "sum64 xs = fold (\<lambda>x acc. i64 (acc + x)) xs 0"

definition collectMetrics :: "string ranger \<Rightarrow> WorkerPool \<Rightarrow> HealthMetrics" where
  "collectMetrics rng wp =
     (let pm = pool_PoolMetrics wp;
          wms = pool_Metrics rng wp;
          totalProcessed = sum64 (map WorkerMetrics_TasksProcessed wms);
          totalFailed = sum64 (map WorkerMetrics_TasksFailed wms);
          totalDuration = (\<Sum>m\<leftarrow>wms. (of_int (WorkerMetrics_AvgDuration m) / of_int Second) * 1000);
          avgProcessTime = (if 0 < totalProcessed then totalDuration / of_nat (length wms) else 0);
          errorRate = (if 0 < totalProcessed then of_int totalFailed / of_int totalProcessed * 100 else 0)
      in \<lparr>HealthMetrics_TasksProcessed = totalProcessed, HealthMetrics_TasksSucceeded = sum64 (map WorkerMetrics_TasksSucceeded wms),
          HealthMetrics_TasksFailed = totalFailed, HealthMetrics_TasksRetried = sum64 (map WorkerMetrics_TasksRetried wms),
          HealthMetrics_ActiveWorkers = PoolMetrics_BusyWorkers pm, HealthMetrics_IdleWorkers = PoolMetrics_IdleWorkers pm,
          HealthMetrics_QueueDepth = PoolMetrics_QueueDepth pm, HealthMetrics_QueueCapacity = PoolMetrics_QueueCapacity pm,
          HealthMetrics_AvgProcessTime = avgProcessTime, HealthMetrics_ErrorRate = errorRate,
          HealthMetrics_PanicCount = sum64 (map WorkerMetrics_Panics wms)\<rparr>)"

definition collectSystemInfo :: "runtime_info \<Rightarrow> SystemInfo" where
  "collectSystemInfo r =
     \<lparr>SystemInfo_GoVersion = runtime_Version r, SystemInfo_NumCPU = runtime_NumCPU r, SystemInfo_NumGoroutine = runtime_NumGoroutine r,
      SystemInfo_MemoryAllocMB = of_nat (runtime_Alloc r) / 1024 / 1024, SystemInfo_MemoryTotalMB = of_nat (runtime_TotalAlloc r) / 1024 / 1024,
      SystemInfo_MemorySysMB = of_nat (runtime_Sys r) / 1024 / 1024, SystemInfo_GCStats = []\<rparr>"

definition ReportHealth ::
  "string ranger \<Rightarrow> gotime \<Rightarrow> gotime \<Rightarrow> string option \<Rightarrow> runtime_info \<Rightarrow> WorkerPool \<Rightarrow> HealthReporter \<Rightarrow> WorkerHealthReport \<times> HealthReporter" where
  "ReportHealth rng start now rmq_err r wp hr =
     (let components = checkComponents start now rmq_err wp;
          report = \<lparr>HealthReport_WorkerID = HealthReporter_workerID hr, HealthReport_Hostname = HealthReporter_hostname hr,
            HealthReport_Status = aggregateStatus components, HealthReport_Uptime = time_Sub now (HealthReporter_startedAt hr),
            HealthReport_StartedAt = HealthReporter_startedAt hr, HealthReport_LastHeartbeat = now, HealthReport_Components = components,
            HealthReport_Metrics = collectMetrics rng wp, HealthReport_System = collectSystemInfo r\<rparr>
      in (report, hr\<lparr>HealthReporter_heartbeats := i64 (HealthReporter_heartbeats hr + 1), HealthReporter_lastReport := Some report\<rparr>))"

definition LastReport :: "HealthReporter \<Rightarrow> WorkerHealthReport option" where
  "LastReport hr = HealthReporter_lastReport hr"

definition HeartbeatCount :: "HealthReporter \<Rightarrow> int" where
  "HeartbeatCount hr = HealthReporter_heartbeats hr"

text \<open>Some figures of a runtime.\<close>

definition small_runtime :: runtime_info where
  "small_runtime = \<lparr>runtime_Version = ''go1.21'', runtime_NumCPU = 1, runtime_NumGoroutine = 2, runtime_Alloc = 1024, runtime_TotalAlloc = 2048,
     runtime_Sys = 4096\<rparr>"

section \<open>Lemmas\<close>

lemma aggregate_from_spec:
  "aggregate_from d cs =
     (if HealthStatusUnhealthy \<in> set (map ComponentHealth_Status cs) then HealthStatusUnhealthy
      else if d \<or> HealthStatusDegraded \<in> set (map ComponentHealth_Status cs) then HealthStatusDegraded else HealthStatusHealthy)"
  by (induction cs arbitrary: d) auto

text \<open>What the metrics of a pool can show.\<close>

definition metrics_blind :: "WorkerPool \<Rightarrow> bool" where
  "metrics_blind wp \<longleftrightarrow> (\<forall>(k, m) \<in> set (WorkerPool_metrics wp). WorkerMetrics_TasksFailed m = 0 \<and> WorkerMetrics_TasksRetried m = 0 \<and>
     WorkerMetrics_AvgDuration m = 0 \<and> WorkerMetrics_Panics m = 0) \<and> gm_inv (WorkerPool_metrics wp)"

lemma metrics_blind_cong: "WorkerPool_metrics wp' = WorkerPool_metrics wp \<Longrightarrow> metrics_blind wp' = metrics_blind wp"
  by (simp add: metrics_blind_def)

lemma set_worker_metrics [simp]: "WorkerPool_metrics (set_worker k f wp) = WorkerPool_metrics wp"
  by (simp add: set_worker_def)

lemma addWorkers_metrics [simp]: "WorkerPool_metrics ((addWorker now ^^ n) wp) = WorkerPool_metrics wp"
  by (induction n) (simp_all add: addWorker_def Let_def)

lemma updateMetrics_blind:
  assumes "metrics_blind wp" and "chan_buf c \<in> {[], [None]}" and "poolWorker_panics (WorkerPool_store wp ! k) = 0"
  shows "metrics_blind (updateMetrics k start now c wp)"
proof -
  define m where "m = \<lparr>WorkerMetrics_WorkerID = poolWorker_id (WorkerPool_store wp ! k), WorkerMetrics_TasksProcessed = poolWorker_tasks (WorkerPool_store wp ! k),
    WorkerMetrics_TasksSucceeded = 1, WorkerMetrics_TasksFailed = 0, WorkerMetrics_TasksRetried = 0, WorkerMetrics_TotalDuration = time_Sub now start,
    WorkerMetrics_AvgDuration = 0, WorkerMetrics_LastActivity = now, WorkerMetrics_IsBusy = False, WorkerMetrics_CurrentTaskID = [], WorkerMetrics_Panics = 0\<rparr>"
  have "WorkerPool_metrics (updateMetrics k start now c wp) = gm_set (WorkerMetrics_WorkerID m) m (WorkerPool_metrics wp)"
    using assms(2,3) by (auto simp: updateMetrics_def chan_recv_def Let_def m_def)
  then show ?thesis
    using assms(1) set_gm_set [of "WorkerMetrics_WorkerID m" m "WorkerPool_metrics wp"]
    by (auto simp: metrics_blind_def gm.inv_put m_def)
qed

lemma set_worker_panics:
  "(\<And>w. poolWorker_panics (f w) = poolWorker_panics w) \<Longrightarrow> poolWorker_panics (WorkerPool_store (set_worker k f wp) ! k) = poolWorker_panics (WorkerPool_store wp ! k)"
  by (cases "k < length (WorkerPool_store wp)") (simp_all add: set_worker_def list_update_beyond)

lemma processTask_blind:
  assumes "metrics_blind wp" and "poolWorker_panics (WorkerPool_store wp ! k) = 0"
  shows "metrics_blind (snd (pool_processTask k task sent start now wp))"
proof (cases "workerTask_env task")
  case None
  then show ?thesis using assms(1) by (simp add: pool_processTask_def Let_def metrics_blind_cong [of "set_worker _ _ wp" wp])
next
  case (Some e)
  show ?thesis
    unfolding pool_processTask_def Some Let_def option.case snd_conv
    by (rule updateMetrics_blind) (use assms in \<open>simp_all add: metrics_blind_cong [of "set_worker _ _ _"] set_worker_panics\<close>)
qed

lemma round_blind:
  assumes "pool_inv wp" and "k \<in> set (WorkerPool_loops wp)" and "metrics_blind wp"
  shows "metrics_blind (workerRun_round k sent start now wp)"
proof (cases "chan_pop (WorkerPool_taskCh wp)")
  case None
  then show ?thesis using assms by (simp add: workerRun_round_def cancelContext_done_def)
next
  case (Some p)
  obtain task c where p: "p = (task, c)" by (cases p)
  let ?wp = "wp\<lparr>WorkerPool_taskCh := c\<rparr>"
  have "k < length (WorkerPool_store wp)" using assms(1,2) by (auto simp: pool_inv_store pool_store_inv_def)
  then have "poolWorker_panics (WorkerPool_store ?wp ! k) = 0" using assms(1,2) by (simp add: pool_inv_store pool_store_inv_def)
  then have b: "metrics_blind (snd (pool_processTask k task sent start now ?wp))"
    using assms(3) by (intro processTask_blind) (simp_all add: metrics_blind_cong [of ?wp wp])
  obtain returned wp1 where q: "pool_processTask k task sent start now ?wp = (returned, wp1)" by (meson prod.exhaust)
  have "metrics_blind wp1" using b q by simp
  then show ?thesis
    by (simp add: workerRun_round_def cancelContext_done_def Some p q metrics_blind_cong [of "(set_worker _ _ wp1)\<lparr>WorkerPool_loops := _\<rparr>" wp1])
qed

lemma pool_step_blind: "pool_step wp wp' \<Longrightarrow> pool_inv wp \<Longrightarrow> metrics_blind wp \<Longrightarrow> metrics_blind wp'"
proof (induction rule: pool_step.induct)
  case (submit wp ctx_done pick task)
  have "WorkerPool_metrics (snd (pool_Submit ctx_done pick task wp)) = WorkerPool_metrics wp"
    by (auto simp: pool_Submit_def split: option.splits)
  then show ?case using submit by (simp add: metrics_blind_def)
next
  case (round k wp sent start now)
  then show ?case using round_blind by blast
next
  case (health wp wp')
  then show ?case using pool_health_inv by simp
next
  case (scale now wp wp')
  have "WorkerPool_metrics wp' = WorkerPool_metrics wp" using scale(1) by (auto simp: pool_scale_def Let_def split: if_splits)
  then show ?case using scale by (simp add: metrics_blind_def)
qed

lemma pool_blind:
  assumes "NewWorkerPool cfg = Return wp0" and "pool_step\<^sup>*\<^sup>* (pool_Start now wp0) wp"
  shows "metrics_blind wp"
  using assms(2)
proof (induction rule: rtranclp_induct)
  case base
  have "WorkerPool_metrics wp0 = gm_empty" using assms(1) by (auto simp: NewWorkerPool_def Let_def split: if_splits)
  then show ?case by (simp add: metrics_blind_def pool_Start_def gm_laws) (simp add: gm_empty_def)
next
  case (step y z)
  then show ?case
    using pool_step_blind pool_reachable [OF step(1)] pool_Start_inv [OF assms(1), of now] by blast
qed

lemma sum64_zero: "\<forall>x\<in>set xs. x = 0 \<Longrightarrow> sum64 xs = 0"
proof -
  assume "\<forall>x\<in>set xs. x = 0"
  then have "fold (\<lambda>x acc. i64 (acc + x)) xs 0 = 0" by (induction xs) (simp_all add: i64_def)
  then show ?thesis by (simp add: sum64_def)
qed

section \<open>Properties\<close>

text \<open>
  The reports are right about the state of a running pool: a report calls the worker unhealthy exactly if the check of the broker failed,
  and otherwise degraded exactly if more than 95 percent of the workers are busy.
\<close>

theorem health_status:
  assumes "NewWorkerPool cfg = Return wp0" and "pool_step\<^sup>*\<^sup>* (pool_Start t wp0) wp"
  shows "HealthReport_Status (fst (ReportHealth rng start now rmq_err r wp hr)) =
    (if rmq_err \<noteq> None then HealthStatusUnhealthy
     else if 95 * PoolMetrics_TotalWorkers (pool_PoolMetrics wp) < 100 * PoolMetrics_BusyWorkers (pool_PoolMetrics wp) then HealthStatusDegraded
     else HealthStatusHealthy)"
proof -
  let ?t = "PoolMetrics_TotalWorkers (pool_PoolMetrics wp)" and ?b = "PoolMetrics_BusyWorkers (pool_PoolMetrics wp)"
  have "pool_inv wp" using pool_reachable [OF assms(2)] pool_Start_inv [OF assms(1)] by blast
  then have inv: "0 < ?t" "pool_IsRunning wp" by (auto simp: pool_inv_store pool_PoolMetrics_def Let_def pool_IsRunning_def)
  have "95 / 100 < (of_nat ?b / of_nat ?t :: rat) \<longleftrightarrow> of_nat (95 * ?t) < (of_nat (100 * ?b) :: rat)"
    using inv(1) by (simp add: field_simps)
  also have "\<dots> \<longleftrightarrow> 95 * ?t < 100 * ?b" by (rule of_nat_less_iff)
  finally have "95 / 100 < (of_nat ?b / of_nat ?t :: rat) \<longleftrightarrow> 95 * ?t < 100 * ?b" .
  then have "map ComponentHealth_Status (checkComponents start now rmq_err wp) =
      [if rmq_err = None then HealthStatusHealthy else HealthStatusUnhealthy, if 95 * ?t < 100 * ?b then HealthStatusDegraded else HealthStatusHealthy]"
    using inv by (simp add: checkComponents_def checkRabbitMQ_def Let_def split: option.split)
  then show ?thesis by (cases rmq_err) (simp_all add: ReportHealth_def Let_def aggregateStatus_def aggregate_from_spec del: set_map)
qed

theorem health_status_witness:
  "\<exists>wp0. NewWorkerPool small_config = Return wp0 \<and>
    HealthReport_Status (fst (ReportHealth (\<lambda>i ks. ks) 0 1 (Some ''down'') small_runtime (pool_Start 0 wp0) (NewHealthReporter ''w'' ''h'' 0))) = HealthStatusUnhealthy"
proof -
  obtain wp0 where wp0: "NewWorkerPool small_config = Return wp0" by (simp add: NewWorkerPool_def small_config_def DefaultPoolConfig_def)
  from health_status [OF wp0 rtranclp.rtrancl_refl, where rmq_err = "Some ''down''"] wp0 show ?thesis by auto
qed

text \<open>
  (C26) The reports are blind to failures: whatever tasks the pool was given, and whatever panics they caused, the failed and retried tasks, the
  panics, the rate of errors and the average time of a report are zero.
\<close>

theorem health_metrics_blind:
  assumes "NewWorkerPool cfg = Return wp0" and "pool_step\<^sup>*\<^sup>* (pool_Start t wp0) wp" and "ranger_ok rng"
  shows "let m = HealthReport_Metrics (fst (ReportHealth rng start now rmq_err r wp hr)) in
    HealthMetrics_TasksFailed m = 0 \<and> HealthMetrics_TasksRetried m = 0 \<and> HealthMetrics_PanicCount m = 0 \<and>
    HealthMetrics_ErrorRate m = 0 \<and> HealthMetrics_AvgProcessTime m = 0"
proof -
  have blind: "metrics_blind wp" using pool_blind [OF assms(1,2)] .
  have wms: "WorkerMetrics_TasksFailed x = 0 \<and> WorkerMetrics_TasksRetried x = 0 \<and> WorkerMetrics_AvgDuration x = 0 \<and> WorkerMetrics_Panics x = 0"
    if x: "x \<in> set (pool_Metrics rng wp)" for x
  proof -
    have inv: "gm_inv (WorkerPool_metrics wp)" using blind by (simp add: metrics_blind_def)
    obtain k where "(k, x) \<in> set (range_items rng 0 (WorkerPool_metrics wp))" using x by (auto simp: pool_Metrics_def)
    then have "(k, x) \<in> set (WorkerPool_metrics wp)"
      unfolding set_range_items [OF assms(3) inv] gm_get_mem [OF inv] by simp
    then show ?thesis using blind by (auto simp: metrics_blind_def)
  qed
  have "sum64 (map WorkerMetrics_TasksFailed (pool_Metrics rng wp)) = 0" "sum64 (map WorkerMetrics_TasksRetried (pool_Metrics rng wp)) = 0"
    "sum64 (map WorkerMetrics_Panics (pool_Metrics rng wp)) = 0"
    by (rule sum64_zero, simp add: wms)+
  moreover have "(\<Sum>x\<leftarrow>pool_Metrics rng wp. (of_int (WorkerMetrics_AvgDuration x) / of_int Second) * 1000 :: rat) = 0"
    using wms by (simp add: sum_list_0 cong: map_cong)
  ultimately show ?thesis by (simp add: ReportHealth_def collectMetrics_def Let_def)
qed

theorem health_metrics_blind_witness:
  "\<exists>wp0. NewWorkerPool small_config = Return wp0 \<and>
    HealthMetrics_PanicCount (HealthReport_Metrics (fst (ReportHealth (\<lambda>i ks. ks) 0 1 None small_runtime
      (workerRun_round 0 True 0 0 (snd (pool_Submit False False (small_task\<lparr>workerTask_env := None\<rparr>) (pool_Start 0 wp0))))
      (NewHealthReporter ''w'' ''h'' 0)))) = 0"
proof -
  obtain wp0 where wp0: "NewWorkerPool small_config = Return wp0" "WorkerPool_loops (pool_Start 0 wp0) = [0]"
    by (simp add: NewWorkerPool_def small_config_def DefaultPoolConfig_def pool_Start_def addWorker_def Let_def)
  let ?wp1 = "snd (pool_Submit False False (small_task\<lparr>workerTask_env := None\<rparr>) (pool_Start 0 wp0))"
  have "WorkerPool_loops ?wp1 = [0]" using wp0(2) by (simp add: pool_Submit_def split: option.splits)
  then have "pool_step ?wp1 (workerRun_round 0 True 0 0 ?wp1)" by (intro pool_step.round) simp
  then have "pool_step\<^sup>*\<^sup>* (pool_Start 0 wp0) (workerRun_round 0 True 0 0 ?wp1)"
    using pool_step.submit by (meson converse_rtranclp_into_rtranclp rtranclp.rtrancl_refl)
  from health_metrics_blind [OF wp0(1) this ranger_ok_id] wp0(1) show ?thesis by (auto simp: Let_def)
qed

end
