(* ===== verification/Spec2Isabelle.thy ===== *)
theory Spec2Isabelle
  imports Dag_Validator Dag_Executor Circuit_Breaker Rbac Retry_Pkg Pipeline_Builder Pipeline_Engine Scheduler_Service Webhook_Notifier
    Rate_Limiter Api_Key Worker_Registry Worker_Handler Worker_Health
begin

text \<open>
  A verification library of the NexusPipe server, a Go program that runs pipelines of tasks. Paths below are relative to \<^verbatim>\<open>src\<close>.

  \<^bold>\<open>The program and its parts.\<close> Pipelines are built, validated and run stage by stage (\<^verbatim>\<open>internal/pipeline\<close>), graphs of
  tasks level by level (\<^verbatim>\<open>internal/dag\<close>). Schedules start jobs by cron expressions and make up for missed runs
  (\<^verbatim>\<open>internal/scheduler\<close>, \<^verbatim>\<open>internal/repository\<close>). Workers take task messages from a broker, process them and settle the messages
  (\<^verbatim>\<open>internal/worker\<close>, \<^verbatim>\<open>internal/queue\<close>). Webhooks tell subscribers about events (\<^verbatim>\<open>internal/webhook\<close>). Requests pass
  rate limits, API keys and role checks (\<^verbatim>\<open>internal/api/middleware\<close>, \<^verbatim>\<open>internal/auth\<close>). Retries and a circuit breaker guard
  calls (\<^verbatim>\<open>internal/retry\<close>, \<^verbatim>\<open>pkg/retry\<close>, \<^verbatim>\<open>internal/circuit\<close>).

  \<^bold>\<open>Conventions.\<close> A struct is a record whose fields carry its name, a string enumeration a datatype with a constructor for any other
  string, a Go function a definition of the same name, with the name of its type in front where two types share it. Methods pass the state
  explicitly. An error is a value of a sum, an option or a pair; an operation that may panic has an outcome. An \<^verbatim>\<open>int\<close> or a duration is
  an integer, with the wrap at 64 bits written out where it can happen; a float is an exact rational number. A map is an association list
  behind the laws of a locale, and the order of a loop over it an argument. Where pointers are shared, the objects live in a store and are
  named by their position. Clocks, random bytes, fresh identifiers, contexts, the network, the database driver and third-party packages are
  arguments; what a statement relies on of them is a premise. Goroutines are steps of a relation, taken in any order; a critical section
  is one step. Logging and metrics exports are left out.

  \<^bold>\<open>Foundations.\<close> \<^verbatim>\<open>Prelude\<close>: integers, time, maps and loops over them. \<^verbatim>\<open>Go_Strings\<close>, \<^verbatim>\<open>Go_Chan\<close>, \<^verbatim>\<open>Go_Float\<close>, \<^verbatim>\<open>Go_Sort\<close>,
  \<^verbatim>\<open>Go_Crypto\<close>, \<^verbatim>\<open>Go_Http\<close>: what the program uses of the standard library, with SHA-256 and HMAC computed. \<^verbatim>\<open>Attempts\<close>: the
  contract of a retry loop, which four loops of the program keep.

  \<^bold>\<open>Graphs.\<close> \<^verbatim>\<open>Dag_Graph\<close> has \<^verbatim>\<open>dag/graph.go\<close>; \<^verbatim>\<open>Dag_Sort\<close> shows that the operations keep a graph well formed and that the sort
  returns the nodes in order exactly if there is no cycle; \<^verbatim>\<open>Dag_Levels\<close> that levels are lengths of longest paths. \<^verbatim>\<open>Dag_Validator\<close>
  shows that the validation accepts exactly the sound graphs; \<^verbatim>\<open>Dag_Executor\<close> that a node runs only after its dependencies completed
  and that, with the policy that continues on failure and without cancellation, every node runs.

  \<^bold>\<open>Guards.\<close> \<^verbatim>\<open>Circuit_Breaker\<close> refines an abstract breaker, with the states that are reached, recovery, and a half-open state that can get
  stuck. \<^verbatim>\<open>Retry\<close> and \<^verbatim>\<open>Retry_Pkg\<close> give calls, waits and results of the retry loops. \<^verbatim>\<open>Rbac\<close> shows that the permission check
  returns and decides as the roles and what they inherit say. \<^verbatim>\<open>Rate_Limiter\<close>: well-typed buckets, the number of admitted requests, and that the cleanup is
  not noticed. \<^verbatim>\<open>Api_Key\<close>: a revoked key stays rejected, a validation accepts exactly the right keys, and no key can be generated.

  \<^bold>\<open>Pipelines.\<close> \<^verbatim>\<open>Models\<close> has the shared records. \<^verbatim>\<open>Pipeline_Validator\<close>, \<^verbatim>\<open>Pipeline_Builder\<close>, \<^verbatim>\<open>Pipeline_Executor\<close>, \<^verbatim>\<open>Event_Bus\<close>
  and \<^verbatim>\<open>Pipeline_Engine\<close>: attempts of a stage, order and failure of the stages of a run, delivery of events in order, and a validation
  that rejects every pipeline.

  \<^bold>\<open>Scheduling.\<close> \<^verbatim>\<open>Cron\<close>, \<^verbatim>\<open>Scheduler_Job\<close>, \<^verbatim>\<open>Schedule_Repo\<close>, \<^verbatim>\<open>Schedule_Store\<close>, \<^verbatim>\<open>Recovery\<close>, \<^verbatim>\<open>Scheduler_Service\<close>: the count of missed
  runs, the policies of the recovery, the coherence of the cache with the table, the entries of the cron engine.

  \<^bold>\<open>Webhooks.\<close> \<^verbatim>\<open>Webhook_Delivery\<close>, \<^verbatim>\<open>Webhook_History\<close>, \<^verbatim>\<open>Webhook_Manager\<close>, \<^verbatim>\<open>Webhook_Notifier\<close>: requests and signatures of a delivery, pages
  of the history, routes of the events, and that the notifier comes to rest in every interleaving.

  \<^bold>\<open>Workers.\<close> \<^verbatim>\<open>Queue_Message\<close> has the envelopes, \<^verbatim>\<open>Worker_Processor\<close> the task types, \<^verbatim>\<open>Worker_Registry\<close> the handlers,
  \<^verbatim>\<open>Worker_Handler\<close> the treatment of a delivery: it is settled once, failures reach the dead letter queue, retries are not counted.
  \<^verbatim>\<open>Worker_Pool\<close> and \<^verbatim>\<open>Worker_Health\<close>: the number of workers stays within its bounds while goroutines pile up, and the reports see no failure.

  \<^bold>\<open>Bounds and fuel.\<close> Loops are structural recursions or have a termination proof. The loops without a bound of their own, the
  count of missed runs and the two walks through the hierarchy of roles, are partial functions whose value is \<^const>\<open>None\<close> when they do
  not return; that they return is proved for the schedules and enforcers where they do. No definition takes fuel.

  \<^bold>\<open>Not modelled.\<close> Code that only calls libraries: the AMQP connection, publisher and topology, the database driver and migrations, the two
  other repositories, the redis cache, configuration, tokens, logging, metrics and tracing; the web framework with its routes, handlers and
  remaining middlewares; the rules of \<^verbatim>\<open>pkg/validator\<close>, which need the engine of regular expressions; the consumer loop and the DAG
  scheduler, which are goroutines around the AMQP client and the cron library; the programs under \<^verbatim>\<open>cmd\<close>. Of the modelled packages, renderings
  as JSON, some records only the repositories read, and the summary of a cron expression are left out. Steps are atomic, so data races are
  not seen.
\<close>

end
